theory Spec2Isabelle
  imports Complex_Main
begin

section \<open>Python values\<close>

text \<open>
  The scanner of \<^verbatim>\<open>box_strategy.py\<close> works on decoded JSON and on dictionaries of
  the hosting system. A value is one of Python's \<^verbatim>\<open>None\<close>, \<^verbatim>\<open>bool\<close>, \<^verbatim>\<open>int\<close>,
  \<^verbatim>\<open>float\<close>, \<^verbatim>\<open>str\<close>, \<^verbatim>\<open>list\<close> or \<^verbatim>\<open>dict\<close> with string keys. A dictionary is an
  association list read by its first matching key. A float is read as the real number
  it stands for (the scanner only stores and compares them).
\<close>

datatype pyval =
    PNone
  | PBool bool
  | PInt int
  | PFloat real
  | PStr string
  | PList "pyval list"
  | PDict "(string \<times> pyval) list"

text \<open>
  The exceptions the scanner can meet, by class. \<^verbatim>\<open>BoxAPIException\<close> carries its
  HTTP status; it is a subclass of \<^verbatim>\<open>BoxException\<close>, which stands here for the
  Box errors that are not API errors. \<open>OtherException\<close> is any other subclass of
  \<^verbatim>\<open>Exception\<close>, by name.
\<close>

datatype exn =
    BoxAPIException int
  | BoxException
  | AttributeError
  | TypeError
  | KeyError
  | OtherException string

text \<open>
  A computation that may raise returns \<open>Inl\<close> the exception or \<open>Inr\<close> its value;
  \<open>bindE\<close> runs the next statement on a value and lets an exception pass.
\<close>

definition bindE :: "exn + 'a \<Rightarrow> ('a \<Rightarrow> exn + 'b) \<Rightarrow> exn + 'b" where
  "bindE m f = (case m of Inl e \<Rightarrow> Inl e | Inr x \<Rightarrow> f x)"

text \<open>Truth value of a Python object, as \<^verbatim>\<open>if x\<close> and \<^verbatim>\<open>not x\<close> test it.\<close>

fun truthy :: "pyval \<Rightarrow> bool" where
  "truthy PNone = False"
| "truthy (PBool b) = b"
| "truthy (PInt i) = (i \<noteq> 0)"
| "truthy (PFloat r) = (r \<noteq> 0)"
| "truthy (PStr s) = (s \<noteq> [])"
| "truthy (PList xs) = (xs \<noteq> [])"
| "truthy (PDict kvs) = (kvs \<noteq> [])"

text \<open>
  \<^verbatim>\<open>obj.get(key, default)\<close>: only a dictionary has the method; a key that is present
  wins over the default even when its value is \<^verbatim>\<open>None\<close>.
\<close>

fun py_get :: "pyval \<Rightarrow> string \<Rightarrow> pyval \<Rightarrow> exn + pyval" where
  "py_get (PDict kvs) k d = Inr (case map_of kvs k of Some v \<Rightarrow> v | None \<Rightarrow> d)"
| "py_get _ k d = Inl AttributeError"

text \<open>\<^verbatim>\<open>for x in obj\<close>: a list yields its elements, a string its characters, a
  dictionary its keys; nothing else iterates.\<close>

fun py_iter :: "pyval \<Rightarrow> exn + pyval list" where
  "py_iter (PList xs) = Inr xs"
| "py_iter (PStr s) = Inr (map (\<lambda>c. PStr [c]) s)"
| "py_iter (PDict kvs) = Inr (map (\<lambda>kv. PStr (fst kv)) kvs)"
| "py_iter _ = Inl TypeError"

text \<open>\<^verbatim>\<open>len(obj)\<close>.\<close>

fun py_len :: "pyval \<Rightarrow> exn + nat" where
  "py_len (PList xs) = Inr (length xs)"
| "py_len (PStr s) = Inr (length s)"
| "py_len (PDict kvs) = Inr (length kvs)"
| "py_len _ = Inl TypeError"

text \<open>\<^verbatim>\<open>obj[0]\<close> on a truthy object: a dictionary with string keys has no key \<^verbatim>\<open>0\<close>.\<close>

fun py_first :: "pyval \<Rightarrow> exn + pyval" where
  "py_first (PList (x # xs)) = Inr x"
| "py_first (PStr (c # cs)) = Inr (PStr [c])"
| "py_first (PDict kvs) = Inl KeyError"
| "py_first _ = Inl TypeError"

text \<open>
  \<^verbatim>\<open>a + n\<close> for an integer \<^verbatim>\<open>n\<close>, and \<^verbatim>\<open>a < b\<close> where \<^verbatim>\<open>a\<close> is a number: numbers
  are \<^verbatim>\<open>int\<close>, \<^verbatim>\<open>bool\<close> (a subclass of \<^verbatim>\<open>int\<close>) and \<^verbatim>\<open>float\<close>; anything else
  raises \<^verbatim>\<open>TypeError\<close>.
\<close>

fun py_add_int :: "pyval \<Rightarrow> int \<Rightarrow> exn + pyval" where
  "py_add_int (PInt k) n = Inr (PInt (k + n))"
| "py_add_int (PBool b) n = Inr (PInt ((if b then 1 else 0) + n))"
| "py_add_int (PFloat r) n = Inr (PFloat (r + of_int n))"
| "py_add_int _ n = Inl TypeError"

fun py_num :: "pyval \<Rightarrow> real option" where
  "py_num (PInt k) = Some (of_int k)"
| "py_num (PBool b) = Some (if b then 1 else 0)"
| "py_num (PFloat r) = Some r"
| "py_num _ = None"

definition py_lt :: "pyval \<Rightarrow> pyval \<Rightarrow> exn + bool" where
  "py_lt a b =
     (case py_num a of
        None \<Rightarrow> Inl TypeError
      | Some x \<Rightarrow> (case py_num b of None \<Rightarrow> Inl TypeError | Some y \<Rightarrow> Inr (x < y)))"

section \<open>Strings\<close>

text \<open>\<^verbatim>\<open>s.split(c)\<close> for a one-character separator: never empty, one more part than
  there are separators.\<close>

fun split_on :: "char \<Rightarrow> string \<Rightarrow> string list" where
  "split_on c [] = [[]]"
| "split_on c (x # xs) =
     (if x = c then [] # split_on c xs
      else (x # hd (split_on c xs)) # tl (split_on c xs))"

text \<open>\<^verbatim>\<open>sep.join(parts)\<close>.\<close>

fun join :: "string \<Rightarrow> string list \<Rightarrow> string" where
  "join sep [] = []"
| "join sep [p] = p"
| "join sep (p # q # ps) = p @ sep @ join sep (q # ps)"

text \<open>
  \<^verbatim>\<open>s.lower()\<close>. A character of a string is a code point below 256. Of these,
  \<^verbatim>\<open>str.lower\<close> moves the letters A to Z and the capital letters from U+00C0 to U+00DE
  (the multiplication sign U+00D7 is not one) to the letter 32 code points further, and
  leaves every other one where it is; it works character by character.
\<close>

definition upper_case :: string where
  "upper_case =
     ''ABCDEFGHIJKLMNOPQRSTUVWXYZ'' @
       [
        CHR 0xC0, CHR 0xC1, CHR 0xC2, CHR 0xC3, CHR 0xC4, CHR 0xC5, CHR 0xC6, CHR 0xC7,
        CHR 0xC8, CHR 0xC9, CHR 0xCA, CHR 0xCB, CHR 0xCC, CHR 0xCD, CHR 0xCE, CHR 0xCF,
        CHR 0xD0, CHR 0xD1, CHR 0xD2, CHR 0xD3, CHR 0xD4, CHR 0xD5, CHR 0xD6, CHR 0xD8,
        CHR 0xD9, CHR 0xDA, CHR 0xDB, CHR 0xDC, CHR 0xDD, CHR 0xDE]"

definition lower_case :: string where
  "lower_case =
     ''abcdefghijklmnopqrstuvwxyz'' @
       [
        CHR 0xE0, CHR 0xE1, CHR 0xE2, CHR 0xE3, CHR 0xE4, CHR 0xE5, CHR 0xE6, CHR 0xE7,
        CHR 0xE8, CHR 0xE9, CHR 0xEA, CHR 0xEB, CHR 0xEC, CHR 0xED, CHR 0xEE, CHR 0xEF,
        CHR 0xF0, CHR 0xF1, CHR 0xF2, CHR 0xF3, CHR 0xF4, CHR 0xF5, CHR 0xF6, CHR 0xF8,
        CHR 0xF9, CHR 0xFA, CHR 0xFB, CHR 0xFC, CHR 0xFD, CHR 0xFE]"

definition lower_char :: "char \<Rightarrow> char" where
  "lower_char c =
     (case map_of (zip upper_case lower_case) c of
        Some l \<Rightarrow> l
      | None \<Rightarrow> c)"

definition lower :: "string \<Rightarrow> string" where
  "lower s = map lower_char s"

section \<open>Metadata normalisation\<close>

text \<open>
  \<^verbatim>\<open>_build_folder_path\<close>. The loop over the entries collects the names; an entry that
  is not a dictionary raises at its \<^verbatim>\<open>.get\<close>. The entry with id \<^verbatim>\<open>"0"\<close> and name
  \<^verbatim>\<open>"All Files"\<close> is skipped wherever it stands, and so is an entry without a name.
\<close>

fun folder_names_of :: "pyval list \<Rightarrow> exn + pyval list" where
  "folder_names_of [] = Inr []"
| "folder_names_of (entry # entries) =
     bindE (py_get entry ''id'' PNone) (\<lambda>folder_id.
     bindE (py_get entry ''name'' PNone) (\<lambda>folder_name.
     bindE (folder_names_of entries) (\<lambda>names.
       if folder_id = PStr ''0'' \<and> folder_name = PStr ''All Files'' then Inr names
       else if truthy folder_name then Inr (folder_name # names)
       else Inr names)))"

text \<open>\<^verbatim>\<open>"/".join(folder_names)\<close> needs every name to be a string.\<close>

fun str_items :: "pyval list \<Rightarrow> exn + string list" where
  "str_items [] = Inr []"
| "str_items (PStr s # vs) = bindE (str_items vs) (\<lambda>ss. Inr (s # ss))"
| "str_items (_ # vs) = Inl TypeError"

definition build_folder_path :: "pyval \<Rightarrow> exn + string" where
  "build_folder_path path_collection =
     (if \<not> truthy path_collection then Inr ''/''
      else
        bindE (py_get path_collection ''entries'' PNone) (\<lambda>entries.
          if \<not> truthy entries then Inr ''/''
          else
            bindE (py_iter entries) (\<lambda>es.
            bindE (folder_names_of es) (\<lambda>folder_names.
              if folder_names = [] then Inr ''/''
              else bindE (str_items folder_names) (\<lambda>ss. Inr (''/'' @ join ''/'' ss))))))"

text \<open>\<^verbatim>\<open>_get_mime_type_from_name\<close>: the table, then the function.\<close>

definition extension_to_mime :: "(string \<times> string) list" where
  "extension_to_mime =
     [(''pdf'', ''application/pdf''),
      (''doc'', ''application/msword''),
      (''docx'', ''application/vnd.openxmlformats-officedocument.wordprocessingml.document''),
      (''xls'', ''application/vnd.ms-excel''),
      (''xlsx'', ''application/vnd.openxmlformats-officedocument.spreadsheetml.sheet''),
      (''ppt'', ''application/vnd.ms-powerpoint''),
      (''pptx'', ''application/vnd.openxmlformats-officedocument.presentationml.presentation''),
      (''txt'', ''text/plain''),
      (''csv'', ''text/csv''),
      (''jpg'', ''image/jpeg''),
      (''jpeg'', ''image/jpeg''),
      (''png'', ''image/png''),
      (''gif'', ''image/gif''),
      (''html'', ''text/html''),
      (''htm'', ''text/html''),
      (''json'', ''application/json''),
      (''xml'', ''application/xml''),
      (''zip'', ''application/zip'')]"

definition get_mime_type_from_name :: "pyval \<Rightarrow> exn + string" where
  "get_mime_type_from_name filename =
     (if \<not> truthy filename then Inr ''application/octet-stream''
      else case filename of
        PStr s \<Rightarrow>
          (let name_parts = split_on (CHR ''.'') s in
           if length name_parts > 1 then
             (let ext = lower (last name_parts) in
              Inr (case map_of extension_to_mime ext of
                     Some m \<Rightarrow> m
                   | None \<Rightarrow> ''application/'' @ ext))
           else Inr ''application/octet-stream'')
      | _ \<Rightarrow> Inl AttributeError)"

section \<open>The scanner's state and its collaborators\<close>

text \<open>
  An f-string that is only logged, sent or returned is kept unrendered: its literal
  pieces, and the values and exceptions whose \<^verbatim>\<open>str()\<close> it holds.
\<close>

datatype fpart = Lit string | Str pyval | StrExc exn

type_synonym fstring = "fpart list"

text \<open>The parameters of one search request (the dictionary \<^verbatim>\<open>search_params\<close>); the
  full scan has no \<^verbatim>\<open>updated_at_range\<close>.\<close>

record search_params =
  sp_query :: fstring
  sp_updated_at_range :: "(string \<times> pyval) option"
  sp_type :: string
  sp_limit :: int
  sp_offset :: pyval
  sp_fields :: string

text \<open>
  What \<^verbatim>\<open>make_request\<close> returns: an object with a truth value and a \<^verbatim>\<open>json()\<close>
  method that returns the decoded body or raises. The client acts on the world outside
  the process, of type \<open>'w\<close>, and may raise.
\<close>

datatype response = Response (resp_truthy: bool) (resp_json: "exn + pyval")

type_synonym 'w client = "search_params \<Rightarrow> 'w \<Rightarrow> (exn + response) \<times> 'w"

text \<open>
  What an authentication handler returns when it does not return \<^verbatim>\<open>None\<close>: the
  entries \<^verbatim>\<open>"service"\<close> (the client, or nothing) and \<^verbatim>\<open>"updated_credentials"\<close>.
\<close>

datatype 'w auth_result = AuthResult "'w client option" pyval

text \<open>
  Modelled from the spec: the class \<^verbatim>\<open>FileMetadata\<close> is used by the scanner and
  defined nowhere in the source file; the record has the ten fields its constructor is
  called with (FileMetadataRecord in the specification), and \<^verbatim>\<open>to_dict\<close> is taken as
  the identity on it.
\<close>

record file_metadata =
  fm_id :: pyval
  fm_name :: pyval
  fm_source :: string
  fm_last_modified :: pyval
  fm_created_time :: pyval
  fm_size :: pyval
  fm_mime_type :: string
  fm_web_view_link :: pyval
  fm_parent_folder_id :: pyval
  fm_folder_path :: string

text \<open>The dictionaries \<^verbatim>\<open>stats\<close> and \<^verbatim>\<open>ScanResult\<close>.\<close>

record scan_stats =
  files_count :: nat
  last_scan_batch_at :: real
  scan_started_at :: "real option"
  scan_completed_at :: "real option"
  api_calls_made :: int
  api_errors_encountered :: int

record scan_result =
  files :: "file_metadata list"
  is_completed :: bool
  stats :: scan_stats
  updated_credentials :: pyval
  error :: "fstring option"

text \<open>
  The state one call works on. The fields \<open>self_\<dots>\<close> are the attributes of the
  \<^verbatim>\<open>BoxStrategy\<close> instance. \<open>order\<close> is the caller's \<^verbatim>\<open>scan_order\<close> dictionary, which
  \<^verbatim>\<open>_save_scan_state\<close> changes in place. \<open>clock\<close> is what \<^verbatim>\<open>time.time()\<close> returns
  (in the model it moves only while the process sleeps);
  \<open>sleeps\<close> lists the arguments of the calls of \<^verbatim>\<open>time.sleep\<close> so far and
  \<open>persist_calls\<close> the arguments of the calls of
  \<^verbatim>\<open>ScanOrderAdapter.update_scan_metadata\<close> so far, oldest first; \<open>ext\<close> is the world
  the collaborators act on.
\<close>

record 'w state =
  self_processed_files_count :: int
  self_box_client :: "'w client option"
  self_current_offset :: pyval
  self_api_error_occurred :: bool
  self_api_calls_count :: int
  self_api_errors_count :: int
  self_scan_started_at :: "real option"
  self_scan_completed_at :: "real option"
  self_last_scan_batch_at :: "real option"
  order :: pyval
  clock :: real
  sleeps :: "real list"
  persist_calls :: "(pyval \<times> pyval) list"
  ext :: 'w

text \<open>
  What the scanner uses and the source file does not define: the class attribute
  \<^verbatim>\<open>RETRY_DELAY\<close> (read by \<^verbatim>\<open>_execute_with_retry\<close>, set in no class of the file),
  \<^verbatim>\<open>BoxAuthFactory.get_auth_handler\<close> (an authentication handler for an auth type, or
  nothing), the two functions of \<^verbatim>\<open>ScanOrderAdapter\<close> and \<^verbatim>\<open>format_to_rfc3339_box\<close>.
  They are parameters of the model; the three functions that are called with values
  may raise.
\<close>

record 'w env =
  RETRY_DELAY :: real
  get_auth_handler ::
    "pyval \<Rightarrow> (pyval \<Rightarrow> 'w \<Rightarrow> (exn + 'w auth_result option) \<times> 'w) option"
  update_scan_metadata :: "pyval \<Rightarrow> pyval \<Rightarrow> 'w \<Rightarrow> (exn + unit) \<times> 'w"
  get_last_completed_scan_timestamp :: "pyval \<Rightarrow> 'w \<Rightarrow> (exn + pyval) \<times> 'w"
  format_to_rfc3339_box :: "pyval \<Rightarrow> exn + string"

definition MAX_BATCH_SIZE :: int where
  "MAX_BATCH_SIZE = 300"

definition RATE_LIMIT_DELAY :: real where
  "RATE_LIMIT_DELAY = 0.5"

definition MAX_RETRIES :: nat where
  "MAX_RETRIES = 3"

text \<open>\<^verbatim>\<open>__init__\<close>, in a world \<open>w\<close> at time \<open>t\<close>; no scan order is bound yet.\<close>

definition init :: "real \<Rightarrow> 'w \<Rightarrow> 'w state" where
  "init t w =
     \<lparr>self_processed_files_count = 0,
      self_box_client = None,
      self_current_offset = PInt 0,
      self_api_error_occurred = False,
      self_api_calls_count = 0,
      self_api_errors_count = 0,
      self_scan_started_at = None,
      self_scan_completed_at = None,
      self_last_scan_batch_at = None,
      order = PNone,
      clock = t,
      sleeps = [],
      persist_calls = [],
      ext = w\<rparr>"

text \<open>Statements in sequence on the state, and \<^verbatim>\<open>try\<close> with \<^verbatim>\<open>except Exception\<close>.\<close>

definition bindS ::
  "('s \<Rightarrow> (exn + 'a) \<times> 's) \<Rightarrow> ('a \<Rightarrow> 's \<Rightarrow> (exn + 'b) \<times> 's) \<Rightarrow> 's \<Rightarrow> (exn + 'b) \<times> 's" where
  "bindS m f s = (case m s of (Inl e, s') \<Rightarrow> (Inl e, s') | (Inr x, s') \<Rightarrow> f x s')"

definition liftE :: "exn + 'a \<Rightarrow> 's \<Rightarrow> (exn + 'a) \<times> 's" where
  "liftE r s = (r, s)"

definition try_except ::
  "('s \<Rightarrow> (exn + 'a) \<times> 's) \<Rightarrow> (exn \<Rightarrow> 's \<Rightarrow> (exn + 'a) \<times> 's) \<Rightarrow> 's \<Rightarrow> (exn + 'a) \<times> 's" where
  "try_except m h s = (case m s of (Inl e, s') \<Rightarrow> h e s' | (Inr x, s') \<Rightarrow> (Inr x, s'))"

text \<open>\<^verbatim>\<open>time.sleep(d)\<close> raises \<^verbatim>\<open>ValueError\<close> on a negative argument.\<close>

definition sleep :: "real \<Rightarrow> 'w state \<Rightarrow> (exn + unit) \<times> 'w state" where
  "sleep d s =
     (if d < 0 then (Inl (OtherException ''ValueError''), s)
      else (Inr (), s\<lparr>clock := clock s + d, sleeps := sleeps s @ [d]\<rparr>))"

text \<open>A call of a collaborator acts on the world.\<close>

definition call_ext :: "('w \<Rightarrow> (exn + 'a) \<times> 'w) \<Rightarrow> 'w state \<Rightarrow> (exn + 'a) \<times> 'w state" where
  "call_ext f s = (case f (ext s) of (r, w') \<Rightarrow> (r, s\<lparr>ext := w'\<rparr>))"

section \<open>The retry executor\<close>

text \<open>
  \<^verbatim>\<open>_execute_with_retry\<close>. \<open>attempt\<close> is the body of the \<^verbatim>\<open>try\<close>: the back-off sleep
  of a retry, then the request. \<open>retry_loop\<close> is the \<^verbatim>\<open>for\<close> loop over the values of
  \<^verbatim>\<open>retry\<close> still to come: an API error with status 429 or 5xx goes on to the next
  value unless this is the last one; any other API error is raised; every other
  exception is raised only when this is the last value, and otherwise the handler
  ends and the loop goes on. A loop that ends returns \<^verbatim>\<open>None\<close>.
\<close>

definition attempt ::
  "'w env \<Rightarrow> ('w \<Rightarrow> (exn + 'r) \<times> 'w) \<Rightarrow> nat \<Rightarrow> 'w state \<Rightarrow> (exn + 'r) \<times> 'w state" where
  "attempt env api_request_func retry =
     (if retry > 0
      then bindS (sleep (RETRY_DELAY env * 2 ^ (retry - 1))) (\<lambda>_. call_ext api_request_func)
      else call_ext api_request_func)"

fun retry_loop ::
  "'w env \<Rightarrow> ('w \<Rightarrow> (exn + 'r) \<times> 'w) \<Rightarrow> nat list \<Rightarrow> 'w state \<Rightarrow> (exn + 'r option) \<times> 'w state" where
  "retry_loop env api_request_func [] s = (Inr None, s)"
| "retry_loop env api_request_func (retry # rest) s =
     (case attempt env api_request_func retry s of
        (Inr r, s') \<Rightarrow> (Inr (Some r), s')
      | (Inl e, s') \<Rightarrow>
          (case e of
             BoxAPIException status_code \<Rightarrow>
               if status_code = 429 \<or> (500 \<le> status_code \<and> status_code < 600) then
                 (if retry = MAX_RETRIES then (Inl e, s')
                  else retry_loop env api_request_func rest s')
               else if status_code = 404 then (Inl e, s')
               else if status_code = 403 then (Inl e, s')
               else (Inl e, s')
           | BoxException \<Rightarrow>
               if retry = MAX_RETRIES then (Inl e, s')
               else retry_loop env api_request_func rest s'
           | _ \<Rightarrow>
               if retry = MAX_RETRIES then (Inl e, s')
               else retry_loop env api_request_func rest s'))"

definition execute_with_retry ::
  "'w env \<Rightarrow> ('w \<Rightarrow> (exn + 'r) \<times> 'w) \<Rightarrow> 'w state \<Rightarrow> (exn + 'r option) \<times> 'w state" where
  "execute_with_retry env api_request_func = retry_loop env api_request_func [0..<MAX_RETRIES + 1]"

section \<open>The folder walk\<close>

text \<open>\<^verbatim>\<open>str(n)\<close> for a count, as the f-string \<^verbatim>\<open>f"unknown-{files_count}"\<close> needs it.\<close>

fun string_of_nat :: "nat \<Rightarrow> string" where
  "string_of_nat n =
     (if n < 10 then [''0123456789'' ! n]
      else string_of_nat (n div 10) @ [''0123456789'' ! (n mod 10)])"

declare string_of_nat.simps [simp del]

text \<open>
  The body of the inner \<^verbatim>\<open>try\<close> of the two walks: the folder path, then the arguments
  of \<^verbatim>\<open>FileMetadata\<close> in the order they are written. The full scan reads \<^verbatim>\<open>id\<close> and
  \<^verbatim>\<open>name\<close> with no default; the incremental scan defaults them to
  \<^verbatim>\<open>unknown-<files_count>\<close> and the name given to the MIME lookup to the empty string.
\<close>

definition web_view_link_of :: "pyval \<Rightarrow> exn + pyval" where
  "web_view_link_of item =
     bindE (py_get item ''shared_link'' PNone) (\<lambda>shared_link.
       if truthy shared_link
       then bindE (py_get item ''shared_link'' (PDict [])) (\<lambda>l. py_get l ''url'' (PStr []))
       else Inr (PStr []))"

definition file_metadata_full :: "pyval \<Rightarrow> pyval \<Rightarrow> exn + file_metadata" where
  "file_metadata_full folder_id item =
     bindE (py_get item ''path_collection'' (PDict [])) (\<lambda>path_collection.
     bindE (build_folder_path path_collection) (\<lambda>folder_path.
     bindE (py_get item ''id'' PNone) (\<lambda>item_id.
     bindE (py_get item ''name'' PNone) (\<lambda>name.
     bindE (py_get item ''modified_at'' PNone) (\<lambda>modified_at.
     bindE (py_get item ''created_at'' PNone) (\<lambda>created_at.
     bindE (py_get item ''size'' (PInt 0)) (\<lambda>size_val.
     bindE (py_get item ''name'' PNone) (\<lambda>mime_name.
     bindE (get_mime_type_from_name mime_name) (\<lambda>mime_type.
     bindE (web_view_link_of item) (\<lambda>web_view_link.
     bindE (py_get item ''parent'' (PDict [])) (\<lambda>parent.
     bindE (py_get parent ''id'' folder_id) (\<lambda>parent_folder_id.
       Inr \<lparr>fm_id = item_id, fm_name = name, fm_source = ''box'',
            fm_last_modified = modified_at, fm_created_time = created_at,
            fm_size = size_val, fm_mime_type = mime_type,
            fm_web_view_link = web_view_link,
            fm_parent_folder_id = parent_folder_id,
            fm_folder_path = folder_path\<rparr>))))))))))))"

definition file_metadata_incremental :: "pyval \<Rightarrow> nat \<Rightarrow> pyval \<Rightarrow> exn + file_metadata" where
  "file_metadata_incremental folder_id n_files item =
     bindE (py_get item ''path_collection'' (PDict [])) (\<lambda>path_collection.
     bindE (build_folder_path path_collection) (\<lambda>folder_path.
     bindE (py_get item ''id'' (PStr (''unknown-'' @ string_of_nat n_files))) (\<lambda>item_id.
     bindE (py_get item ''name'' (PStr (''unknown-'' @ string_of_nat n_files))) (\<lambda>name.
     bindE (py_get item ''modified_at'' PNone) (\<lambda>modified_at.
     bindE (py_get item ''created_at'' PNone) (\<lambda>created_at.
     bindE (py_get item ''size'' (PInt 0)) (\<lambda>size_val.
     bindE (py_get item ''name'' (PStr [])) (\<lambda>mime_name.
     bindE (get_mime_type_from_name mime_name) (\<lambda>mime_type.
     bindE (web_view_link_of item) (\<lambda>web_view_link.
     bindE (py_get item ''parent'' (PDict [])) (\<lambda>parent.
     bindE (py_get parent ''id'' folder_id) (\<lambda>parent_folder_id.
       Inr \<lparr>fm_id = item_id, fm_name = name, fm_source = ''box'',
            fm_last_modified = modified_at, fm_created_time = created_at,
            fm_size = size_val, fm_mime_type = mime_type,
            fm_web_view_link = web_view_link,
            fm_parent_folder_id = parent_folder_id,
            fm_folder_path = folder_path\<rparr>))))))))))))"

text \<open>
  The \<^verbatim>\<open>for item in items\<close> loop of \<^verbatim>\<open>_scan_folder\<close>, from the item it is at, with
  \<^verbatim>\<open>files_count\<close> and \<^verbatim>\<open>file_metadata_list\<close> so far. It returns the list and whether
  it left by \<^verbatim>\<open>break\<close> (then \<^verbatim>\<open>has_more\<close> is set). An item that fails is skipped, but
  the handler formats \<^verbatim>\<open>item.get('id')\<close> into its log line, which raises out of the
  loop when the item is not a dictionary.
\<close>

fun process_items_full ::
  "pyval \<Rightarrow> int \<Rightarrow> pyval list \<Rightarrow> nat \<Rightarrow> file_metadata list \<Rightarrow> exn + (file_metadata list \<times> bool)" where
  "process_items_full folder_id max_files [] n_files file_metadata_list =
     Inr (file_metadata_list, False)"
| "process_items_full folder_id max_files (item # items) n_files file_metadata_list =
     (if int n_files \<ge> max_files then Inr (file_metadata_list, True)
      else case file_metadata_full folder_id item of
        Inr file_metadata \<Rightarrow>
          process_items_full folder_id max_files items (n_files + 1)
            (file_metadata_list @ [file_metadata])
      | Inl e \<Rightarrow>
          (case py_get item ''id'' PNone of
             Inl e' \<Rightarrow> Inl e'
           | Inr _ \<Rightarrow> process_items_full folder_id max_files items n_files file_metadata_list))"

text \<open>
  The loop of \<^verbatim>\<open>_scan_folder_incremental\<close>. Its handler cannot raise; it counts the
  item in \<^verbatim>\<open>self.api_errors_count\<close>. The loop returns the list and the number of
  items it counted so; what \<^verbatim>\<open>break\<close> sets is overwritten after the loop.
\<close>

fun process_items_incremental ::
  "pyval \<Rightarrow> int \<Rightarrow> pyval list \<Rightarrow> nat \<Rightarrow> file_metadata list \<Rightarrow> nat \<Rightarrow> file_metadata list \<times> nat" where
  "process_items_incremental folder_id max_files [] n_files file_metadata_list errors =
     (file_metadata_list, errors)"
| "process_items_incremental folder_id max_files (item # items) n_files file_metadata_list errors =
     (if int n_files \<ge> max_files then (file_metadata_list, errors)
      else case file_metadata_incremental folder_id n_files item of
        Inr file_metadata \<Rightarrow>
          process_items_incremental folder_id max_files items (n_files + 1)
            (file_metadata_list @ [file_metadata]) errors
      | Inl e \<Rightarrow>
          process_items_incremental folder_id max_files items n_files file_metadata_list
            (errors + 1))"

text \<open>The two dictionaries \<^verbatim>\<open>search_params\<close>.\<close>

definition search_fields :: string where
  "search_fields = ''id,name,type,modified_at,created_at,size,shared_link,parent,path_collection''"

definition full_search_params :: "pyval \<Rightarrow> pyval \<Rightarrow> int \<Rightarrow> search_params" where
  "full_search_params folder_id offset max_files =
     \<lparr>sp_query = [Lit ''type:file ancestor_folder_ids:'', Str folder_id],
      sp_updated_at_range = None,
      sp_type = ''file'',
      sp_limit = max_files,
      sp_offset = offset,
      sp_fields = search_fields\<rparr>"

definition incremental_search_params :: "pyval \<Rightarrow> string \<Rightarrow> pyval \<Rightarrow> int \<Rightarrow> search_params" where
  "incremental_search_params folder_id modified_since offset max_files =
     \<lparr>sp_query = [Lit ''type:file ancestor_folder_ids:'', Str folder_id, Lit '' ''],
      sp_updated_at_range = Some (modified_since, PNone),
      sp_type = ''file'',
      sp_limit = max_files,
      sp_offset = offset,
      sp_fields = search_fields\<rparr>"

text \<open>
  The request of both walks: the rate-limit sleep, the one request through the retry
  executor, and the count of the call. The lambda reads \<^verbatim>\<open>self.box_client\<close> when it is
  called; without a client its attribute access raises inside the executor.
\<close>

definition search_request :: "'w state \<Rightarrow> search_params \<Rightarrow> 'w \<Rightarrow> (exn + response) \<times> 'w" where
  "search_request s search_params =
     (case self_box_client s of
        None \<Rightarrow> (\<lambda>w. (Inl AttributeError, w))
      | Some client \<Rightarrow> client search_params)"

definition request_page ::
  "'w env \<Rightarrow> search_params \<Rightarrow> 'w state \<Rightarrow> (exn + response option) \<times> 'w state" where
  "request_page env search_params =
     bindS (sleep RATE_LIMIT_DELAY) (\<lambda>_.
     bindS (\<lambda>s. execute_with_retry env (search_request s search_params) s) (\<lambda>response s.
       (Inr response, s\<lparr>self_api_calls_count := self_api_calls_count s + 1\<rparr>)))"

text \<open>\<^verbatim>\<open>response.json() if response else {}\<close>, and the truth value of the response.\<close>

fun response_truthy :: "response option \<Rightarrow> bool" where
  "response_truthy None = False"
| "response_truthy (Some r) = resp_truthy r"

fun json_or_empty :: "response option \<Rightarrow> exn + pyval" where
  "json_or_empty None = Inr (PDict [])"
| "json_or_empty (Some r) = (if resp_truthy r then resp_json r else Inr (PDict []))"

text \<open>
  \<^verbatim>\<open>_scan_folder\<close> after the request. \<^verbatim>\<open>total_count\<close> has no default; the log line
  before the loop serialises \<^verbatim>\<open>items[0]\<close>. After the loop
  \<^verbatim>\<open>if not has_more and offset + len(items) < total_count\<close> compares only when the
  loop did not set \<^verbatim>\<open>has_more\<close>, and counts the entries of the page.
\<close>

definition page_full ::
  "pyval \<Rightarrow> pyval \<Rightarrow> int \<Rightarrow> response option \<Rightarrow> exn + (file_metadata list \<times> bool)" where
  "page_full folder_id offset max_files response =
     bindE (json_or_empty response) (\<lambda>response_json.
       if \<not> truthy response_json then Inr ([], False)
       else
         bindE (py_get response_json ''entries'' PNone) (\<lambda>entries.
           if \<not> truthy entries then Inr ([], False)
           else
             bindE (py_get response_json ''entries'' (PList [])) (\<lambda>items.
             bindE (py_get response_json ''total_count'' PNone) (\<lambda>total_count.
             bindE (py_first items) (\<lambda>_.
             bindE (py_iter items) (\<lambda>its.
             bindE (process_items_full folder_id max_files its 0 []) (\<lambda>r.
               if snd r then Inr (fst r, True)
               else
                 bindE (py_len items) (\<lambda>n.
                 bindE (py_add_int offset (int n)) (\<lambda>reached.
                 bindE (py_lt reached total_count) (\<lambda>has_more.
                   Inr (fst r, has_more)))))))))))"

definition scan_folder ::
  "'w env \<Rightarrow> pyval \<Rightarrow> pyval \<Rightarrow> int \<Rightarrow> 'w state \<Rightarrow> (exn + (file_metadata list \<times> bool)) \<times> 'w state" where
  "scan_folder env folder_id offset max_files =
     try_except
       (bindS (request_page env (full_search_params folder_id offset max_files)) (\<lambda>response.
          liftE (page_full folder_id offset max_files response)))
       (\<lambda>e s. (Inl e, s\<lparr>self_api_error_occurred := True,
                         self_api_errors_count := self_api_errors_count s + 1\<rparr>))"

text \<open>
  \<^verbatim>\<open>_scan_folder_incremental\<close> after the request. The test is on the response, not
  on its body; \<^verbatim>\<open>total_count\<close> defaults to \<^verbatim>\<open>len(items)\<close>, which is computed before
  the lookup; \<^verbatim>\<open>has_more\<close> is \<^verbatim>\<open>offset + len(file_metadata_list) < total_count\<close>.
\<close>

definition page_incremental ::
  "pyval \<Rightarrow> pyval \<Rightarrow> int \<Rightarrow> response option \<Rightarrow> 'w state
     \<Rightarrow> (exn + (file_metadata list \<times> bool)) \<times> 'w state" where
  "page_incremental folder_id offset max_files response =
     bindS (liftE (json_or_empty response)) (\<lambda>response_json.
       if \<not> response_truthy response then liftE (Inr ([], False))
       else
         bindS (liftE (py_get response_json ''entries'' PNone)) (\<lambda>entries.
           if \<not> truthy entries then liftE (Inr ([], False))
           else
             bindS (liftE (py_get response_json ''entries'' (PList []))) (\<lambda>items.
             bindS (liftE (py_len items)) (\<lambda>n.
             bindS (liftE (py_get response_json ''total_count'' (PInt (int n)))) (\<lambda>total_count.
             bindS (liftE (py_iter items)) (\<lambda>its.
             bindS (\<lambda>s. (Inr (fst (process_items_incremental folder_id max_files its 0 [] 0)),
                          s\<lparr>self_api_errors_count := self_api_errors_count s +
                               int (snd (process_items_incremental folder_id max_files its 0 [] 0))\<rparr>))
               (\<lambda>file_metadata_list.
             bindS (liftE (py_add_int offset (int (length file_metadata_list)))) (\<lambda>reached.
             bindS (liftE (py_lt reached total_count)) (\<lambda>has_more.
               liftE (Inr (file_metadata_list, has_more)))))))))))"

definition scan_folder_incremental ::
  "'w env \<Rightarrow> pyval \<Rightarrow> string \<Rightarrow> pyval \<Rightarrow> int \<Rightarrow> 'w state
     \<Rightarrow> (exn + (file_metadata list \<times> bool)) \<times> 'w state" where
  "scan_folder_incremental env folder_id modified_since offset max_files =
     try_except
       (bindS (request_page env (incremental_search_params folder_id modified_since offset max_files))
          (\<lambda>response. page_incremental folder_id offset max_files response))
       (\<lambda>e s. (Inl e, s\<lparr>self_api_error_occurred := True\<rparr>))"

section \<open>The cursor and the scans\<close>

text \<open>\<^verbatim>\<open>obj[key] = value\<close> and \<^verbatim>\<open>obj[key]\<close> for a string key: only a dictionary
  takes them; a dictionary keeps the place of a key it has and appends a new one.\<close>

fun dict_set :: "(string \<times> pyval) list \<Rightarrow> string \<Rightarrow> pyval \<Rightarrow> (string \<times> pyval) list" where
  "dict_set [] k v = [(k, v)]"
| "dict_set (kv # kvs) k v = (if fst kv = k then (k, v) # kvs else kv # dict_set kvs k v)"

fun py_setitem :: "pyval \<Rightarrow> string \<Rightarrow> pyval \<Rightarrow> exn + pyval" where
  "py_setitem (PDict kvs) k v = Inr (PDict (dict_set kvs k v))"
| "py_setitem _ k v = Inl TypeError"

fun py_getitem :: "pyval \<Rightarrow> string \<Rightarrow> exn + pyval" where
  "py_getitem (PDict kvs) k = (case map_of kvs k of Some v \<Rightarrow> Inr v | None \<Rightarrow> Inl KeyError)"
| "py_getitem _ k = Inl TypeError"

text \<open>\<^verbatim>\<open>s.replace(".000Z", "Z")\<close>: every occurrence, from the left.\<close>

fun replace_000Z :: "string \<Rightarrow> string" where
  "replace_000Z [] = []"
| "replace_000Z (c # cs) =
     (if take 5 (c # cs) = ''.000Z'' then CHR ''Z'' # replace_000Z (drop 4 cs)
      else c # replace_000Z cs)"

text \<open>
  \<^verbatim>\<open>_save_scan_state\<close>: the cursor holds the current offset and the time; it is
  written into the scan order's \<^verbatim>\<open>scan_metadata\<close> and then handed to the persistence
  collaborator under \<^verbatim>\<open>scan_order["id"]\<close>.
\<close>

definition cursor_data_of :: "pyval \<Rightarrow> real \<Rightarrow> pyval" where
  "cursor_data_of current_offset now =
     PDict [(''current_offset'', current_offset), (''last_updated'', PFloat now)]"

definition save_scan_state :: "'w env \<Rightarrow> 'w state \<Rightarrow> (exn + unit) \<times> 'w state" where
  "save_scan_state env s =
     (let cursor_data = cursor_data_of (self_current_offset s) (clock s) in
        (bindS (liftE (py_get (order s) ''scan_metadata'' (PDict []))) (\<lambda>scan_metadata.
         bindS (liftE (py_setitem scan_metadata ''cursor'' cursor_data)) (\<lambda>scan_metadata'.
         bindS (liftE (py_setitem (order s) ''scan_metadata'' scan_metadata')) (\<lambda>scan_order'.
         bindS (\<lambda>s. (Inr (), s\<lparr>order := scan_order'\<rparr>)) (\<lambda>_.
         bindS (liftE (py_getitem scan_order' ''id'')) (\<lambda>order_id.
         bindS (\<lambda>s. (Inr (), s\<lparr>persist_calls :=
                          persist_calls s @ [(order_id, PDict [(''cursor'', cursor_data)])]\<rparr>)) (\<lambda>_.
           call_ext (update_scan_metadata env order_id (PDict [(''cursor'', cursor_data)]))))))))) s)"

text \<open>\<^verbatim>\<open>_authenticate\<close>.\<close>

definition authenticate ::
  "'w env \<Rightarrow> pyval \<Rightarrow> 'w state \<Rightarrow> (exn + 'w auth_result option) \<times> 'w state" where
  "authenticate env data_source =
     bindS (liftE (py_get data_source ''auth_type'' (PStr ''oauth''))) (\<lambda>auth_type.
       if \<not> truthy auth_type then liftE (Inr None)
       else
         (case get_auth_handler env auth_type of
            None \<Rightarrow> liftE (Inr None)
          | Some auth_handler \<Rightarrow> call_ext (auth_handler data_source)))"

text \<open>\<^verbatim>\<open>create_error_result\<close>.\<close>

definition create_error_result :: "fstring \<Rightarrow> real option \<Rightarrow> 'w state \<Rightarrow> scan_result" where
  "create_error_result error_msg started s =
     \<lparr>files = [],
      is_completed = False,
      stats =
        \<lparr>files_count = 0,
         last_scan_batch_at = clock s,
         scan_started_at = started,
         scan_completed_at = None,
         api_calls_made = self_api_calls_count s,
         api_errors_encountered = self_api_errors_count s\<rparr>,
      updated_credentials = PNone,
      error = Some error_msg\<rparr>"

text \<open>\<^verbatim>\<open>_initialize_scan_state\<close> and \<^verbatim>\<open>_restore_scan_state\<close>.\<close>

definition initialize_scan_state :: "pyval \<Rightarrow> 'w state \<Rightarrow> (exn + unit) \<times> 'w state" where
  "initialize_scan_state data_source =
     bindS (liftE (py_get data_source ''metadata'' (PDict []))) (\<lambda>metadata.
     bindS (liftE (py_get metadata ''folder_id'' PNone)) (\<lambda>root_folder_id s.
       (Inr (), s\<lparr>self_current_offset := PInt 0\<rparr>)))"

definition restore_scan_state :: "pyval \<Rightarrow> 'w state \<Rightarrow> (exn + unit) \<times> 'w state" where
  "restore_scan_state cursor_data =
     bindS (liftE (py_get cursor_data ''current_offset'' (PInt 0))) (\<lambda>v s.
       (Inr (), s\<lparr>self_current_offset := v\<rparr>))"

text \<open>The statements shared by the two scans: the reset of the counters, the root
  folder (\<^verbatim>\<open>data_source.get("metadata", {}).get("folder_id", "0")\<close>), the read of
  the cursor (\<^verbatim>\<open>scan_order.get("scan_metadata", {}).get("cursor", {})\<close> and then
  \<^verbatim>\<open>cursor_data.get("current_offset", 0)\<close>), the step of the offset after the walk, the result of a batch and the
  handler of the outer \<^verbatim>\<open>try\<close>.\<close>

definition reset_counters :: "'w state \<Rightarrow> (exn + unit) \<times> 'w state" where
  "reset_counters s =
     (Inr (), s\<lparr>self_processed_files_count := 0,
                self_scan_started_at := Some (clock s),
                self_scan_completed_at := None,
                self_last_scan_batch_at := None\<rparr>)"

definition cursor_offset_of :: "pyval \<Rightarrow> exn + pyval" where
  "cursor_offset_of scan_order =
     bindE (py_get scan_order ''scan_metadata'' (PDict [])) (\<lambda>scan_metadata.
     bindE (py_get scan_metadata ''cursor'' (PDict [])) (\<lambda>cursor_data.
       py_get cursor_data ''current_offset'' (PInt 0)))"

definition root_folder_id_of :: "pyval \<Rightarrow> exn + pyval" where
  "root_folder_id_of data_source =
     bindE (py_get data_source ''metadata'' (PDict [])) (\<lambda>metadata.
       py_get metadata ''folder_id'' (PStr ''0''))"

definition read_cursor_offset :: "'w state \<Rightarrow> (exn + unit) \<times> 'w state" where
  "read_cursor_offset s =
     (case cursor_offset_of (order s) of
        Inl e \<Rightarrow> (Inl e, s)
      | Inr v \<Rightarrow> (Inr (), s\<lparr>self_current_offset := v\<rparr>))"

definition advance_offset :: "nat \<Rightarrow> bool \<Rightarrow> 'w state \<Rightarrow> (exn + unit) \<times> 'w state" where
  "advance_offset n has_more s =
     (if has_more then
        (case py_add_int (self_current_offset s) (int n) of
           Inl e \<Rightarrow> (Inl e, s)
         | Inr v \<Rightarrow> (Inr (), s\<lparr>self_current_offset := v\<rparr>))
      else (Inr (), s\<lparr>self_current_offset := PInt 0\<rparr>))"

definition batch_result :: "file_metadata list \<Rightarrow> bool \<Rightarrow> 'w state \<Rightarrow> scan_result" where
  "batch_result file_dicts is_completed' s =
     \<lparr>files = file_dicts,
      is_completed = is_completed',
      stats =
        \<lparr>files_count = length file_dicts,
         last_scan_batch_at = clock s,
         scan_started_at = self_scan_started_at s,
         scan_completed_at = Some (clock s),
         api_calls_made = self_api_calls_count s,
         api_errors_encountered = self_api_errors_count s\<rparr>,
      updated_credentials = PNone,
      error = None\<rparr>"

definition after_walk ::
  "'w env \<Rightarrow> file_metadata list \<times> bool \<Rightarrow> 'w state \<Rightarrow> (exn + scan_result) \<times> 'w state" where
  "after_walk env r =
     bindS (\<lambda>s. (Inr (), s\<lparr>self_processed_files_count :=
                      self_processed_files_count s + int (length (fst r))\<rparr>)) (\<lambda>_.
     bindS (advance_offset (length (fst r)) (snd r)) (\<lambda>_.
     bindS (save_scan_state env) (\<lambda>_ s.
       (Inr (batch_result (fst r) (\<not> snd r) s), s))))"

definition scan_failed :: "'w env \<Rightarrow> string \<Rightarrow> exn \<Rightarrow> 'w state \<Rightarrow> (exn + scan_result) \<times> 'w state" where
  "scan_failed env prefix e =
     bindS (\<lambda>s. if self_box_client s \<noteq> None then save_scan_state env s else (Inr (), s)) (\<lambda>_ s.
       (Inr (create_error_result [Lit prefix, StrExc e] (self_scan_started_at s) s), s))"

text \<open>\<^verbatim>\<open>_full_scan\<close>.\<close>

definition full_scan :: "'w env \<Rightarrow> pyval \<Rightarrow> 'w state \<Rightarrow> (exn + scan_result) \<times> 'w state" where
  "full_scan env data_source =
     bindS (liftE (py_get data_source ''id'' PNone)) (\<lambda>datasource_id.
     bindS reset_counters (\<lambda>_.
       try_except
         (bindS (liftE (root_folder_id_of data_source)) (\<lambda>root_folder_id.
          bindS read_cursor_offset (\<lambda>_.
          bindS (\<lambda>s. scan_folder env root_folder_id (self_current_offset s) MAX_BATCH_SIZE s)
            (after_walk env))))
         (scan_failed env ''Error in full scan of Box: '')))"

text \<open>\<^verbatim>\<open>_incremental_scan\<close>: the reference timestamp is found before the \<^verbatim>\<open>try\<close>.\<close>

definition scan_from_of :: "'w env \<Rightarrow> pyval \<Rightarrow> 'w state \<Rightarrow> (exn + pyval) \<times> 'w state" where
  "scan_from_of env data_source =
     bindS (\<lambda>s. (py_get (order s) ''scanned_from'' PNone, s)) (\<lambda>scan_from.
       if truthy scan_from then liftE (Inr scan_from)
       else
         bindS (liftE (py_get data_source ''id'' PNone)) (\<lambda>source_id.
         bindS (call_ext (get_last_completed_scan_timestamp env source_id)) (\<lambda>scan_from'.
           if truthy scan_from' then liftE (Inr scan_from')
           else liftE (Inr (PStr ''1970-01-01T00:00:00Z'')))))"

definition incremental_scan :: "'w env \<Rightarrow> pyval \<Rightarrow> 'w state \<Rightarrow> (exn + scan_result) \<times> 'w state" where
  "incremental_scan env data_source =
     bindS (liftE (py_get data_source ''id'' PNone)) (\<lambda>datasource_id.
     bindS reset_counters (\<lambda>_.
     bindS (scan_from_of env data_source) (\<lambda>scan_from.
       try_except
         (bindS (liftE (format_to_rfc3339_box env scan_from)) (\<lambda>scan_from_str.
          bindS (liftE (root_folder_id_of data_source)) (\<lambda>root_folder_id.
          bindS read_cursor_offset (\<lambda>_.
          bindS (\<lambda>s. scan_folder_incremental env root_folder_id (replace_000Z scan_from_str)
                        (self_current_offset s) MAX_BATCH_SIZE s)
            (after_walk env)))))
         (scan_failed env ''Error in incremental scan of Box: ''))))"

text \<open>
  \<^verbatim>\<open>scan\<close>, the entry point. \<open>order\<close> is bound to the caller's \<^verbatim>\<open>scan_order\<close>. The
  result is \<open>Inl\<close> when an exception leaves the function.
\<close>

definition choose_scan :: "'w env \<Rightarrow> pyval \<Rightarrow> pyval \<Rightarrow> 'w state \<Rightarrow> (exn + scan_result) \<times> 'w state" where
  "choose_scan env data_source updated_credentials' =
     bindS (\<lambda>s. (py_get (order s) ''scan_metadata'' (PDict []), s)) (\<lambda>scan_metadata.
     bindS (liftE (py_get scan_metadata ''cursor'' (PDict []))) (\<lambda>cursor_data.
     bindS (if truthy cursor_data then restore_scan_state cursor_data
            else initialize_scan_state data_source) (\<lambda>_.
     bindS (\<lambda>s. (py_get (order s) ''scan_type'' PNone, s)) (\<lambda>scan_type.
     bindS (if scan_type = PStr ''incremental'' then incremental_scan env data_source
            else full_scan env data_source) (\<lambda>result.
       liftE (Inr (if truthy updated_credentials'
                   then result\<lparr>updated_credentials := updated_credentials'\<rparr>
                   else result)))))))"

definition scan :: "'w env \<Rightarrow> pyval \<Rightarrow> pyval \<Rightarrow> 'w state \<Rightarrow> (exn + scan_result) \<times> 'w state" where
  "scan env data_source scan_order s0 =
     (bindS (liftE (py_get data_source ''id'' PNone)) (\<lambda>source_id.
      bindS reset_counters (\<lambda>_.
        try_except
          (bindS (authenticate env data_source) (\<lambda>auth_result.
             case auth_result of
               None \<Rightarrow>
                 (\<lambda>s. (Inr (create_error_result [Lit ''Failed to authenticate with Box'']
                              (self_scan_started_at s) s), s))
             | Some (AuthResult service credentials) \<Rightarrow>
                 bindS (\<lambda>s. (Inr (), s\<lparr>self_box_client := service\<rparr>)) (\<lambda>_.
                   if service = None then
                     (\<lambda>s. (Inr (create_error_result [Lit ''Failed to initialize Box client'']
                                  (self_scan_started_at s) s), s))
                   else choose_scan env data_source credentials)))
          (scan_failed env ''Error scanning Box: ''))))
       (s0\<lparr>order := scan_order\<rparr>)"

section \<open>Example collaborators\<close>

text \<open>
  Collaborators for the closed instances below: the world is a counter of the requests
  made, the retry delay is one second, no authentication handler is registered,
  persistence succeeds and changes nothing, no earlier scan is recorded.
\<close>

definition example_env :: "nat env" where
  "example_env =
     \<lparr>RETRY_DELAY = 1,
      get_auth_handler = (\<lambda>_. None),
      update_scan_metadata = (\<lambda>_ _ w. (Inr (), w)),
      get_last_completed_scan_timestamp = (\<lambda>_ w. (Inr PNone, w)),
      format_to_rfc3339_box = (\<lambda>_. Inr [])\<rparr>"

text \<open>A client that answers every request with the same body and counts the requests.\<close>

definition example_client :: "pyval \<Rightarrow> nat client" where
  "example_client body = (\<lambda>search_params w. (Inr (Response True (Inr body)), w + 1))"

text \<open>The example collaborators with an authentication handler that returns the given
  client and credentials.\<close>

definition example_auth :: "nat client \<Rightarrow> pyval \<Rightarrow> nat env" where
  "example_auth client credentials =
     example_env\<lparr>get_auth_handler :=
       (\<lambda>auth_type. Some (\<lambda>data_source w.
          (Inr (Some (AuthResult (Some client) credentials)), w)))\<rparr>"

text \<open>A client whose every request raises an API error with the given status.\<close>

definition example_failing_client :: "int \<Rightarrow> nat client" where
  "example_failing_client status =
     (\<lambda>search_params w. (Inl (BoxAPIException status), w + 1))"

section \<open>Vocabulary of the proofs\<close>

text \<open>
  \<open>preserves g m\<close>: the statement \<open>m\<close> leaves the view \<open>g\<close> of the state as it
  was. \<open>kept\<close> is the view the folder walks leave alone: the scan order, whether a
  client is set, the current offset, the persistence calls and the start time.
\<close>


definition preserves :: "('s \<Rightarrow> 'v) \<Rightarrow> ('s \<Rightarrow> 'a \<times> 's) \<Rightarrow> bool" where
  "preserves g m = (\<forall>s. g (snd (m s)) = g s)"

definition kept :: "'w state \<Rightarrow> pyval \<times> bool \<times> pyval \<times> (pyval \<times> pyval) list \<times> real option" where
  "kept s = (order s, self_box_client s \<noteq> None, self_current_offset s, persist_calls s, self_scan_started_at s)"

text \<open>\<open>kept_by_save\<close> is the view \<^verbatim>\<open>_save_scan_state\<close> leaves alone.\<close>

definition kept_by_save ::
  "'w state \<Rightarrow> pyval \<times> bool \<times> real option \<times> real \<times> int \<times> int" where
  "kept_by_save s =
     (self_current_offset s, self_box_client s \<noteq> None, self_scan_started_at s, clock s,
      self_api_calls_count s, self_api_errors_count s)"

text \<open>
  \<open>writable\<close>: a scan order \<^verbatim>\<open>_save_scan_state\<close> can write the cursor into, a
  dictionary with an \<^verbatim>\<open>id\<close> whose \<^verbatim>\<open>scan_metadata\<close> is absent or a dictionary.
  \<open>persists\<close>: the persistence collaborator never raises.
\<close>

fun writable :: "pyval \<Rightarrow> bool" where
  "writable (PDict so) =
     (map_of so ''id'' \<noteq> None \<and>
      (case map_of so ''scan_metadata'' of
         None \<Rightarrow> True
       | Some (PDict sm) \<Rightarrow> True
       | Some _ \<Rightarrow> False))"
| "writable _ = False"

definition persists :: "'w env \<Rightarrow> bool" where
  "persists env = (\<forall>i b w. fst (update_scan_metadata env i b w) = Inr ())"

text \<open>
  \<open>ensures P m Q E\<close>: started in a state with \<open>P\<close>, the statement \<open>m\<close> ends with
  \<open>Q\<close> of its value and state when it returns and with \<open>E\<close> of its state when it
  raises. \<open>ready\<close>: the scan order is writable and a client is set.
  \<open>persisted_offset\<close>: the offset in the cursor of the last persistence call.
  \<open>cursor_saved\<close>: the cursor in the scan order and the last persisted cursor both
  hold the current offset. \<open>well_shaped\<close>: a result has no completion time exactly
  when it has an error, and a result with an error is not completed and has no files.
\<close>


definition ensures ::
  "('s \<Rightarrow> bool) \<Rightarrow> ('s \<Rightarrow> (exn + 'a) \<times> 's) \<Rightarrow> ('a \<Rightarrow> 's \<Rightarrow> bool) \<Rightarrow> ('s \<Rightarrow> bool) \<Rightarrow> bool" where
  "ensures P m Q E =
     (\<forall>s. P s \<longrightarrow> (case m s of (Inl e, s') \<Rightarrow> E s' | (Inr x, s') \<Rightarrow> Q x s'))"

definition ready :: "'w state \<Rightarrow> bool" where
  "ready s = (writable (order s) \<and> self_box_client s \<noteq> None)"

definition persisted_offset :: "'w state \<Rightarrow> exn + pyval" where
  "persisted_offset s =
     (if persist_calls s = [] then Inl KeyError
      else bindE (py_getitem (snd (last (persist_calls s))) ''cursor'')
             (\<lambda>cursor. py_getitem cursor ''current_offset''))"

definition cursor_saved :: "'w state \<Rightarrow> bool" where
  "cursor_saved s =
     (cursor_offset_of (order s) = Inr (self_current_offset s)
      \<and> persisted_offset s = Inr (self_current_offset s))"

definition well_shaped :: "scan_result \<Rightarrow> bool" where
  "well_shaped res =
     ((scan_completed_at (stats res) = None) = (error res \<noteq> None)
      \<and> (if error res \<noteq> None then \<not> is_completed res \<and> files res = [] else True))"

text \<open>\<open>resumed k\<close>: ready, with the current offset and the cursor of the scan order
  both at \<open>k\<close>.\<close>

definition resumed :: "int \<Rightarrow> 'w state \<Rightarrow> bool" where
  "resumed k s =
     (ready s \<and> self_current_offset s = PInt k \<and> cursor_offset_of (order s) = Inr (PInt k))"

section \<open>Facts about the helpers\<close>

lemma bindE_cong:
  "m = m' \<Longrightarrow> (\<And>x. m' = Inr x \<Longrightarrow> f x = f' x) \<Longrightarrow> bindE m f = bindE m' f'"
  by (cases m') (simp_all add: bindE_def)

lemma bindE_simps [simp]:
  "bindE (Inl e) f = Inl e"
  "bindE (Inr x) f = f x"
  by (simp_all add: bindE_def)

section \<open>Splitting a file name\<close>







section \<open>MIME type from the file name\<close>




section \<open>Folder path\<close>

lemma str_items_PStr: "str_items (map PStr ss) = Inr ss"
  by (induction ss) simp_all

lemma folder_names_of_wellformed:
  assumes "list_all2 (\<lambda>e x. \<exists>kvs. e = PDict kvs
                            \<and> (case map_of kvs ''id'' of Some v \<Rightarrow> v | None \<Rightarrow> PNone) = fst x
                            \<and> map_of kvs ''name'' = Some (PStr (snd x))) es xs"
  shows "folder_names_of es =
           Inr (map (\<lambda>x. PStr (snd x))
                  (filter (\<lambda>x. \<not> (fst x = PStr ''0'' \<and> snd x = ''All Files'') \<and> snd x \<noteq> []) xs))"
  using assms by (induction rule: list_all2_induct) auto

lemma slash_join:
  "ss \<noteq> [] \<Longrightarrow> ''/'' @ join ''/'' ss = concat (map (\<lambda>n. CHR ''/'' # n) ss)"
  by (induction "''/''" ss rule: join.induct) simp_all

lemma root_only_first:
  assumes "(PStr ''0'', ''All Files'') \<notin> set (tl xs)"
  shows "filter (\<lambda>x. \<not> (fst x = PStr ''0'' \<and> snd x = ''All Files'') \<and> snd x \<noteq> []) xs =
         filter (\<lambda>x. snd x \<noteq> [])
           (if xs \<noteq> [] \<and> hd xs = (PStr ''0'', ''All Files'') then tl xs else xs)"
proof -
  have rest: "filter (\<lambda>x. \<not> (fst x = PStr ''0'' \<and> snd x = ''All Files'') \<and> snd x \<noteq> []) ys =
              filter (\<lambda>x. snd x \<noteq> []) ys"
    if "(PStr ''0'', ''All Files'') \<notin> set ys" for ys :: "(pyval \<times> string) list"
    using that by (intro filter_cong refl) (auto simp: prod_eq_iff)
  show ?thesis
  proof (cases xs)
    case Nil
    then show ?thesis by simp
  next
    case (Cons x ys)
    with assms have ys: "(PStr ''0'', ''All Files'') \<notin> set ys" by simp
    show ?thesis
    proof (cases "x = (PStr ''0'', ''All Files'')")
      case True
      with Cons rest [OF ys] show ?thesis by simp
    next
      case False
      with ys have "(PStr ''0'', ''All Files'') \<notin> set (x # ys)" by simp
      from rest [OF this] Cons False show ?thesis by simp
    qed
  qed
qed

text \<open>
  Claim C8, as amended. For a path collection whose entries are dictionaries with a
  string name, and in which the entry with id \<^verbatim>\<open>"0"\<close> and name \<^verbatim>\<open>"All Files"\<close> does not
  occur after the first entry: that entry is left out when it is the first one, entries
  with an empty name are skipped, and \<open>build_folder_path\<close> is every remaining name in
  order, each after one \<^verbatim>\<open>/\<close>; it is \<^verbatim>\<open>/\<close> when no name remains. A falsy path
  collection (\<^verbatim>\<open>None\<close> and the empty dictionary among them), and one whose \<^verbatim>\<open>entries\<close>
  are missing or falsy, give \<^verbatim>\<open>/\<close>. The two examples of the specification are the last
  conjuncts.
\<close>

theorem build_folder_path_spec:
  "(map_of pc ''entries'' = Some (PList es)
      \<and> list_all2 (\<lambda>e x. \<exists>kvs. e = PDict kvs
                            \<and> (case map_of kvs ''id'' of Some v \<Rightarrow> v | None \<Rightarrow> PNone) = fst x
                            \<and> map_of kvs ''name'' = Some (PStr (snd x))) es xs
      \<and> (PStr ''0'', ''All Files'') \<notin> set (tl xs)
    \<longrightarrow> build_folder_path (PDict pc) =
          Inr (let names = filter (\<lambda>n. n \<noteq> [])
                             (map snd (if xs \<noteq> [] \<and> hd xs = (PStr ''0'', ''All Files'')
                                       then tl xs else xs))
               in if names = [] then ''/'' else concat (map (\<lambda>n. CHR ''/'' # n) names)))
   \<and> (\<not> truthy path_collection \<longrightarrow> build_folder_path path_collection = Inr ''/'')
   \<and> (\<not> truthy (case map_of pc ''entries'' of Some v \<Rightarrow> v | None \<Rightarrow> PNone)
      \<longrightarrow> build_folder_path (PDict pc) = Inr ''/'')
   \<and> build_folder_path PNone = Inr ''/''
   \<and> build_folder_path (PDict []) = Inr ''/''
   \<and> build_folder_path (PDict [(''entries'', PList [])]) = Inr ''/''
   \<and> build_folder_path
         (PDict [(''entries'',
            PList [PDict [(''id'', PStr ''0''), (''name'', PStr ''All Files'')],
                   PDict [(''id'', PStr ''5''), (''name'', PStr ''Reports'')]])]) = Inr ''/Reports''"
proof -
  have general: "build_folder_path (PDict pc) =
          Inr (let names = filter (\<lambda>n. n \<noteq> [])
                             (map snd (if xs \<noteq> [] \<and> hd xs = (PStr ''0'', ''All Files'')
                                       then tl xs else xs))
               in if names = [] then ''/'' else concat (map (\<lambda>n. CHR ''/'' # n) names))"
    if pc: "map_of pc ''entries'' = Some (PList es)"
    and wf: "list_all2 (\<lambda>e x. \<exists>kvs. e = PDict kvs
                            \<and> (case map_of kvs ''id'' of Some v \<Rightarrow> v | None \<Rightarrow> PNone) = fst x
                            \<and> map_of kvs ''name'' = Some (PStr (snd x))) es xs"
    and root: "(PStr ''0'', ''All Files'') \<notin> set (tl xs)"
  proof -
    let ?xs' = "if xs \<noteq> [] \<and> hd xs = (PStr ''0'', ''All Files'') then tl xs else xs"
    let ?kept = "filter (\<lambda>x. snd x \<noteq> []) ?xs'"
    let ?names = "filter (\<lambda>n. n \<noteq> []) (map snd ?xs')"
    have nm: "?names = map snd ?kept" by (simp only: filter_map comp_def)
    have names: "folder_names_of es = Inr (map (\<lambda>x. PStr (snd x)) ?kept)"
      using folder_names_of_wellformed [OF wf] root_only_first [OF root] by simp
    have strs: "str_items (map (\<lambda>x. PStr (snd x)) ?kept) = Inr ?names"
      using str_items_PStr [of "map snd ?kept"] nm by (simp add: comp_def)
    from pc have ne: "pc \<noteq> []" by auto
    have "build_folder_path (PDict pc) =
            Inr (if ?names = [] then ''/'' else concat (map (\<lambda>n. CHR ''/'' # n) ?names))"
    proof (cases "es = []")
      case True
      with wf have "xs = []" by simp
      with True pc ne show ?thesis by (simp add: build_folder_path_def)
    next
      case False
      show ?thesis
      proof (cases "?kept = []")
        case True
        with nm have "?names = []" by simp
        with pc ne names True False show ?thesis
          by (simp add: build_folder_path_def del: filter_False)
      next
        case kept: False
        with nm have n: "?names \<noteq> []" by simp
        from pc ne names strs kept False
        have "build_folder_path (PDict pc) = Inr (''/'' @ join ''/'' ?names)"
          by (simp add: build_folder_path_def)
        with n slash_join [OF n] show ?thesis by simp
      qed
    qed
    then show ?thesis by (simp only: Let_def)
  qed
  have falsy: "build_folder_path path_collection = Inr ''/''" if "\<not> truthy path_collection"
    using that by (simp add: build_folder_path_def)
  have no_entries: "build_folder_path (PDict pc) = Inr ''/''"
    if "\<not> truthy (case map_of pc ''entries'' of Some v \<Rightarrow> v | None \<Rightarrow> PNone)"
    using that by (simp add: build_folder_path_def)
  have empties: "build_folder_path PNone = Inr ''/''" "build_folder_path (PDict []) = Inr ''/''"
    "build_folder_path (PDict [(''entries'', PList [])]) = Inr ''/''"
    by (simp_all add: build_folder_path_def)
  have ex: "build_folder_path
         (PDict [(''entries'',
            PList [PDict [(''id'', PStr ''0''), (''name'', PStr ''All Files'')],
                   PDict [(''id'', PStr ''5''), (''name'', PStr ''Reports'')]])]) = Inr ''/Reports''"
    by (simp add: build_folder_path_def)
  from general falsy no_entries empties ex show ?thesis by blast
qed

theorem build_folder_path_spec_witness:
  "build_folder_path
     (PDict [(''total_count'', PInt 3),
             (''entries'',
                PList [PDict [(''type'', PStr ''folder''), (''id'', PStr ''0''), (''name'', PStr ''All Files'')],
                       PDict [(''type'', PStr ''folder''), (''id'', PStr ''7''), (''name'', PStr ''Projects'')],
                       PDict [(''type'', PStr ''folder''), (''id'', PStr ''8''), (''name'', PStr [])],
                       PDict [(''type'', PStr ''folder''), (''id'', PStr ''9''), (''name'', PStr ''Q3'')]])])
   = Inr ''/Projects/Q3''
   \<and> build_folder_path (PList []) = Inr ''/''
   \<and> build_folder_path (PDict [(''total_count'', PInt 0)]) = Inr ''/''"
proof -
  have a: "build_folder_path
     (PDict [(''total_count'', PInt 3),
             (''entries'',
                PList [PDict [(''type'', PStr ''folder''), (''id'', PStr ''0''), (''name'', PStr ''All Files'')],
                       PDict [(''type'', PStr ''folder''), (''id'', PStr ''7''), (''name'', PStr ''Projects'')],
                       PDict [(''type'', PStr ''folder''), (''id'', PStr ''8''), (''name'', PStr [])],
                       PDict [(''type'', PStr ''folder''), (''id'', PStr ''9''), (''name'', PStr ''Q3'')]])])
   = Inr ''/Projects/Q3''"
    using build_folder_path_spec
      [where pc = "[(''total_count'', PInt 3),
             (''entries'',
                PList [PDict [(''type'', PStr ''folder''), (''id'', PStr ''0''), (''name'', PStr ''All Files'')],
                       PDict [(''type'', PStr ''folder''), (''id'', PStr ''7''), (''name'', PStr ''Projects'')],
                       PDict [(''type'', PStr ''folder''), (''id'', PStr ''8''), (''name'', PStr [])],
                       PDict [(''type'', PStr ''folder''), (''id'', PStr ''9''), (''name'', PStr ''Q3'')]])]"
        and es = "[PDict [(''type'', PStr ''folder''), (''id'', PStr ''0''), (''name'', PStr ''All Files'')],
                       PDict [(''type'', PStr ''folder''), (''id'', PStr ''7''), (''name'', PStr ''Projects'')],
                       PDict [(''type'', PStr ''folder''), (''id'', PStr ''8''), (''name'', PStr [])],
                       PDict [(''type'', PStr ''folder''), (''id'', PStr ''9''), (''name'', PStr ''Q3'')]]"
        and xs = "[(PStr ''0'', ''All Files''), (PStr ''7'', ''Projects''), (PStr ''8'', []), (PStr ''9'', ''Q3'')]"]
    by simp
  have b: "build_folder_path (PList []) = Inr ''/''"
    using build_folder_path_spec [where path_collection = "PList []"] by simp
  have c: "build_folder_path (PDict [(''total_count'', PInt 0)]) = Inr ''/''"
    using build_folder_path_spec [where pc = "[(''total_count'', PInt 0)]"] by simp
  from a b c show ?thesis by blast
qed

text \<open>
  The claim C8 as stated fails: the names \<^verbatim>\<open>A\<close>, the empty name and \<^verbatim>\<open>B\<close> joined with
  \<^verbatim>\<open>/\<close> separators after the leading \<^verbatim>\<open>/\<close> are \<^verbatim>\<open>/A//B\<close>, and \<open>build_folder_path\<close>
  returns \<^verbatim>\<open>/A/B\<close>: the guard \<^verbatim>\<open>if folder_name:\<close> skips the entry.
\<close>

theorem empty_name_is_skipped:
  "build_folder_path
     (PDict [(''entries'',
        PList [PDict [(''id'', PStr ''5''), (''name'', PStr ''A'')],
               PDict [(''id'', PStr ''6''), (''name'', PStr [])],
               PDict [(''id'', PStr ''7''), (''name'', PStr ''B'')]])]) = Inr ''/A/B''
   \<and> ''/A/B'' \<noteq> ''/'' @ ''A'' @ ''/'' @ [] @ ''/'' @ ''B''"
  by (simp add: build_folder_path_def)

section \<open>The retry executor: facts\<close>

lemma upt4: "[0..<MAX_RETRIES + 1] = [0, 1, 2, 3]"
  by (simp add: MAX_RETRIES_def upt_rec)

lemma call_ext_eq: "call_ext f s = (fst (f (ext s)), s\<lparr>ext := snd (f (ext s))\<rparr>)"
  by (simp add: call_ext_def split: prod.split)

lemma attempt_0: "attempt env f 0 s = call_ext f s"
  by (simp add: attempt_def)

lemma attempt_pos:
  "0 < retry \<Longrightarrow> 0 \<le> RETRY_DELAY env \<Longrightarrow>
   attempt env f retry s =
     call_ext f (s\<lparr>clock := clock s + RETRY_DELAY env * 2 ^ (retry - 1),
                    sleeps := sleeps s @ [RETRY_DELAY env * 2 ^ (retry - 1)]\<rparr>)"
proof -
  assume "0 < retry" and "0 \<le> RETRY_DELAY env"
  then have "\<not> RETRY_DELAY env * 2 ^ (retry - 1) < 0"
    by (simp add: not_less)
  with \<open>0 < retry\<close> show ?thesis
    by (simp add: attempt_def bindS_def sleep_def)
qed

lemma retry_loop_success:
  "attempt env f retry s = (Inr r, s') \<Longrightarrow> retry_loop env f (retry # rest) s = (Inr (Some r), s')"
  by simp

lemma retry_loop_api_fatal:
  "attempt env f retry s = (Inl (BoxAPIException st), s') \<Longrightarrow> st \<noteq> 429 \<Longrightarrow> \<not> (500 \<le> st \<and> st < 600) \<Longrightarrow>
   retry_loop env f (retry # rest) s = (Inl (BoxAPIException st), s')"
  by auto

text \<open>
  Claim C4. With a non-negative retry delay: a request that raises an API error with
  status 429 on its first two calls and returns on the third makes the executor return
  that response after exactly two sleeps, of \<open>RETRY_DELAY * 2 ^ (retry - 1)\<close> seconds
  for \<open>retry = 1, 2\<close>; a request that raises an API error with status 429 or 5xx on
  each of its first four calls makes the executor raise the fourth error, after the
  first attempt and \<open>MAX_RETRIES = 3\<close> more, with three sleeps.
\<close>

theorem retry_transient:
  assumes delay: "0 \<le> RETRY_DELAY env"
  shows
  "(fst (f (ext s)) = Inl (BoxAPIException 429)
      \<and> fst (f (snd (f (ext s)))) = Inl (BoxAPIException 429)
      \<and> fst (f (snd (f (snd (f (ext s)))))) = Inr r
    \<longrightarrow> execute_with_retry env f s =
          (Inr (Some r),
           s\<lparr>clock := clock s + RETRY_DELAY env * 2 ^ (1 - 1) + RETRY_DELAY env * 2 ^ (2 - 1),
              sleeps := sleeps s @ [RETRY_DELAY env * 2 ^ (1 - 1), RETRY_DELAY env * 2 ^ (2 - 1)],
              ext := snd (f (snd (f (snd (f (ext s))))))\<rparr>))
   \<and> ((\<forall>i<4. \<exists>st. fst (f (((\<lambda>w. snd (f w)) ^^ i) (ext s))) = Inl (BoxAPIException st)
                  \<and> (st = 429 \<or> (500 \<le> st \<and> st < 600)))
    \<longrightarrow> (\<exists>e. fst (f (((\<lambda>w. snd (f w)) ^^ 3) (ext s))) = Inl e \<and>
         execute_with_retry env f s =
          (Inl e,
           s\<lparr>clock := clock s + RETRY_DELAY env * 2 ^ (1 - 1) + RETRY_DELAY env * 2 ^ (2 - 1)
                        + RETRY_DELAY env * 2 ^ (3 - 1),
              sleeps := sleeps s @ [RETRY_DELAY env * 2 ^ (1 - 1), RETRY_DELAY env * 2 ^ (2 - 1),
                                   RETRY_DELAY env * 2 ^ (3 - 1)],
              ext := ((\<lambda>w. snd (f w)) ^^ 4) (ext s)\<rparr>)))"
proof (intro conjI impI)
  assume h: "fst (f (ext s)) = Inl (BoxAPIException 429)
      \<and> fst (f (snd (f (ext s)))) = Inl (BoxAPIException 429)
      \<and> fst (f (snd (f (snd (f (ext s)))))) = Inr r"
  show "execute_with_retry env f s =
          (Inr (Some r),
           s\<lparr>clock := clock s + RETRY_DELAY env * 2 ^ (1 - 1) + RETRY_DELAY env * 2 ^ (2 - 1),
              sleeps := sleeps s @ [RETRY_DELAY env * 2 ^ (1 - 1), RETRY_DELAY env * 2 ^ (2 - 1)],
              ext := snd (f (snd (f (snd (f (ext s))))))\<rparr>)"
    unfolding execute_with_retry_def upt4 using h delay
    by (simp add: attempt_0 attempt_pos call_ext_eq MAX_RETRIES_def)
next
  assume h: "\<forall>i<4. \<exists>st. fst (f (((\<lambda>w. snd (f w)) ^^ i) (ext s))) = Inl (BoxAPIException st)
                  \<and> (st = 429 \<or> (500 \<le> st \<and> st < 600))"
  let ?W = "\<lambda>i. ((\<lambda>w. snd (f w)) ^^ i) (ext s)"
  from h obtain s0 where 0: "fst (f (?W 0)) = Inl (BoxAPIException s0)" "s0 = 429 \<or> (500 \<le> s0 \<and> s0 < 600)"
    by (metis zero_less_numeral)
  from h obtain s1 where 1: "fst (f (?W 1)) = Inl (BoxAPIException s1)" "s1 = 429 \<or> (500 \<le> s1 \<and> s1 < 600)"
    by (metis one_less_numeral_iff semiring_norm(76))
  from h have "\<exists>st. fst (f (?W 2)) = Inl (BoxAPIException st) \<and> (st = 429 \<or> (500 \<le> st \<and> st < 600))"
    by simp
  then obtain s2 where 2: "fst (f (?W 2)) = Inl (BoxAPIException s2)" "s2 = 429 \<or> (500 \<le> s2 \<and> s2 < 600)"
    by blast
  from h have "\<exists>st. fst (f (?W 3)) = Inl (BoxAPIException st) \<and> (st = 429 \<or> (500 \<le> st \<and> st < 600))"
    by simp
  then obtain s3 where 3: "fst (f (?W 3)) = Inl (BoxAPIException s3)" "s3 = 429 \<or> (500 \<le> s3 \<and> s3 < 600)"
    by blast
  have n: "(3::nat) = Suc (Suc (Suc 0))" "(4::nat) = Suc (Suc (Suc (Suc 0)))" "(2::nat) = Suc (Suc 0)" by simp_all
  show "\<exists>e. fst (f (?W 3)) = Inl e \<and> execute_with_retry env f s =
          (Inl e,
           s\<lparr>clock := clock s + RETRY_DELAY env * 2 ^ (1 - 1) + RETRY_DELAY env * 2 ^ (2 - 1)
                        + RETRY_DELAY env * 2 ^ (3 - 1),
              sleeps := sleeps s @ [RETRY_DELAY env * 2 ^ (1 - 1), RETRY_DELAY env * 2 ^ (2 - 1),
                                   RETRY_DELAY env * 2 ^ (3 - 1)],
              ext := ?W 4\<rparr>)"
    unfolding execute_with_retry_def upt4 using 0 1 2 3 delay
    by (simp add: attempt_0 attempt_pos call_ext_eq MAX_RETRIES_def n)
qed

theorem retry_transient_witness:
  "0 \<le> RETRY_DELAY example_env
   \<and> execute_with_retry example_env
        (\<lambda>w. (if w < 2 then Inl (BoxAPIException 429) else Inr w, w + 1)) (init 0 0)
      = (Inr (Some 2), (init 0 0)\<lparr>clock := 3, sleeps := [1, 2], ext := 3\<rparr>)
   \<and> execute_with_retry example_env
        (\<lambda>w. (Inl (BoxAPIException 503) :: exn + nat, w + 1)) (init 0 0)
      = (Inl (BoxAPIException 503), (init 0 0)\<lparr>clock := 7, sleeps := [1, 2, 4], ext := 4\<rparr>)"
proof -
  have d: "0 \<le> RETRY_DELAY example_env"
    by (simp add: example_env_def)
  have w4: "(\<forall>i<4. P i) = (P 0 \<and> P 1 \<and> P 2 \<and> P (3::nat))" for P
    by (auto simp: less_Suc_eq numeral_eq_Suc)
  have n: "(3::nat) = Suc (Suc (Suc 0))" "(4::nat) = Suc (Suc (Suc (Suc 0)))" "(2::nat) = Suc (Suc 0)"
    by simp_all
  have a: "execute_with_retry example_env
        (\<lambda>w. (if w < 2 then Inl (BoxAPIException 429) else Inr w, w + 1)) (init 0 0)
      = (Inr (Some 2), (init 0 0)\<lparr>clock := 3, sleeps := [1, 2], ext := 3\<rparr>)"
    using retry_transient [OF d, of "\<lambda>w. (if w < 2 then Inl (BoxAPIException 429) else Inr w, w + 1)"
        "init 0 0" 2]
    by (simp add: init_def example_env_def)
  have b: "execute_with_retry example_env
        (\<lambda>w. (Inl (BoxAPIException 503) :: exn + nat, w + 1)) (init 0 0)
      = (Inl (BoxAPIException 503), (init 0 0)\<lparr>clock := 7, sleeps := [1, 2, 4], ext := 4\<rparr>)"
    using retry_transient [OF d, of "\<lambda>w. (Inl (BoxAPIException 503) :: exn + nat, w + 1)"
        "init 0 0"]
    by (simp add: init_def example_env_def w4 n)
  from d a b show ?thesis by blast
qed

lemma retry_loop_retried:
  assumes "attempt env f retry s = (Inl e, s')"
    and "(\<forall>st. e \<noteq> BoxAPIException st)
         \<or> (\<exists>st. e = BoxAPIException st \<and> (st = 429 \<or> (500 \<le> st \<and> st < 600)))"
    and "retry \<noteq> MAX_RETRIES"
  shows "retry_loop env f (retry # rest) s = retry_loop env f rest s'"
  using assms by (cases e) auto

lemma retry_loop_last:
  assumes "attempt env f retry s = (Inl e, s')" and "retry = MAX_RETRIES"
  shows "retry_loop env f (retry # rest) s = (Inl e, s')"
  using assms by (cases e) auto

lemma attempt_after:
  assumes delay: "0 \<le> RETRY_DELAY env"
  shows "attempt env f k
           (s\<lparr>clock := clock s + sum_list (map (\<lambda>i. RETRY_DELAY env * 2 ^ (i - 1)) [1..<k]),
              sleeps := sleeps s @ map (\<lambda>i. RETRY_DELAY env * 2 ^ (i - 1)) [1..<k],
              ext := w\<rparr>) =
         (fst (f w),
          s\<lparr>clock := clock s + sum_list (map (\<lambda>i. RETRY_DELAY env * 2 ^ (i - 1)) [1..<Suc k]),
            sleeps := sleeps s @ map (\<lambda>i. RETRY_DELAY env * 2 ^ (i - 1)) [1..<Suc k],
            ext := snd (f w)\<rparr>)"
proof (cases "k = 0")
  case True
  then show ?thesis by (simp add: attempt_0 call_ext_eq)
next
  case False
  then have p: "0 < k" by simp
  then have u: "[1..<Suc k] = [1..<k] @ [k]" by simp
  show ?thesis
    unfolding u by (simp add: attempt_pos [OF p delay] call_ext_eq add.assoc)
qed

lemma retry_prefix:
  assumes delay: "0 \<le> RETRY_DELAY env" and n: "n \<le> MAX_RETRIES"
    and retried: "\<forall>i<n. \<exists>e. fst (f (((\<lambda>w. snd (f w)) ^^ i) (ext s))) = Inl e
           \<and> ((\<forall>st. e \<noteq> BoxAPIException st)
              \<or> (\<exists>st. e = BoxAPIException st \<and> (st = 429 \<or> (500 \<le> st \<and> st < 600))))"
  shows "k \<le> n \<Longrightarrow>
         retry_loop env f [0..<MAX_RETRIES + 1] s =
         retry_loop env f [k..<MAX_RETRIES + 1]
           (s\<lparr>clock := clock s + sum_list (map (\<lambda>i. RETRY_DELAY env * 2 ^ (i - 1)) [1..<k]),
              sleeps := sleeps s @ map (\<lambda>i. RETRY_DELAY env * 2 ^ (i - 1)) [1..<k],
              ext := ((\<lambda>w. snd (f w)) ^^ k) (ext s)\<rparr>)"
proof (induction k)
  case 0
  show ?case by simp
next
  case (Suc k)
  then have k: "k < n" and IH: "retry_loop env f [0..<MAX_RETRIES + 1] s =
         retry_loop env f [k..<MAX_RETRIES + 1]
           (s\<lparr>clock := clock s + sum_list (map (\<lambda>i. RETRY_DELAY env * 2 ^ (i - 1)) [1..<k]),
              sleeps := sleeps s @ map (\<lambda>i. RETRY_DELAY env * 2 ^ (i - 1)) [1..<k],
              ext := ((\<lambda>w. snd (f w)) ^^ k) (ext s)\<rparr>)"
    by simp_all
  from retried k obtain e where e: "fst (f (((\<lambda>w. snd (f w)) ^^ k) (ext s))) = Inl e"
    and cls: "(\<forall>st. e \<noteq> BoxAPIException st)
              \<or> (\<exists>st. e = BoxAPIException st \<and> (st = 429 \<or> (500 \<le> st \<and> st < 600)))"
    by blast
  from k n have km: "k \<noteq> MAX_RETRIES" "k < MAX_RETRIES + 1" by simp_all
  then have l: "[k..<MAX_RETRIES + 1] = k # [Suc k..<MAX_RETRIES + 1]"
    by (simp add: upt_conv_Cons)
  have a: "attempt env f k
           (s\<lparr>clock := clock s + sum_list (map (\<lambda>i. RETRY_DELAY env * 2 ^ (i - 1)) [1..<k]),
              sleeps := sleeps s @ map (\<lambda>i. RETRY_DELAY env * 2 ^ (i - 1)) [1..<k],
              ext := ((\<lambda>w. snd (f w)) ^^ k) (ext s)\<rparr>) =
         (Inl e,
          s\<lparr>clock := clock s + sum_list (map (\<lambda>i. RETRY_DELAY env * 2 ^ (i - 1)) [1..<Suc k]),
            sleeps := sleeps s @ map (\<lambda>i. RETRY_DELAY env * 2 ^ (i - 1)) [1..<Suc k],
            ext := ((\<lambda>w. snd (f w)) ^^ Suc k) (ext s)\<rparr>)"
    by (simp only: attempt_after [OF delay] e funpow.simps comp_def)
  show ?case
    unfolding IH l by (rule retry_loop_retried [OF a cls km(1)])
qed

text \<open>
  Claim C5, as amended. The retry delay is not negative, and the first \<open>n\<close> calls of the
  request, \<open>n\<close> at most \<open>MAX_RETRIES\<close>, each raised an error that is retried: an API
  error with status 429 or 5xx, or an exception that is not an API error (another Box
  error, or an unexpected one). Then the executor has slept \<open>RETRY_DELAY * 2 ^ (i - 1)\<close>
  seconds before each call \<open>i = 1, \<dots>, n\<close>, and after call \<open>n\<close>:

  \<^item> an API error whose status is neither 429 nor 5xx (404 and 403 among them) is raised
    at once, with no further sleep and no further call, at whichever attempt it occurs;

  \<^item> a response is returned;

  \<^item> at the last attempt, \<open>n = MAX_RETRIES\<close>, every exception is raised.

  So an exception that is not an API error is raised only at the last attempt: earlier
  it is followed by the back-off sleep and the next call.
\<close>

theorem retry_fatal:
  assumes delay: "0 \<le> RETRY_DELAY env" and n: "n \<le> MAX_RETRIES"
    and retried: "\<forall>i<n. \<exists>e. fst (f (((\<lambda>w. snd (f w)) ^^ i) (ext s))) = Inl e
           \<and> ((\<forall>st. e \<noteq> BoxAPIException st)
              \<or> (\<exists>st. e = BoxAPIException st \<and> (st = 429 \<or> (500 \<le> st \<and> st < 600))))"
  shows
    "(fst (f (((\<lambda>w. snd (f w)) ^^ n) (ext s))) = Inl (BoxAPIException st)
        \<and> st \<noteq> 429 \<and> \<not> (500 \<le> st \<and> st < 600)
      \<longrightarrow> execute_with_retry env f s =
            (Inl (BoxAPIException st),
             s\<lparr>clock := clock s + sum_list (map (\<lambda>i. RETRY_DELAY env * 2 ^ (i - 1)) [1..<Suc n]),
               sleeps := sleeps s @ map (\<lambda>i. RETRY_DELAY env * 2 ^ (i - 1)) [1..<Suc n],
               ext := ((\<lambda>w. snd (f w)) ^^ Suc n) (ext s)\<rparr>))
     \<and> (fst (f (((\<lambda>w. snd (f w)) ^^ n) (ext s))) = Inr r
      \<longrightarrow> execute_with_retry env f s =
            (Inr (Some r),
             s\<lparr>clock := clock s + sum_list (map (\<lambda>i. RETRY_DELAY env * 2 ^ (i - 1)) [1..<Suc n]),
               sleeps := sleeps s @ map (\<lambda>i. RETRY_DELAY env * 2 ^ (i - 1)) [1..<Suc n],
               ext := ((\<lambda>w. snd (f w)) ^^ Suc n) (ext s)\<rparr>))
     \<and> (n = MAX_RETRIES \<and> fst (f (((\<lambda>w. snd (f w)) ^^ n) (ext s))) = Inl e
      \<longrightarrow> execute_with_retry env f s =
            (Inl e,
             s\<lparr>clock := clock s + sum_list (map (\<lambda>i. RETRY_DELAY env * 2 ^ (i - 1)) [1..<Suc n]),
               sleeps := sleeps s @ map (\<lambda>i. RETRY_DELAY env * 2 ^ (i - 1)) [1..<Suc n],
               ext := ((\<lambda>w. snd (f w)) ^^ Suc n) (ext s)\<rparr>))"
proof -
  let ?W = "\<lambda>i. ((\<lambda>w. snd (f w)) ^^ i) (ext s)"
  let ?T = "\<lambda>k. s\<lparr>clock := clock s + sum_list (map (\<lambda>i. RETRY_DELAY env * 2 ^ (i - 1)) [1..<k]),
              sleeps := sleeps s @ map (\<lambda>i. RETRY_DELAY env * 2 ^ (i - 1)) [1..<k],
              ext := ?W k\<rparr>"
  have pre: "execute_with_retry env f s = retry_loop env f [n..<MAX_RETRIES + 1] (?T n)"
    unfolding execute_with_retry_def
    by (rule retry_prefix [OF delay n retried]) simp
  from n have l: "[n..<MAX_RETRIES + 1] = n # [Suc n..<MAX_RETRIES + 1]"
    by (simp add: upt_conv_Cons)
  have a: "attempt env f n (?T n) =
             (fst (f (?W n)),
              s\<lparr>clock := clock s + sum_list (map (\<lambda>i. RETRY_DELAY env * 2 ^ (i - 1)) [1..<Suc n]),
                sleeps := sleeps s @ map (\<lambda>i. RETRY_DELAY env * 2 ^ (i - 1)) [1..<Suc n],
                ext := ?W (Suc n)\<rparr>)"
    by (simp only: attempt_after [OF delay] funpow.simps comp_def)
  show ?thesis
  proof (intro conjI impI)
    assume h: "fst (f (?W n)) = Inl (BoxAPIException st) \<and> st \<noteq> 429 \<and> \<not> (500 \<le> st \<and> st < 600)"
    then have o: "fst (f (?W n)) = Inl (BoxAPIException st)" and c: "st \<noteq> 429" "\<not> (500 \<le> st \<and> st < 600)"
      by blast+
    show "execute_with_retry env f s =
            (Inl (BoxAPIException st),
             s\<lparr>clock := clock s + sum_list (map (\<lambda>i. RETRY_DELAY env * 2 ^ (i - 1)) [1..<Suc n]),
               sleeps := sleeps s @ map (\<lambda>i. RETRY_DELAY env * 2 ^ (i - 1)) [1..<Suc n],
               ext := ?W (Suc n)\<rparr>)"
      unfolding pre l by (rule retry_loop_api_fatal [OF a [unfolded o] c])
  next
    assume o: "fst (f (?W n)) = Inr r"
    show "execute_with_retry env f s =
            (Inr (Some r),
             s\<lparr>clock := clock s + sum_list (map (\<lambda>i. RETRY_DELAY env * 2 ^ (i - 1)) [1..<Suc n]),
               sleeps := sleeps s @ map (\<lambda>i. RETRY_DELAY env * 2 ^ (i - 1)) [1..<Suc n],
               ext := ?W (Suc n)\<rparr>)"
      unfolding pre l by (rule retry_loop_success [OF a [unfolded o]])
  next
    assume h: "n = MAX_RETRIES \<and> fst (f (?W n)) = Inl e"
    then have o: "fst (f (?W n)) = Inl e" and nm: "n = MAX_RETRIES" by blast+
    show "execute_with_retry env f s =
            (Inl e,
             s\<lparr>clock := clock s + sum_list (map (\<lambda>i. RETRY_DELAY env * 2 ^ (i - 1)) [1..<Suc n]),
               sleeps := sleeps s @ map (\<lambda>i. RETRY_DELAY env * 2 ^ (i - 1)) [1..<Suc n],
               ext := ?W (Suc n)\<rparr>)"
      unfolding pre l by (rule retry_loop_last [OF a [unfolded o] nm])
  qed
qed

theorem retry_fatal_witness:
  "0 \<le> RETRY_DELAY example_env
   \<and> execute_with_retry example_env (\<lambda>w. (Inl (BoxAPIException 400) :: exn + nat, w + 1)) (init 0 0)
     = (Inl (BoxAPIException 400), (init 0 0)\<lparr>ext := 1\<rparr>)
   \<and> execute_with_retry example_env
        (\<lambda>w. (if w = 0 then Inl BoxException else if w = 1 then Inl (BoxAPIException 503)
                else Inl (BoxAPIException 404) :: exn + nat, w + 1)) (init 0 0)
     = (Inl (BoxAPIException 404), (init 0 0)\<lparr>clock := 3, sleeps := [1, 2], ext := 3\<rparr>)
   \<and> execute_with_retry example_env (\<lambda>w. (if w = 0 then Inl BoxException else Inr w, w + 1)) (init 0 0)
     = (Inr (Some 1), (init 0 0)\<lparr>clock := 1, sleeps := [1], ext := 2\<rparr>)
   \<and> execute_with_retry example_env
        (\<lambda>w. (Inl (OtherException ''ConnectionError'') :: exn + nat, w + 1)) (init 0 0)
     = (Inl (OtherException ''ConnectionError''),
        (init 0 0)\<lparr>clock := 7, sleeps := [1, 2, 4], ext := 4\<rparr>)"
proof -
  have d: "0 \<le> RETRY_DELAY example_env"
    by (simp add: example_env_def)
  have all: "(\<forall>i<Suc k. P i) = ((\<forall>i<k. P i) \<and> P k)" for P k
    by (auto simp: less_Suc_eq)
  have n: "(3::nat) = Suc (Suc (Suc 0))" "(4::nat) = Suc (Suc (Suc (Suc 0)))" "(2::nat) = Suc (Suc 0)"
    by simp_all
  have u: "[1..<Suc 0] = []" "[1..<Suc (Suc 0)] = [1]" "[1..<Suc (Suc (Suc 0))] = [1, 2]"
    "[1..<Suc (Suc (Suc (Suc 0)))] = [1, 2, 3]"
    by (simp_all add: upt_rec)
  have a: "execute_with_retry example_env (\<lambda>w. (Inl (BoxAPIException 400) :: exn + nat, w + 1)) (init 0 0)
     = (Inl (BoxAPIException 400), (init 0 0)\<lparr>ext := 1\<rparr>)"
    using retry_fatal [OF d, where n = 0 and s = "init 0 0" and st = 400
        and f = "\<lambda>w. (Inl (BoxAPIException 400) :: exn + nat, w + 1)"]
    by (simp add: init_def)
  have b: "execute_with_retry example_env
        (\<lambda>w. (if w = 0 then Inl BoxException else if w = 1 then Inl (BoxAPIException 503)
                else Inl (BoxAPIException 404) :: exn + nat, w + 1)) (init 0 0)
     = (Inl (BoxAPIException 404), (init 0 0)\<lparr>clock := 3, sleeps := [1, 2], ext := 3\<rparr>)"
    using retry_fatal [OF d, where n = "Suc (Suc 0)" and s = "init 0 0" and st = 404
        and f = "\<lambda>w. (if w = 0 then Inl BoxException else if w = 1 then Inl (BoxAPIException 503)
                else Inl (BoxAPIException 404) :: exn + nat, w + 1)"]
    by (simp add: init_def example_env_def MAX_RETRIES_def all u)
  have c: "execute_with_retry example_env (\<lambda>w. (if w = 0 then Inl BoxException else Inr w, w + 1)) (init 0 0)
     = (Inr (Some 1), (init 0 0)\<lparr>clock := 1, sleeps := [1], ext := 2\<rparr>)"
    using retry_fatal [OF d, where n = "Suc 0" and s = "init 0 0" and r = 1
        and f = "\<lambda>w. (if w = 0 then Inl BoxException else Inr w, w + 1)"]
    by (simp add: init_def example_env_def MAX_RETRIES_def all u)
  have e: "execute_with_retry example_env
        (\<lambda>w. (Inl (OtherException ''ConnectionError'') :: exn + nat, w + 1)) (init 0 0)
     = (Inl (OtherException ''ConnectionError''),
        (init 0 0)\<lparr>clock := 7, sleeps := [1, 2, 4], ext := 4\<rparr>)"
    using retry_fatal [OF d, where n = "Suc (Suc (Suc 0))" and s = "init 0 0"
        and e = "OtherException ''ConnectionError''"
        and f = "\<lambda>w. (Inl (OtherException ''ConnectionError'') :: exn + nat, w + 1)"]
    by (simp add: init_def example_env_def MAX_RETRIES_def all u n)
  from d a b c e show ?thesis by blast
qed

text \<open>
  The claim C5 as stated fails: a request whose first call raises an unexpected
  \<^verbatim>\<open>ConnectionError\<close> is called a second time, after one sleep, and its response is
  returned.
\<close>

theorem unexpected_error_is_retried:
  "fst ((\<lambda>w. (if w = 0 then Inl (OtherException ''ConnectionError'') else Inr w, w + 1)) (ext (init 0 (0::nat))))
     = Inl (OtherException ''ConnectionError'')
   \<and> execute_with_retry example_env
        (\<lambda>w. (if w = 0 then Inl (OtherException ''ConnectionError'') else Inr w, w + 1)) (init 0 0)
     = (Inr (Some 1), (init 0 0)\<lparr>clock := 1, sleeps := [1], ext := 2\<rparr>)"
  unfolding execute_with_retry_def upt4
  by (simp add: init_def example_env_def attempt_def call_ext_def bindS_def sleep_def MAX_RETRIES_def)

section \<open>Sequencing and what the walks leave alone\<close>

lemma bindS_Inr: "m s = (Inr x, s') \<Longrightarrow> bindS m f s = f x s'"
  by (simp add: bindS_def)

lemma bindS_Inl: "m s = (Inl e, s') \<Longrightarrow> bindS m f s = (Inl e, s')"
  by (simp add: bindS_def)

lemma liftE_apply: "liftE r s = (r, s)"
  by (simp add: liftE_def)

lemma try_except_Inr: "m s = (Inr x, s') \<Longrightarrow> try_except m h s = (Inr x, s')"
  by (simp add: try_except_def)

lemma try_except_Inl: "m s = (Inl e, s') \<Longrightarrow> try_except m h s = h e s'"
  by (simp add: try_except_def)

lemma preservesD: "preserves g m \<Longrightarrow> g (snd (m s)) = g s"
  by (simp add: preserves_def)

lemma preservesD2: "preserves g m \<Longrightarrow> m s = (r, s') \<Longrightarrow> g s' = g s"
  by (metis preservesD snd_conv)

lemma preserves_bindS:
  "preserves g m \<Longrightarrow> (\<And>x. preserves g (f x)) \<Longrightarrow> preserves g (bindS m f)"
proof -
  assume m: "preserves g m" and f: "\<And>x. preserves g (f x)"
  show ?thesis
    unfolding preserves_def
  proof
    fix s
    obtain r s' where ms: "m s = (r, s')" by (cases "m s")
    with m have g: "g s' = g s" by (rule preservesD2)
    show "g (snd (bindS m f s)) = g s"
    proof (cases r)
      case (Inl e)
      with ms g show ?thesis by (simp add: bindS_def)
    next
      case (Inr x)
      with ms g preservesD [OF f, of x s'] show ?thesis by (simp add: bindS_def)
    qed
  qed
qed

lemma preserves_try_except:
  "preserves g m \<Longrightarrow> (\<And>e. preserves g (h e)) \<Longrightarrow> preserves g (try_except m h)"
proof -
  assume m: "preserves g m" and h: "\<And>e. preserves g (h e)"
  show ?thesis
    unfolding preserves_def
  proof
    fix s
    obtain r s' where ms: "m s = (r, s')" by (cases "m s")
    with m have g: "g s' = g s" by (rule preservesD2)
    show "g (snd (try_except m h s)) = g s"
    proof (cases r)
      case (Inl e)
      with ms g preservesD [OF h, of e s'] show ?thesis by (simp add: try_except_def)
    next
      case (Inr x)
      with ms g show ?thesis by (simp add: try_except_def)
    qed
  qed
qed

lemma preserves_liftE: "preserves g (liftE r)"
  by (simp add: preserves_def liftE_def)

lemma preserves_if: "preserves g a \<Longrightarrow> preserves g b \<Longrightarrow> preserves g (if c then a else b)"
  by simp

lemma preserves_sleep: "preserves kept (sleep d)"
  by (simp add: preserves_def sleep_def kept_def)

lemma preserves_call_ext: "preserves kept (call_ext f)"
  by (simp add: preserves_def call_ext_def kept_def split: prod.splits)

lemma preserves_attempt: "preserves kept (attempt env f retry)"
  unfolding attempt_def
  by (intro preserves_if preserves_bindS preserves_sleep preserves_call_ext)

lemma preserves_retry_loop: "preserves kept (retry_loop env f rs)"
proof (induction rs)
  case Nil
  show ?case by (simp add: preserves_def)
next
  case (Cons retry rest)
  have a: "kept (snd (attempt env f retry s)) = kept s" for s
    using preserves_attempt by (rule preservesD)
  have r: "kept (snd (retry_loop env f rest s)) = kept s" for s
    using Cons.IH by (rule preservesD)
  show ?case
    unfolding preserves_def
  proof
    fix s
    obtain x s' where at: "attempt env f retry s = (x, s')" by (cases "attempt env f retry s")
    with a [of s] have k: "kept s' = kept s" by simp
    show "kept (snd (retry_loop env f (retry # rest) s)) = kept s"
      using at k r [of s']
      by (cases x) (auto split: exn.splits)
  qed
qed

lemma preserves_execute_with_retry: "preserves kept (execute_with_retry env f)"
  by (simp add: execute_with_retry_def preserves_retry_loop)

lemma preserves_count_call:
  "preserves kept (\<lambda>s. (Inr r, s\<lparr>self_api_calls_count := self_api_calls_count s + 1\<rparr>))"
  by (simp add: preserves_def kept_def)

lemma preserves_exec_read:
  "preserves kept (\<lambda>s. execute_with_retry env (search_request s params) s)"
  by (simp add: preserves_def preservesD [OF preserves_execute_with_retry])

lemma preserves_request_page: "preserves kept (request_page env params)"
  unfolding request_page_def
  by (intro preserves_bindS preserves_sleep preserves_exec_read preserves_count_call)

lemma preserves_scan_folder: "preserves kept (scan_folder env fid off mf)"
  unfolding scan_folder_def
  by (intro preserves_try_except preserves_bindS preserves_request_page preserves_liftE)
    (simp add: preserves_def kept_def)

lemma preserves_count_errors:
  "preserves kept (\<lambda>s. (Inr r, s\<lparr>self_api_errors_count := self_api_errors_count s + n\<rparr>))"
  by (simp add: preserves_def kept_def)

lemma preserves_page_incremental: "preserves kept (page_incremental fid off mf response)"
  unfolding page_incremental_def
  by (intro preserves_bindS preserves_liftE preserves_if preserves_count_errors)

lemma preserves_scan_folder_incremental:
  "preserves kept (scan_folder_incremental env fid since off mf)"
  unfolding scan_folder_incremental_def
  by (intro preserves_try_except preserves_bindS preserves_request_page preserves_page_incremental)
    (simp add: preserves_def kept_def)

section \<open>The folder walk: facts\<close>

lemma scan_folder_of_page:
  assumes "request_page env (full_search_params fid off mf) s = (Inr resp, s')"
  shows "scan_folder env fid off mf s =
           (case page_full fid off mf resp of
              Inl e \<Rightarrow> (Inl e, s'\<lparr>self_api_error_occurred := True,
                                  self_api_errors_count := self_api_errors_count s' + 1\<rparr>)
            | Inr r \<Rightarrow> (Inr r, s'))"
  using assms
  by (simp add: scan_folder_def try_except_def bindS_def liftE_def split: sum.splits)

lemma scan_folder_request_failed:
  assumes "request_page env (full_search_params fid off mf) s = (Inl e, s')"
  shows "scan_folder env fid off mf s =
           (Inl e, s'\<lparr>self_api_error_occurred := True,
                       self_api_errors_count := self_api_errors_count s' + 1\<rparr>)"
  using assms
  by (simp add: scan_folder_def try_except_def bindS_def liftE_def)

lemma scan_folder_incremental_of_page:
  assumes "request_page env (incremental_search_params fid since off mf) s = (Inr resp, s')"
  shows "scan_folder_incremental env fid since off mf s =
           (case page_incremental fid off mf resp s' of
              (Inl e, s'') \<Rightarrow> (Inl e, s''\<lparr>self_api_error_occurred := True\<rparr>)
            | (Inr r, s'') \<Rightarrow> (Inr r, s''))"
  using assms
  by (simp add: scan_folder_incremental_def try_except_def bindS_def split: sum.splits prod.splits)

lemma page_full_entries:
  assumes "resp = Some (Response True (Inr (PDict body)))"
    and "map_of body ''entries'' = Some (PList items)" and "items \<noteq> []"
  shows "page_full fid off mf resp =
           bindE (process_items_full fid mf items 0 []) (\<lambda>r.
             if snd r then Inr (fst r, True)
             else
               bindE (py_add_int off (int (length items))) (\<lambda>reached.
               bindE (py_lt reached (case map_of body ''total_count'' of Some v \<Rightarrow> v | None \<Rightarrow> PNone))
                 (\<lambda>has_more. Inr (fst r, has_more))))"
proof -
  from assms(2) have "body \<noteq> []" by auto
  moreover from assms(3) have "py_first (PList items) = Inr (hd items)"
    by (cases items) auto
  ultimately show ?thesis
    using assms by (simp add: page_full_def cong: if_cong)
qed

lemma page_incremental_entries:
  assumes "resp = Some (Response True (Inr (PDict body)))"
    and "map_of body ''entries'' = Some (PList items)" and "items \<noteq> []"
  shows "page_incremental fid off mf resp s =
           (case bindE (py_add_int off (int (length (fst (process_items_incremental fid mf items 0 [] 0)))))
                   (\<lambda>reached. py_lt reached
                      (case map_of body ''total_count'' of Some v \<Rightarrow> v
                       | None \<Rightarrow> PInt (int (length items)))) of
              Inl e \<Rightarrow> Inl e
            | Inr has_more \<Rightarrow> Inr (fst (process_items_incremental fid mf items 0 [] 0), has_more),
            s\<lparr>self_api_errors_count := self_api_errors_count s +
                 int (snd (process_items_incremental fid mf items 0 [] 0))\<rparr>)"
  using assms
  by (simp add: page_incremental_def bindS_def liftE_def bindE_def split: sum.splits)

lemma py_lt_int: "py_lt (PInt a) (PInt b) = Inr (a < b)"
  by (simp add: py_lt_def)

lemma process_items_full_all_ok:
  assumes "\<forall>item\<in>set items. \<exists>fm. file_metadata_full fid item = Inr fm"
    and "int n + int (length items) \<le> mf"
  shows "\<exists>recs. process_items_full fid mf items n acc = Inr (acc @ recs, False)
               \<and> length recs = length items"
  using assms
proof (induction items arbitrary: n acc)
  case Nil
  then show ?case by simp
next
  case (Cons item items)
  from Cons.prems obtain fm where fm: "file_metadata_full fid item = Inr fm" by auto
  from Cons.prems have "\<not> int n \<ge> mf" by simp
  moreover from Cons.prems have "int (n + 1) + int (length items) \<le> mf" by simp
  with Cons.IH [of "n + 1" "acc @ [fm]"] Cons.prems
  obtain recs where "process_items_full fid mf items (n + 1) (acc @ [fm]) = Inr ((acc @ [fm]) @ recs, False)"
    "length recs = length items" by auto
  ultimately show ?case using fm by (intro exI [of _ "fm # recs"]) simp
qed

lemma preserves_call_ext_save: "preserves kept_by_save (call_ext f)"
  by (simp add: preserves_def call_ext_def kept_by_save_def split: prod.splits)

lemma preserves_save_scan_state: "preserves kept_by_save (save_scan_state env)"
proof -
  have "kept_by_save (snd (save_scan_state env s)) = kept_by_save s" for s
    unfolding save_scan_state_def Let_def
    by (rule preservesD,
        intro preserves_bindS preserves_liftE preserves_call_ext_save)
      (simp_all add: preserves_def kept_by_save_def)
  then show ?thesis by (simp add: preserves_def)
qed

lemma save_keeps_offset:
  "self_current_offset (snd (save_scan_state env s)) = self_current_offset s"
  using preservesD [OF preserves_save_scan_state, of env s] by (simp add: kept_by_save_def)

lemma after_walk_state:
  assumes "self_current_offset s = PInt k"
  shows "snd (after_walk env (recs, has_more) s) =
           snd (save_scan_state env
                  (s\<lparr>self_processed_files_count := self_processed_files_count s + int (length recs),
                     self_current_offset := PInt (if has_more then k + int (length recs) else 0)\<rparr>))"
  using assms
  by (simp add: after_walk_def bindS_def advance_offset_def split: sum.splits prod.splits)

lemma after_walk_offset:
  "self_current_offset s = PInt k \<Longrightarrow>
   self_current_offset (snd (after_walk env (recs, has_more) s)) =
     PInt (if has_more then k + int (length recs) else 0)"
  by (simp add: after_walk_state save_keeps_offset)

text \<open>
  Claim C1, as amended. For a page whose body has a non-empty list of entries and an
  integer \<^verbatim>\<open>total_count\<close>, and an integer offset: the incremental walk returns the
  records it built and \<open>has_more = (offset + number of records < total_count)\<close>; the
  full walk returns \<open>has_more = (the loop stopped at the batch limit, or
  offset + number of entries of the page < total_count)\<close>, and raises when the
  loop raised. The two agree when the page has at most \<open>max_files\<close> entries and every
  entry yields a record. When \<open>has_more\<close> is false, the statements after the walk,
  which both scans share, set the offset to 0.
\<close>

theorem has_more_semantics:
  assumes "response = Some (Response True (Inr (PDict body)))"
    and "map_of body ''entries'' = Some (PList items)"
    and "items \<noteq> []"
    and "map_of body ''total_count'' = Some (PInt total_count)"
  shows
    "(request_page env (incremental_search_params fid since (PInt offset) mf) s = (Inr response, s')
      \<longrightarrow> fst (scan_folder_incremental env fid since (PInt offset) mf s) =
            Inr (fst (process_items_incremental fid mf items 0 [] 0),
                 offset + int (length (fst (process_items_incremental fid mf items 0 [] 0)))
                   < total_count))
     \<and> (request_page env (full_search_params fid (PInt offset) mf) s = (Inr response, s')
      \<longrightarrow> fst (scan_folder env fid (PInt offset) mf s) =
            bindE (process_items_full fid mf items 0 [])
              (\<lambda>r. Inr (fst r, snd r \<or> offset + int (length items) < total_count)))
     \<and> (request_page env (full_search_params fid (PInt offset) mf) s = (Inr response, s')
        \<and> int (length items) \<le> mf
        \<and> (\<forall>item\<in>set items. \<exists>fm. file_metadata_full fid item = Inr fm)
      \<longrightarrow> (\<exists>recs. fst (scan_folder env fid (PInt offset) mf s) =
                    Inr (recs, offset + int (length recs) < total_count)
                  \<and> length recs = length items))
     \<and> (self_current_offset s = PInt offset
      \<longrightarrow> self_current_offset (snd (after_walk env (recs, False) s)) = PInt 0)"
proof (intro conjI impI)
  assume rq: "request_page env (incremental_search_params fid since (PInt offset) mf) s = (Inr response, s')"
  show "fst (scan_folder_incremental env fid since (PInt offset) mf s) =
            Inr (fst (process_items_incremental fid mf items 0 [] 0),
                 offset + int (length (fst (process_items_incremental fid mf items 0 [] 0)))
                   < total_count)"
    by (simp add: scan_folder_incremental_of_page [OF rq]
        page_incremental_entries [OF assms(1,2,3)] assms(4) py_lt_int)
next
  assume rq: "request_page env (full_search_params fid (PInt offset) mf) s = (Inr response, s')"
  show "fst (scan_folder env fid (PInt offset) mf s) =
            bindE (process_items_full fid mf items 0 [])
              (\<lambda>r. Inr (fst r, snd r \<or> offset + int (length items) < total_count))"
    by (cases "process_items_full fid mf items 0 []")
      (simp_all add: scan_folder_of_page [OF rq] page_full_entries [OF assms(1,2,3)] assms(4)
        py_lt_int)
next
  assume h: "request_page env (full_search_params fid (PInt offset) mf) s = (Inr response, s')
        \<and> int (length items) \<le> mf
        \<and> (\<forall>item\<in>set items. \<exists>fm. file_metadata_full fid item = Inr fm)"
  then have rq: "request_page env (full_search_params fid (PInt offset) mf) s = (Inr response, s')"
    by simp
  from h have "\<exists>recs. process_items_full fid mf items 0 [] = Inr ([] @ recs, False)
               \<and> length recs = length items"
    by (intro process_items_full_all_ok) simp_all
  then obtain recs where recs: "process_items_full fid mf items 0 [] = Inr (recs, False)"
    "length recs = length items" by auto
  have "fst (scan_folder env fid (PInt offset) mf s) =
          Inr (recs, offset + int (length recs) < total_count)"
    by (simp add: scan_folder_of_page [OF rq] page_full_entries [OF assms(1,2,3)] assms(4)
        py_lt_int recs)
  with recs show "\<exists>recs. fst (scan_folder env fid (PInt offset) mf s) =
                    Inr (recs, offset + int (length recs) < total_count)
                  \<and> length recs = length items" by blast
next
  assume "self_current_offset s = PInt offset"
  then show "self_current_offset (snd (after_walk env (recs, False) s)) = PInt 0"
    using after_walk_offset [of s offset env recs False] by simp
qed

lemma request_page_example:
  "request_page example_env params ((init t w)\<lparr>self_box_client := Some (example_client body)\<rparr>) =
     (Inr (Some (Response True (Inr body))),
      (init t w)\<lparr>self_box_client := Some (example_client body),
                 self_api_calls_count := 1, clock := t + 1 / 2, sleeps := [1 / 2], ext := w + 1\<rparr>)"
  unfolding request_page_def execute_with_retry_def upt4
  by (simp add: bindS_def sleep_def RATE_LIMIT_DELAY_def attempt_def call_ext_def
      search_request_def example_client_def init_def)

lemma file_metadata_full_plain:
  "file_metadata_full (PStr ''0'') (PDict [(''id'', PStr i), (''name'', PStr ''a.txt'')]) =
     Inr \<lparr>fm_id = PStr i, fm_name = PStr ''a.txt'', fm_source = ''box'',
          fm_last_modified = PNone, fm_created_time = PNone, fm_size = PInt 0,
          fm_mime_type = ''text/plain'', fm_web_view_link = PStr [],
          fm_parent_folder_id = PStr ''0'', fm_folder_path = ''/''\<rparr>"
  by (simp add: file_metadata_full_def build_folder_path_def get_mime_type_from_name_def
      web_view_link_of_def lower_def lower_char_def upper_case_def lower_case_def
      extension_to_mime_def)

lemma file_metadata_full_null_parent:
  "file_metadata_full (PStr ''0'')
     (PDict [(''id'', PStr i), (''name'', PStr ''a.txt''), (''parent'', PNone)]) = Inl AttributeError"
  by (simp add: file_metadata_full_def build_folder_path_def get_mime_type_from_name_def
      web_view_link_of_def lower_def lower_char_def upper_case_def lower_case_def
      extension_to_mime_def)

text \<open>
  The claim C1 as stated fails in the full scan: a page of two entries with
  \<^verbatim>\<open>total_count = 2\<close> whose second entry has \<^verbatim>\<open>"parent": null\<close> delivers one record at
  offset 0, and \<open>has_more\<close> is false although \<open>0 + 1 < 2\<close>.
\<close>

theorem full_scan_has_more_counts_entries:
  "map_sum id (\<lambda>r. (map fm_id (fst r), snd r))
     (fst (scan_folder example_env (PStr ''0'') (PInt 0) 300
        ((init 0 0)\<lparr>self_box_client := Some (example_client
           (PDict [(''total_count'', PInt 2),
                   (''entries'', PList
                      [PDict [(''id'', PStr ''f1''), (''name'', PStr ''a.txt'')],
                       PDict [(''id'', PStr ''f2''), (''name'', PStr ''a.txt''),
                              (''parent'', PNone)]])]))\<rparr>)))
   = Inr ([PStr ''f1''], False)
   \<and> (0 + int (length [PStr ''f1'']) < (2::int))"
  by (simp add: scan_folder_of_page [OF request_page_example] page_full_def
      file_metadata_full_plain file_metadata_full_null_parent py_lt_def)

lemma file_metadata_incremental_plain:
  "file_metadata_incremental (PStr ''0'') n (PDict [(''id'', PStr i), (''name'', PStr ''a.txt'')]) =
     Inr \<lparr>fm_id = PStr i, fm_name = PStr ''a.txt'', fm_source = ''box'',
          fm_last_modified = PNone, fm_created_time = PNone, fm_size = PInt 0,
          fm_mime_type = ''text/plain'', fm_web_view_link = PStr [],
          fm_parent_folder_id = PStr ''0'', fm_folder_path = ''/''\<rparr>"
  by (simp add: file_metadata_incremental_def build_folder_path_def get_mime_type_from_name_def
      web_view_link_of_def lower_def lower_char_def upper_case_def lower_case_def
      extension_to_mime_def)

theorem has_more_semantics_witness:
  "map_sum id (\<lambda>r. (map fm_id (fst r), snd r))
     (fst (scan_folder_incremental example_env (PStr ''0'') ''2024-01-01T00:00:00Z'' (PInt 0) 300
        ((init 0 0)\<lparr>self_box_client := Some (example_client
           (PDict [(''total_count'', PInt 3),
                   (''entries'', PList [PDict [(''id'', PStr ''f1''), (''name'', PStr ''a.txt'')]])]))\<rparr>)))
   = Inr ([PStr ''f1''], True)
   \<and> map_sum id (\<lambda>r. (map fm_id (fst r), snd r))
     (fst (scan_folder example_env (PStr ''0'') (PInt 0) 300
        ((init 0 0)\<lparr>self_box_client := Some (example_client
           (PDict [(''total_count'', PInt 3),
                   (''entries'', PList [PDict [(''id'', PStr ''f1''), (''name'', PStr ''a.txt'')]])]))\<rparr>)))
   = Inr ([PStr ''f1''], True)
   \<and> self_current_offset (snd (after_walk example_env ([], False)
        ((init 0 0)\<lparr>self_box_client := Some (example_client
           (PDict [(''total_count'', PInt 3),
                   (''entries'', PList [PDict [(''id'', PStr ''f1''), (''name'', PStr ''a.txt'')]])]))\<rparr>)))
     = PInt 0"
proof -
  let ?items = "[PDict [(''id'', PStr ''f1''), (''name'', PStr ''a.txt'')]]"
  let ?body = "[(''total_count'', PInt 3), (''entries'', PList ?items)]"
  let ?S = "(init 0 (0::nat))\<lparr>self_box_client := Some (example_client (PDict ?body))\<rparr>"
  note T = has_more_semantics [of "Some (Response True (Inr (PDict ?body)))" ?body ?items 3
      example_env "PStr ''0''" "''2024-01-01T00:00:00Z''" 0 300 ?S _ "[]"]
  have a: "map_of ?body ''entries'' = Some (PList ?items)" "?items \<noteq> []"
    "map_of ?body ''total_count'' = Some (PInt 3)" by simp_all
  have b: "self_current_offset ?S = PInt 0" by (simp add: init_def)
  from T [OF refl a] b show ?thesis
    by (simp add: request_page_example file_metadata_incremental_plain file_metadata_full_plain)
qed

lemma request_page_first_try:
  assumes "self_box_client s = Some c" and "c params (ext s) = (Inr resp, w')"
  shows "request_page env params s =
     (Inr (Some resp),
      s\<lparr>self_api_calls_count := self_api_calls_count s + 1, clock := clock s + 1 / 2,
        sleeps := sleeps s @ [1 / 2], ext := w'\<rparr>)"
  unfolding request_page_def execute_with_retry_def upt4
  using assms
  by (simp add: bindS_def sleep_def RATE_LIMIT_DELAY_def attempt_def call_ext_def
      search_request_def)






section \<open>Saving the cursor: facts\<close>

lemma map_of_dict_set: "map_of (dict_set kvs k v) = (map_of kvs)(k \<mapsto> v)"
  by (induction kvs) (auto simp: fun_eq_iff)

lemma writable_cases:
  assumes "writable v"
  obtains so i sm where "v = PDict so" "map_of so ''id'' = Some i"
    "py_get v ''scan_metadata'' (PDict []) = Inr (PDict sm)"
proof -
  from assms obtain so where so: "v = PDict so" by (cases v) auto
  with assms obtain i where i: "map_of so ''id'' = Some i" by auto
  from assms so have "\<exists>sm. py_get v ''scan_metadata'' (PDict []) = Inr (PDict sm)"
    by (auto split: option.splits pyval.splits)
  with so i that show thesis by blast
qed

lemma save_scan_state_writable:
  assumes "writable (order s)"
  shows "\<exists>so' i. save_scan_state env s =
            (fst (update_scan_metadata env i
                    (PDict [(''cursor'', cursor_data_of (self_current_offset s) (clock s))]) (ext s)),
             s\<lparr>order := PDict so',
               persist_calls := persist_calls s @
                 [(i, PDict [(''cursor'', cursor_data_of (self_current_offset s) (clock s))])],
               ext := snd (update_scan_metadata env i
                    (PDict [(''cursor'', cursor_data_of (self_current_offset s) (clock s))]) (ext s))\<rparr>)
          \<and> writable (PDict so')
          \<and> cursor_offset_of (PDict so') = Inr (self_current_offset s)"
proof -
  from assms obtain so i sm where so: "order s = PDict so" and i: "map_of so ''id'' = Some i"
    and sm: "py_get (order s) ''scan_metadata'' (PDict []) = Inr (PDict sm)"
    by (rule writable_cases)
  let ?cur = "cursor_data_of (self_current_offset s) (clock s)"
  let ?so' = "dict_set so ''scan_metadata'' (PDict (dict_set sm ''cursor'' ?cur))"
  have id': "map_of ?so' ''id'' = Some i"
    using i by (simp add: map_of_dict_set)
  have "save_scan_state env s =
            (fst (update_scan_metadata env i (PDict [(''cursor'', ?cur)]) (ext s)),
             s\<lparr>order := PDict ?so',
               persist_calls := persist_calls s @ [(i, PDict [(''cursor'', ?cur)])],
               ext := snd (update_scan_metadata env i (PDict [(''cursor'', ?cur)]) (ext s))\<rparr>)"
    using so sm id'
    by (simp add: save_scan_state_def Let_def bindS_def liftE_def call_ext_def split: prod.splits)
  moreover have "writable (PDict ?so')"
    using id' by (simp add: map_of_dict_set)
  moreover have "cursor_offset_of (PDict ?so') = Inr (self_current_offset s)"
    by (simp add: cursor_offset_of_def map_of_dict_set cursor_data_of_def)
  ultimately show ?thesis by blast
qed

lemma save_scan_state_ok:
  assumes "writable (order s)" and "persists env"
  shows "\<exists>so' i. save_scan_state env s =
            (Inr (),
             s\<lparr>order := PDict so',
               persist_calls := persist_calls s @
                 [(i, PDict [(''cursor'', cursor_data_of (self_current_offset s) (clock s))])],
               ext := snd (update_scan_metadata env i
                    (PDict [(''cursor'', cursor_data_of (self_current_offset s) (clock s))]) (ext s))\<rparr>)
          \<and> writable (PDict so')
          \<and> cursor_offset_of (PDict so') = Inr (self_current_offset s)"
  using save_scan_state_writable [OF assms(1), of env] assms(2)
  by (simp add: persists_def)

lemma ensuresI:
  "(\<And>s. P s \<Longrightarrow> (case m s of (Inl e, s') \<Rightarrow> E s' | (Inr x, s') \<Rightarrow> Q x s')) \<Longrightarrow> ensures P m Q E"
  by (simp add: ensures_def)

lemma ensures_Inr: "ensures P m Q E \<Longrightarrow> P s \<Longrightarrow> m s = (Inr x, s') \<Longrightarrow> Q x s'"
  by (auto simp: ensures_def)

lemma ensures_Inl: "ensures P m Q E \<Longrightarrow> P s \<Longrightarrow> m s = (Inl e, s') \<Longrightarrow> E s'"
  by (auto simp: ensures_def)

lemma ensures_bindS:
  assumes m: "ensures P m R E" and f: "\<And>x. ensures (R x) (f x) Q E"
  shows "ensures P (bindS m f) Q E"
proof (rule ensuresI)
  fix s assume P: "P s"
  obtain r s' where ms: "m s = (r, s')" by (cases "m s")
  show "case bindS m f s of (Inl e, s') \<Rightarrow> E s' | (Inr x, s') \<Rightarrow> Q x s'"
  proof (cases r)
    case (Inl e)
    with ms ensures_Inl [OF m P] show ?thesis by (simp add: bindS_def)
  next
    case (Inr x)
    with ms ensures_Inr [OF m P] have "R x s'" by simp
    with f [of x] have "case f x s' of (Inl e, s') \<Rightarrow> E s' | (Inr x, s') \<Rightarrow> Q x s'"
      by (simp add: ensures_def)
    with ms Inr show ?thesis by (simp add: bindS_def)
  qed
qed

lemma ensures_try_except:
  assumes m: "ensures P m Q R" and h: "\<And>e. ensures R (h e) Q E"
  shows "ensures P (try_except m h) Q E"
proof (rule ensuresI)
  fix s assume P: "P s"
  obtain r s' where ms: "m s = (r, s')" by (cases "m s")
  show "case try_except m h s of (Inl e, s') \<Rightarrow> E s' | (Inr x, s') \<Rightarrow> Q x s'"
  proof (cases r)
    case (Inl e)
    with ms ensures_Inl [OF m P] have "R s'" by simp
    with h [of e] have "case h e s' of (Inl e, s') \<Rightarrow> E s' | (Inr x, s') \<Rightarrow> Q x s'"
      by (simp add: ensures_def)
    with ms Inl show ?thesis by (simp add: try_except_def)
  next
    case (Inr x)
    with ms ensures_Inr [OF m P] show ?thesis by (simp add: try_except_def)
  qed
qed

lemma ensures_liftE:
  "(\<And>s x. P s \<Longrightarrow> r = Inr x \<Longrightarrow> Q x s) \<Longrightarrow> (\<And>s. P s \<Longrightarrow> E s) \<Longrightarrow> ensures P (liftE r) Q E"
  by (cases r) (simp_all add: ensures_def liftE_def)

lemma ensures_weaken:
  "ensures P' m Q' E' \<Longrightarrow> (\<And>s. P s \<Longrightarrow> P' s) \<Longrightarrow> (\<And>x s. Q' x s \<Longrightarrow> Q x s)
   \<Longrightarrow> (\<And>s. E' s \<Longrightarrow> E s) \<Longrightarrow> ensures P m Q E"
  unfolding ensures_def by (fastforce split: prod.splits sum.splits)

lemma ensures_if:
  "ensures P a Q E \<Longrightarrow> ensures P b Q E \<Longrightarrow> ensures P (if c then a else b) Q E"
  by simp

lemma ensures_preserves:
  assumes "preserves g m" and "\<And>s s'. g s' = g s \<Longrightarrow> P s \<Longrightarrow> P s'"
  shows "ensures P m (\<lambda>_. P) P"
proof (rule ensuresI)
  fix s assume P: "P s"
  obtain r s' where ms: "m s = (r, s')" by (cases "m s")
  with assms(1) have "g s' = g s" by (rule preservesD2)
  with assms(2) P have "P s'" by blast
  with ms show "case m s of (Inl e, s') \<Rightarrow> P s' | (Inr x, s') \<Rightarrow> P s'"
    by (cases r) simp_all
qed

lemma ready_kept: "kept s' = kept s \<Longrightarrow> ready s \<Longrightarrow> ready s'"
  by (simp add: kept_def ready_def)

section \<open>The scans keep the scan order writable and save the cursor\<close>


lemma ensures_liftE_same: "ensures P (liftE r) (\<lambda>_. P) P"
  by (cases r) (simp_all add: ensures_def liftE_def)

lemma ensures_kept_ready: "preserves kept m \<Longrightarrow> ensures ready m (\<lambda>_. ready) ready"
  by (rule ensures_preserves [where g = kept]) (auto intro: ready_kept)

lemma persisted_offset_append:
  "persisted_offset (s\<lparr>persist_calls := calls @ [(i, PDict [(''cursor'', cursor_data_of v t)])]\<rparr>) = Inr v"
  by (simp add: persisted_offset_def cursor_data_of_def)

lemma save_ready:
  assumes "persists env"
  shows "ensures ready (save_scan_state env) (\<lambda>_ s. ready s \<and> cursor_saved s) (\<lambda>_. False)"
proof (rule ensuresI)
  fix s :: "'a state" assume r: "ready s"
  then have w: "writable (order s)" by (simp add: ready_def)
  from save_scan_state_ok [OF w assms] obtain so' i where
    sv: "save_scan_state env s =
            (Inr (),
             s\<lparr>order := PDict so',
               persist_calls := persist_calls s @
                 [(i, PDict [(''cursor'', cursor_data_of (self_current_offset s) (clock s))])],
               ext := snd (update_scan_metadata env i
                    (PDict [(''cursor'', cursor_data_of (self_current_offset s) (clock s))]) (ext s))\<rparr>)"
    and w': "writable (PDict so')"
    and c: "cursor_offset_of (PDict so') = Inr (self_current_offset s)" by blast
  show "case save_scan_state env s of (Inl e, s') \<Rightarrow> False
        | (Inr x, s') \<Rightarrow> ready s' \<and> cursor_saved s'"
    using r w' c
    by (simp add: sv ready_def cursor_saved_def persisted_offset_def cursor_data_of_def)
qed

lemma save_same_view:
  "save_scan_state env s = (r, s') \<Longrightarrow> kept_by_save s' = kept_by_save s"
  using preserves_save_scan_state by (rule preservesD2)

lemma scan_failed_ready:
  assumes "persists env"
  shows "ensures ready (scan_failed env prefix e)
           (\<lambda>res s. ready s \<and> cursor_saved s \<and> well_shaped res
                     \<and> error res = Some [Lit prefix, StrExc e])
           (\<lambda>_. False)"
proof (rule ensuresI)
  fix s :: "'a state" assume r: "ready s"
  obtain x s' where sv: "save_scan_state env s = (x, s')" by (cases "save_scan_state env s")
  from ensures_Inl [OF save_ready [OF assms] r] sv obtain u where x: "x = Inr u"
    by (cases x) auto
  from ensures_Inr [OF save_ready [OF assms] r] sv x have "ready s' \<and> cursor_saved s'" by simp
  with r sv x show "case scan_failed env prefix e s of (Inl e, s') \<Rightarrow> False
        | (Inr res, s') \<Rightarrow> ready s' \<and> cursor_saved s' \<and> well_shaped res
                     \<and> error res = Some [Lit prefix, StrExc e]"
    by (simp add: scan_failed_def bindS_def ready_def well_shaped_def create_error_result_def)
qed

lemma advance_offset_ready: "ensures ready (advance_offset n has_more) (\<lambda>_. ready) ready"
  by (rule ensuresI) (simp add: advance_offset_def ready_def split: sum.splits)

lemma count_files_ready:
  "ensures ready (\<lambda>s. (Inr (), s\<lparr>self_processed_files_count := self_processed_files_count s + n\<rparr>))
     (\<lambda>_. ready) ready"
  by (rule ensuresI) (simp add: ready_def)

lemma after_walk_ready:
  assumes "persists env"
  shows "ensures ready (after_walk env r)
           (\<lambda>res s. ready s \<and> cursor_saved s \<and> well_shaped res \<and> error res = None
                     \<and> is_completed res = (\<not> snd r))
           ready"
  unfolding after_walk_def
proof (intro ensures_bindS)
  show "ensures ready
          (\<lambda>s. (Inr (), s\<lparr>self_processed_files_count :=
                            self_processed_files_count s + int (length (fst r))\<rparr>))
          (\<lambda>_. ready) ready"
    by (rule count_files_ready)
  show "ensures ready (advance_offset (length (fst r)) (snd r)) (\<lambda>_. ready) ready" for x :: unit
    by (rule advance_offset_ready)
  show "ensures ready (save_scan_state env) (\<lambda>_ s. ready s \<and> cursor_saved s) ready" for x :: unit
    by (rule ensures_weaken [OF save_ready [OF assms]]) simp_all
  show "ensures (\<lambda>s. ready s \<and> cursor_saved s)
          (\<lambda>s. (Inr (batch_result (fst r) (\<not> snd r) s), s))
          (\<lambda>res s. ready s \<and> cursor_saved s \<and> well_shaped res \<and> error res = None
                     \<and> is_completed res = (\<not> snd r))
          ready" for x :: unit and xa :: unit and xb :: unit
    by (rule ensuresI) (simp add: batch_result_def well_shaped_def)
qed

lemma ready_bindS:
  "ensures ready m (\<lambda>_. ready) E \<Longrightarrow> (\<And>x. ensures ready (f x) Q E)
   \<Longrightarrow> ensures ready (bindS m f) Q E"
  by (rule ensures_bindS)

lemma ready_try_except:
  "ensures ready m Q ready \<Longrightarrow> (\<And>e. ensures ready (h e) Q E)
   \<Longrightarrow> ensures ready (try_except m h) Q E"
  by (rule ensures_try_except)

lemma reset_counters_ready: "ensures ready reset_counters (\<lambda>_. ready) ready"
  by (rule ensuresI) (simp add: reset_counters_def ready_def)

lemma read_cursor_offset_ready: "ensures ready read_cursor_offset (\<lambda>_. ready) ready"
  by (rule ensuresI) (simp add: read_cursor_offset_def ready_def split: sum.splits)

lemma walk_full_ready:
  "ensures ready (\<lambda>s. scan_folder env fid (self_current_offset s) mf s) (\<lambda>_. ready) ready"
  using ensures_kept_ready [OF preserves_scan_folder, of env fid _ mf]
  by (simp add: ensures_def)

lemma walk_incremental_ready:
  "ensures ready (\<lambda>s. scan_folder_incremental env fid since (self_current_offset s) mf s)
     (\<lambda>_. ready) ready"
  using ensures_kept_ready [OF preserves_scan_folder_incremental, of env fid since _ mf]
  by (simp add: ensures_def)

lemma after_walk_ready':
  "persists env \<Longrightarrow>
   ensures ready (after_walk env r)
     (\<lambda>res s. ready s \<and> cursor_saved s \<and> well_shaped res) ready"
  by (rule ensures_weaken [OF after_walk_ready]) simp_all

lemma scan_failed_ready':
  "persists env \<Longrightarrow>
   ensures ready (scan_failed env prefix e)
     (\<lambda>res s. ready s \<and> cursor_saved s \<and> well_shaped res) ready"
  by (rule ensures_weaken [OF scan_failed_ready]) simp_all

lemma full_scan_ready:
  assumes "persists env"
  shows "ensures ready (full_scan env data_source)
           (\<lambda>res s. ready s \<and> cursor_saved s \<and> well_shaped res) ready"
  unfolding full_scan_def
  by (intro ready_bindS ready_try_except ensures_liftE_same reset_counters_ready
      read_cursor_offset_ready walk_full_ready after_walk_ready' [OF assms]
      scan_failed_ready' [OF assms])

lemma call_ext_ready: "ensures ready (call_ext f) (\<lambda>_. ready) ready"
  by (rule ensures_kept_ready [OF preserves_call_ext])

lemma read_order_ready: "ensures ready (\<lambda>s. (py_get (order s) k d, s)) (\<lambda>_. ready) ready"
  by (rule ensuresI) (simp split: sum.splits)

lemma scan_from_of_ready: "ensures ready (scan_from_of env data_source) (\<lambda>_. ready) ready"
  unfolding scan_from_of_def
  by (intro ready_bindS ensures_if ensures_liftE_same call_ext_ready read_order_ready)

lemma incremental_scan_ready:
  assumes "persists env"
  shows "ensures ready (incremental_scan env data_source)
           (\<lambda>res s. ready s \<and> cursor_saved s \<and> well_shaped res) ready"
  unfolding incremental_scan_def
  by (intro ready_bindS ready_try_except ensures_liftE_same reset_counters_ready
      scan_from_of_ready read_cursor_offset_ready walk_incremental_ready
      after_walk_ready' [OF assms] scan_failed_ready' [OF assms])

lemma restore_scan_state_ready: "ensures ready (restore_scan_state c) (\<lambda>_. ready) ready"
  by (rule ensuresI) (simp add: restore_scan_state_def bindS_def liftE_def ready_def split: sum.splits)

lemma initialize_scan_state_ready: "ensures ready (initialize_scan_state d) (\<lambda>_. ready) ready"
  by (rule ensuresI)
    (simp add: initialize_scan_state_def bindS_def liftE_def ready_def split: sum.splits)

lemma with_credentials_ready:
  "ensures (\<lambda>s. ready s \<and> cursor_saved s \<and> well_shaped res)
     (liftE (Inr (if truthy c then res\<lparr>updated_credentials := c\<rparr> else res)))
     (\<lambda>res s. ready s \<and> cursor_saved s \<and> well_shaped res) ready"
  by (rule ensuresI) (auto simp: liftE_def well_shaped_def)

lemma run_scan_ready:
  assumes "persists env"
  shows "ensures ready
           (bindS (if scan_type = PStr ''incremental'' then incremental_scan env data_source
                   else full_scan env data_source)
              (\<lambda>result. liftE (Inr (if truthy c then result\<lparr>updated_credentials := c\<rparr>
                                      else result))))
           (\<lambda>res s. ready s \<and> cursor_saved s \<and> well_shaped res) ready"
  by (rule ensures_bindS [where R = "\<lambda>res s. ready s \<and> cursor_saved s \<and> well_shaped res"])
    (intro ensures_if full_scan_ready [OF assms] incremental_scan_ready [OF assms],
      rule with_credentials_ready)

lemma choose_scan_ready:
  assumes "persists env"
  shows "ensures ready (choose_scan env data_source c)
           (\<lambda>res s. ready s \<and> cursor_saved s \<and> well_shaped res) ready"
  unfolding choose_scan_def
  by (intro ready_bindS ensures_if ensures_liftE_same read_order_ready
      restore_scan_state_ready initialize_scan_state_ready run_scan_ready [OF assms])

section \<open>The scans resumed at an offset\<close>

lemma inv_bindS:
  "ensures I m (\<lambda>_. I) E \<Longrightarrow> (\<And>x. ensures I (f x) Q E) \<Longrightarrow> ensures I (bindS m f) Q E"
  by (rule ensures_bindS)

lemma inv_try_except:
  "ensures I m Q I \<Longrightarrow> (\<And>e. ensures I (h e) Q E) \<Longrightarrow> ensures I (try_except m h) Q E"
  by (rule ensures_try_except)

lemma resumed_kept: "kept s' = kept s \<Longrightarrow> resumed k s \<Longrightarrow> resumed k s'"
  by (simp add: kept_def ready_def resumed_def)

lemma ensures_kept_resumed:
  "preserves kept m \<Longrightarrow> ensures (resumed k) m (\<lambda>_. resumed k) (resumed k)"
  by (rule ensures_preserves [where g = kept]) (auto intro: resumed_kept)

lemma reset_counters_resumed: "ensures (resumed k) reset_counters (\<lambda>_. resumed k) (resumed k)"
  by (rule ensuresI) (simp add: reset_counters_def ready_def resumed_def)

lemma read_cursor_offset_resumed:
  "ensures (resumed k) read_cursor_offset (\<lambda>_. resumed k) (resumed k)"
  by (rule ensuresI) (simp add: read_cursor_offset_def ready_def resumed_def)

lemma walk_full_resumed:
  "ensures (resumed k) (\<lambda>s. scan_folder env fid (self_current_offset s) mf s)
     (\<lambda>_. resumed k) (resumed k)"
  using ensures_kept_resumed [OF preserves_scan_folder, of k env fid _ mf]
  by (simp add: ensures_def)

lemma walk_incremental_resumed:
  "ensures (resumed k) (\<lambda>s. scan_folder_incremental env fid since (self_current_offset s) mf s)
     (\<lambda>_. resumed k) (resumed k)"
  using ensures_kept_resumed [OF preserves_scan_folder_incremental, of k env fid since _ mf]
  by (simp add: ensures_def)

lemma read_order_inv: "ensures I (\<lambda>s. (py_get (order s) key d, s)) (\<lambda>_. I) I"
  by (rule ensuresI) (simp split: sum.splits)

lemma scan_from_of_resumed:
  "ensures (resumed k) (scan_from_of env data_source) (\<lambda>_. resumed k) (resumed k)"
  unfolding scan_from_of_def
  by (intro inv_bindS ensures_if ensures_liftE_same read_order_inv
      ensures_kept_resumed [OF preserves_call_ext])

lemma after_walk_resumed:
  assumes "persists env"
  shows "ensures (resumed k) (after_walk env r)
           (\<lambda>res s. ready s \<and> cursor_saved s \<and> well_shaped res \<and> error res = None)
           (\<lambda>_. False)"
proof (rule ensuresI)
  fix s :: "'a state" assume r: "resumed k s"
  let ?s1 = "s\<lparr>self_processed_files_count := self_processed_files_count s + int (length (fst r)),
               self_current_offset := PInt (if snd r then k + int (length (fst r)) else 0)\<rparr>"
  from r have rd: "ready ?s1" by (simp add: resumed_def ready_def)
  obtain x s' where sv: "save_scan_state env ?s1 = (x, s')" by (cases "save_scan_state env ?s1")
  from ensures_Inl [OF save_ready [OF assms] rd] sv obtain u where x: "x = Inr u"
    by (cases x) auto
  from ensures_Inr [OF save_ready [OF assms] rd] sv x have s': "ready s' \<and> cursor_saved s'" by simp
  have "after_walk env r s = (Inr (batch_result (fst r) (\<not> snd r) s'), s')"
    using r sv x
    by (cases "snd r") (simp_all add: after_walk_def bindS_def advance_offset_def resumed_def)
  with s' show "case after_walk env r s of (Inl e, s') \<Rightarrow> False
        | (Inr res, s') \<Rightarrow> ready s' \<and> cursor_saved s' \<and> well_shaped res \<and> error res = None"
    by (simp add: batch_result_def well_shaped_def)
qed

lemma scan_failed_resumed:
  assumes "persists env"
  shows "ensures (resumed k) (scan_failed env prefix e)
           (\<lambda>res s. ready s \<and> cursor_saved s \<and> well_shaped res
                     \<and> error res = Some [Lit prefix, StrExc e] \<and> self_current_offset s = PInt k)
           (\<lambda>_. False)"
proof (rule ensuresI)
  fix s :: "'a state" assume r: "resumed k s"
  then have rd: "ready s" by (simp add: resumed_def)
  obtain x s' where sf: "scan_failed env prefix e s = (x, s')"
    by (cases "scan_failed env prefix e s")
  from ensures_Inl [OF scan_failed_ready [OF assms] rd] sf obtain res where x: "x = Inr res"
    by (cases x) auto
  from ensures_Inr [OF scan_failed_ready [OF assms] rd] sf x
  have q: "ready s' \<and> cursor_saved s' \<and> well_shaped res \<and> error res = Some [Lit prefix, StrExc e]"
    by simp
  from rd have "s' = snd (save_scan_state env s)"
    using sf by (simp add: scan_failed_def bindS_def ready_def split: sum.splits prod.splits)
  then have "self_current_offset s' = self_current_offset s"
    by (simp add: save_keeps_offset)
  with r q sf x show "case scan_failed env prefix e s of (Inl e, s') \<Rightarrow> False
        | (Inr res, s') \<Rightarrow> ready s' \<and> cursor_saved s' \<and> well_shaped res
                     \<and> error res = Some [Lit prefix, StrExc e] \<and> self_current_offset s' = PInt k"
    by (simp add: resumed_def)
qed

lemma after_walk_resumed':
  "persists env \<Longrightarrow>
   ensures (resumed k) (after_walk env r)
     (\<lambda>res s. ready s \<and> cursor_saved s \<and> well_shaped res
               \<and> (if error res \<noteq> None then self_current_offset s = PInt k else True))
     (resumed k)"
  by (rule ensures_weaken [OF after_walk_resumed]) auto

lemma scan_failed_resumed':
  "persists env \<Longrightarrow>
   ensures (resumed k) (scan_failed env prefix e)
     (\<lambda>res s. ready s \<and> cursor_saved s \<and> well_shaped res
               \<and> (if error res \<noteq> None then self_current_offset s = PInt k else True))
     (resumed k)"
  by (rule ensures_weaken [OF scan_failed_resumed]) auto

lemma full_scan_resumed:
  assumes "persists env"
  shows "ensures (resumed k) (full_scan env data_source)
           (\<lambda>res s. ready s \<and> cursor_saved s \<and> well_shaped res
               \<and> (if error res \<noteq> None then self_current_offset s = PInt k else True))
           (resumed k)"
  unfolding full_scan_def
  by (intro inv_bindS inv_try_except ensures_liftE_same reset_counters_resumed
      read_cursor_offset_resumed walk_full_resumed after_walk_resumed' [OF assms]
      scan_failed_resumed' [OF assms])

lemma incremental_scan_resumed:
  assumes "persists env"
  shows "ensures (resumed k) (incremental_scan env data_source)
           (\<lambda>res s. ready s \<and> cursor_saved s \<and> well_shaped res
               \<and> (if error res \<noteq> None then self_current_offset s = PInt k else True))
           (resumed k)"
  unfolding incremental_scan_def
  by (intro inv_bindS inv_try_except ensures_liftE_same reset_counters_resumed
      scan_from_of_resumed read_cursor_offset_resumed walk_incremental_resumed
      after_walk_resumed' [OF assms] scan_failed_resumed' [OF assms])

lemma with_credentials_resumed:
  "ensures (\<lambda>s. ready s \<and> cursor_saved s \<and> well_shaped res
               \<and> (if error res \<noteq> None then self_current_offset s = PInt k else True))
     (liftE (Inr (if truthy c then res\<lparr>updated_credentials := c\<rparr> else res)))
     (\<lambda>res s. ready s \<and> cursor_saved s \<and> well_shaped res
               \<and> (if error res \<noteq> None then self_current_offset s = PInt k else True))
     (resumed k)"
  by (rule ensuresI) (auto simp: liftE_def well_shaped_def)

lemma run_scan_resumed:
  assumes "persists env"
  shows "ensures (resumed k)
           (bindS (if scan_type = PStr ''incremental'' then incremental_scan env data_source
                   else full_scan env data_source)
              (\<lambda>result. liftE (Inr (if truthy c then result\<lparr>updated_credentials := c\<rparr>
                                      else result))))
           (\<lambda>res s. ready s \<and> cursor_saved s \<and> well_shaped res
               \<and> (if error res \<noteq> None then self_current_offset s = PInt k else True))
           (resumed k)"
  by (rule ensures_bindS [where R = "\<lambda>res s. ready s \<and> cursor_saved s \<and> well_shaped res
               \<and> (if error res \<noteq> None then self_current_offset s = PInt k else True)"])
    (intro ensures_if full_scan_resumed [OF assms] incremental_scan_resumed [OF assms],
      rule with_credentials_resumed)

lemma preserves_authenticate: "preserves kept (authenticate env data_source)"
  unfolding authenticate_def
  by (intro preserves_bindS preserves_liftE preserves_if)
    (auto intro: preserves_liftE preserves_call_ext split: option.splits)

lemma py_get_Inr_dict: "py_get v key d = Inr x \<Longrightarrow> \<exists>kvs. v = PDict kvs"
  by (cases v) auto

lemma choose_scan_resumes:
  assumes c: "cursor_offset_of (order s) = Inr (PInt k)"
    and r: "root_folder_id_of data_source = Inr fid"
  shows "choose_scan env data_source creds s =
           bindS (\<lambda>s. (py_get (order s) ''scan_type'' PNone, s)) (\<lambda>scan_type.
           bindS (if scan_type = PStr ''incremental'' then incremental_scan env data_source
                  else full_scan env data_source) (\<lambda>result.
             liftE (Inr (if truthy creds then result\<lparr>updated_credentials := creds\<rparr>
                         else result))))
             (s\<lparr>self_current_offset := PInt k\<rparr>)"
proof -
  from c obtain sm where sm: "py_get (order s) ''scan_metadata'' (PDict []) = Inr sm"
    by (cases "py_get (order s) ''scan_metadata'' (PDict [])") (simp_all add: cursor_offset_of_def)
  with c obtain cur where cur: "py_get sm ''cursor'' (PDict []) = Inr cur"
    by (cases "py_get sm ''cursor'' (PDict [])") (simp_all add: cursor_offset_of_def)
  with c sm have off: "py_get cur ''current_offset'' (PInt 0) = Inr (PInt k)"
    by (simp add: cursor_offset_of_def)
  from r obtain md where md: "py_get data_source ''metadata'' (PDict []) = Inr md"
    by (cases "py_get data_source ''metadata'' (PDict [])") (simp_all add: root_folder_id_of_def)
  with r have "py_get md ''folder_id'' (PStr ''0'') = Inr fid"
    by (simp add: root_folder_id_of_def)
  then obtain kvs where "md = PDict kvs" by (auto dest: py_get_Inr_dict)
  then obtain f where f: "py_get md ''folder_id'' PNone = Inr f" by simp
  have order_same: "order (s\<lparr>self_current_offset := v\<rparr>) = order s" for v by simp
  show ?thesis
  proof (cases "truthy cur")
    case True
    with sm cur off show ?thesis
      by (simp add: choose_scan_def bindS_def liftE_def restore_scan_state_def)
  next
    case False
    from off obtain ckvs where "cur = PDict ckvs" by (auto dest: py_get_Inr_dict)
    with False have "cur = PDict []" by simp
    with off have "k = 0" by simp
    with False sm cur md f show ?thesis
      by (simp add: choose_scan_def bindS_def liftE_def initialize_scan_state_def)
  qed
qed

lemma scan_after_auth:
  assumes "data_source = PDict d"
    and "authenticate env data_source (snd (reset_counters (s\<lparr>order := scan_order\<rparr>))) =
           (Inr (Some (AuthResult (Some client) creds)), s1)"
  shows "scan env data_source scan_order s =
           try_except (choose_scan env data_source creds)
             (scan_failed env ''Error scanning Box: '') (s1\<lparr>self_box_client := Some client\<rparr>)"
  using assms
  by (simp add: scan_def bindS_def liftE_def try_except_def reset_counters_def)

section \<open>Closed runs of the entry point\<close>

lemma execute_with_retry_unfold:
  "execute_with_retry env f = retry_loop env f [0, 1, 2, 3]"
  unfolding execute_with_retry_def upt4 by simp

lemmas scan_unfold = execute_with_retry_unfold Let_def example_failing_client_def
  example_client_def
  scan_def bindS_def liftE_def try_except_def reset_counters_def authenticate_def
  example_auth_def example_env_def call_ext_def choose_scan_def restore_scan_state_def
  initialize_scan_state_def full_scan_def incremental_scan_def scan_from_of_def
  root_folder_id_of_def read_cursor_offset_def cursor_offset_of_def scan_folder_def
  scan_folder_incremental_def request_page_def sleep_def RATE_LIMIT_DELAY_def attempt_def
  search_request_def scan_failed_def save_scan_state_def cursor_data_of_def
  create_error_result_def init_def after_walk_def advance_offset_def batch_result_def
  MAX_RETRIES_def MAX_BATCH_SIZE_def full_search_params_def incremental_search_params_def

lemma not_found_run:
  "scan (example_auth (example_failing_client 404) PNone)
        (PDict [(''id'', PStr ''ds1'')])
        (PDict [(''id'', PStr ''so1''), (''scan_type'', PStr ''full''),
                (''scan_metadata'', PDict [(''cursor'', PDict [(''current_offset'', PInt 100)])])])
        (init 0 0)
   = (Inr \<lparr>files = [], is_completed = False,
         stats =
           \<lparr>files_count = 0, last_scan_batch_at = 1 / 2,
              scan_started_at = Some 0, scan_completed_at = None,
              api_calls_made = 0, api_errors_encountered = 1\<rparr>,
         updated_credentials = PNone,
         error = Some [Lit ''Error in full scan of Box: '', StrExc (BoxAPIException 404)]\<rparr>,
      (init 0 0)\<lparr>self_box_client := Some (example_failing_client 404),
        self_current_offset := PInt 100, self_api_error_occurred := True,
        self_api_errors_count := 1, self_scan_started_at := Some 0,
        order := PDict
          [(''id'', PStr ''so1''), (''scan_type'', PStr ''full''),
           (''scan_metadata'',
            PDict [(''cursor'', cursor_data_of (PInt 100) (1 / 2))])],
        clock := 1 / 2, sleeps := [1 / 2],
        persist_calls := [(PStr ''so1'', PDict [(''cursor'', cursor_data_of (PInt 100) (1 / 2))])],
        ext := 1\<rparr>)"
  by (simp add: scan_unfold)

text \<open>
  Claim C3, at an input where the code misses it. The scan order holds
  \<^verbatim>\<open>"scan_metadata": None\<close>. After authentication succeeded the read of the cursor,
  \<^verbatim>\<open>scan_order.get("scan_metadata", {}).get("cursor", {})\<close>, raises \<^verbatim>\<open>AttributeError\<close>: the
  default \<^verbatim>\<open>{}\<close> does not stand in for a key that is present. The handler of \<^verbatim>\<open>scan\<close>
  catches it and calls \<^verbatim>\<open>_save_scan_state\<close>, whose item assignment on \<^verbatim>\<open>None\<close> raises
  \<^verbatim>\<open>TypeError\<close> inside the handler: the exception leaves \<open>scan\<close>, there is no result,
  and nothing was persisted.
\<close>

theorem write_failure_escapes:
  "fst (scan (example_auth (example_client (PDict [])) PNone)
        (PDict [(''id'', PStr ''ds1'')])
        (PDict [(''id'', PStr ''so1''), (''scan_type'', PStr ''full''),
                (''scan_metadata'', PNone)])
        (init 0 0)) = Inl TypeError
   \<and> persist_calls (snd (scan (example_auth (example_client (PDict [])) PNone)
        (PDict [(''id'', PStr ''ds1'')])
        (PDict [(''id'', PStr ''so1''), (''scan_type'', PStr ''full''),
                (''scan_metadata'', PNone)])
        (init 0 0))) = []"
  by (simp add: scan_unfold)

section \<open>The offset after a batch\<close>


lemma save_writable_persisted:
  assumes "writable (order s)"
  shows "persisted_offset (snd (save_scan_state env s)) = Inr (self_current_offset s)
         \<and> writable (order (snd (save_scan_state env s)))"
proof -
  from save_scan_state_writable [OF assms, of env] obtain so' i where
    "save_scan_state env s =
            (fst (update_scan_metadata env i
                    (PDict [(''cursor'', cursor_data_of (self_current_offset s) (clock s))]) (ext s)),
             s\<lparr>order := PDict so',
               persist_calls := persist_calls s @
                 [(i, PDict [(''cursor'', cursor_data_of (self_current_offset s) (clock s))])],
               ext := snd (update_scan_metadata env i
                    (PDict [(''cursor'', cursor_data_of (self_current_offset s) (clock s))]) (ext s))\<rparr>)"
    and "writable (PDict so')" by blast
  then show ?thesis
    by (simp add: persisted_offset_def cursor_data_of_def)
qed

lemma scan_failed_state:
  "snd (scan_failed env prefix e s) =
     (if self_box_client s \<noteq> None then snd (save_scan_state env s) else s)"
  by (simp add: scan_failed_def bindS_def split: sum.splits prod.splits)

lemma batch_tail:
  fixes recs :: "file_metadata list" and has_more :: bool and env :: "'w env" and s2 :: "'w state"
    and prefix :: string and k :: int
  defines "expected \<equiv> PInt (if has_more then k + int (length recs) else 0)"
  defines "end_state \<equiv> snd (try_except (after_walk env (recs, has_more)) (scan_failed env prefix) s2)"
  assumes k: "self_current_offset s2 = PInt k"
  shows "self_current_offset end_state = expected"
    and "writable (order s2) \<Longrightarrow> persisted_offset end_state = Inr expected"
proof -
  let ?s2' = "s2\<lparr>self_processed_files_count := self_processed_files_count s2 + int (length recs),
                self_current_offset := expected\<rparr>"
  let ?s3 = "snd (save_scan_state env ?s2')"
  have s3: "snd (after_walk env (recs, has_more) s2) = ?s3"
    using after_walk_state [OF k, of env recs has_more] by (simp add: expected_def)
  have off3: "self_current_offset ?s3 = expected"
    by (simp add: save_keeps_offset)
  have es: "end_state = ?s3 \<or> end_state = snd (save_scan_state env ?s3)"
    unfolding end_state_def try_except_def
    using s3 by (auto simp: scan_failed_state split: sum.splits prod.splits)
  then show "self_current_offset end_state = expected"
    using off3 by (auto simp: save_keeps_offset)
  show "persisted_offset end_state = Inr expected" if w: "writable (order s2)"
  proof -
    from w have "writable (order ?s2')" by simp
    from save_writable_persisted [OF this, of env]
    have p3: "persisted_offset ?s3 = Inr expected" and w3: "writable (order ?s3)" by simp_all
    from save_writable_persisted [OF w3, of env] off3
    have "persisted_offset (snd (save_scan_state env ?s3)) = Inr expected" by simp
    with es p3 show ?thesis by auto
  qed
qed

lemma root_folder_dict: "root_folder_id_of data_source = Inr fid \<Longrightarrow> \<exists>x. py_get data_source ''id'' PNone = Inr x"
  by (cases data_source) (simp_all add: root_folder_id_of_def)

lemma full_scan_walked:
  assumes r: "root_folder_id_of data_source = Inr fid"
    and c: "cursor_offset_of (order s) = Inr (PInt k)"
    and w: "scan_folder env fid (PInt k) MAX_BATCH_SIZE
              ((snd (reset_counters s))\<lparr>self_current_offset := PInt k\<rparr>) = (Inr res, s2)"
  shows "full_scan env data_source s =
           try_except (after_walk env res) (scan_failed env ''Error in full scan of Box: '') s2"
proof -
  from r obtain x where "py_get data_source ''id'' PNone = Inr x" by (auto dest: root_folder_dict)
  moreover have "order (snd (reset_counters s)) = order s" by (simp add: reset_counters_def)
  ultimately show ?thesis
    using r c w
    by (simp add: full_scan_def bindS_def liftE_def try_except_def read_cursor_offset_def
        reset_counters_def)
qed

lemma incremental_scan_walked:
  assumes r: "root_folder_id_of data_source = Inr fid"
    and f: "scan_from_of env data_source (snd (reset_counters s)) = (Inr scan_from, s1)"
    and t: "format_to_rfc3339_box env scan_from = Inr since"
    and c: "cursor_offset_of (order s1) = Inr (PInt k)"
    and w: "scan_folder_incremental env fid (replace_000Z since) (PInt k) MAX_BATCH_SIZE
              (s1\<lparr>self_current_offset := PInt k\<rparr>) = (Inr res, s2)"
  shows "incremental_scan env data_source s =
           try_except (after_walk env res)
             (scan_failed env ''Error in incremental scan of Box: '') s2"
proof -
  from r obtain x where "py_get data_source ''id'' PNone = Inr x" by (auto dest: root_folder_dict)
  then show ?thesis
    using r f t c w
    by (simp add: incremental_scan_def bindS_def liftE_def try_except_def read_cursor_offset_def
        reset_counters_def)
qed

lemma preserves_scan_from_of: "preserves kept (scan_from_of env data_source)"
  unfolding scan_from_of_def
  by (intro preserves_bindS preserves_if preserves_liftE preserves_call_ext)
    (simp add: preserves_def)

text \<open>
  Claim C2. In a batch of the full scan and in a batch of the incremental scan, when
  the cursor held the integer \<open>offset\<close> and the walk returned \<open>n\<close> records: the
  current offset after the batch is \<open>offset + n\<close> when \<open>has_more\<close> is true and 0 when
  it is false, and with a writable scan order that is also the offset of the cursor
  last handed to persistence.
\<close>

theorem advance_cursor:
  assumes r: "root_folder_id_of data_source = Inr fid"
    and c: "cursor_offset_of (order s) = Inr (PInt offset)"
  shows
    "(scan_folder env fid (PInt offset) MAX_BATCH_SIZE
          ((snd (reset_counters s))\<lparr>self_current_offset := PInt offset\<rparr>)
        = (Inr (recs, has_more), s2)
      \<longrightarrow> self_current_offset (snd (full_scan env data_source s)) =
            PInt (if has_more then offset + int (length recs) else 0)
          \<and> (writable (order s)
             \<longrightarrow> persisted_offset (snd (full_scan env data_source s)) =
                   Inr (PInt (if has_more then offset + int (length recs) else 0))))
     \<and> (scan_from_of env data_source (snd (reset_counters s)) = (Inr scan_from, s1)
        \<and> format_to_rfc3339_box env scan_from = Inr since
        \<and> scan_folder_incremental env fid (replace_000Z since) (PInt offset) MAX_BATCH_SIZE
             (s1\<lparr>self_current_offset := PInt offset\<rparr>)
           = (Inr (recs, has_more), s2)
      \<longrightarrow> self_current_offset (snd (incremental_scan env data_source s)) =
            PInt (if has_more then offset + int (length recs) else 0)
          \<and> (writable (order s)
             \<longrightarrow> persisted_offset (snd (incremental_scan env data_source s)) =
                   Inr (PInt (if has_more then offset + int (length recs) else 0))))"
proof (intro conjI impI)
  assume w: "scan_folder env fid (PInt offset) MAX_BATCH_SIZE
          ((snd (reset_counters s))\<lparr>self_current_offset := PInt offset\<rparr>)
        = (Inr (recs, has_more), s2)"
  have "kept s2 = kept ((snd (reset_counters s))\<lparr>self_current_offset := PInt offset\<rparr>)"
    using preserves_scan_folder w by (rule preservesD2)
  then have k: "self_current_offset s2 = PInt offset" and o: "order s2 = order s"
    by (simp_all add: kept_def reset_counters_def)
  note fs = full_scan_walked [OF r c w]
  show "self_current_offset (snd (full_scan env data_source s)) =
            PInt (if has_more then offset + int (length recs) else 0)"
    unfolding fs by (rule batch_tail(1) [OF k])
  show "persisted_offset (snd (full_scan env data_source s)) =
                   Inr (PInt (if has_more then offset + int (length recs) else 0))"
    if "writable (order s)"
    unfolding fs using that o by (intro batch_tail(2) [OF k]) simp
next
  assume h: "scan_from_of env data_source (snd (reset_counters s)) = (Inr scan_from, s1)
        \<and> format_to_rfc3339_box env scan_from = Inr since
        \<and> scan_folder_incremental env fid (replace_000Z since) (PInt offset) MAX_BATCH_SIZE
             (s1\<lparr>self_current_offset := PInt offset\<rparr>)
           = (Inr (recs, has_more), s2)"
  then have f: "scan_from_of env data_source (snd (reset_counters s)) = (Inr scan_from, s1)"
    and t: "format_to_rfc3339_box env scan_from = Inr since"
    and w: "scan_folder_incremental env fid (replace_000Z since) (PInt offset) MAX_BATCH_SIZE
             (s1\<lparr>self_current_offset := PInt offset\<rparr>) = (Inr (recs, has_more), s2)"
    by simp_all
  have "kept s1 = kept (snd (reset_counters s))"
    using preserves_scan_from_of f by (rule preservesD2)
  then have o1: "order s1 = order s" by (simp add: kept_def reset_counters_def)
  have "kept s2 = kept (s1\<lparr>self_current_offset := PInt offset\<rparr>)"
    using preserves_scan_folder_incremental w by (rule preservesD2)
  then have k: "self_current_offset s2 = PInt offset" and o: "order s2 = order s"
    using o1 by (simp_all add: kept_def)
  from c o1 have c1: "cursor_offset_of (order s1) = Inr (PInt offset)" by simp
  note fs = incremental_scan_walked [OF r f t c1 w]
  show "self_current_offset (snd (incremental_scan env data_source s)) =
            PInt (if has_more then offset + int (length recs) else 0)"
    unfolding fs by (rule batch_tail(1) [OF k])
  show "persisted_offset (snd (incremental_scan env data_source s)) =
                   Inr (PInt (if has_more then offset + int (length recs) else 0))"
    if "writable (order s)"
    unfolding fs using that o by (intro batch_tail(2) [OF k]) simp
qed

lemma scan_folder_first_try:
  assumes "self_box_client s = Some c"
    and "c (full_search_params fid off mf) (ext s) = (Inr resp, w')"
    and "page_full fid off mf (Some resp) = Inr r"
  shows "fst (scan_folder env fid off mf s) = Inr r"
  using scan_folder_of_page [OF request_page_first_try [OF assms(1,2)], of env] assms(3)
  by simp

lemma scan_folder_incremental_first_try:
  fixes s :: "'w state"
  assumes "self_box_client s = Some c"
    and "c (incremental_search_params fid since off mf) (ext s) = (Inr resp, w')"
    and "\<And>s' :: 'w state. fst (page_incremental fid off mf (Some resp) s') = Inr r"
  shows "fst (scan_folder_incremental env fid since off mf s) = Inr r"
proof -
  let ?s' = "s\<lparr>self_api_calls_count := self_api_calls_count s + 1, clock := clock s + 1 / 2,
        sleeps := sleeps s @ [1 / 2], ext := w'\<rparr>"
  obtain x s'' where p: "page_incremental fid off mf (Some resp) ?s' = (x, s'')"
    by (cases "page_incremental fid off mf (Some resp) ?s'")
  with assms(3) [of ?s'] have "x = Inr r" by simp
  with p show ?thesis
    by (simp add: scan_folder_incremental_of_page [OF request_page_first_try [OF assms(1,2)]])
qed

theorem advance_cursor_witness:
  "self_current_offset (snd (full_scan example_env (PDict [(''id'', PStr ''ds1'')])
      ((init 0 0)\<lparr>self_box_client := Some (example_client
           (PDict [(''total_count'', PInt 250),
                   (''entries'', PList [PDict [(''id'', PStr ''f1''), (''name'', PStr ''a.txt'')]])])),
         order := PDict [(''id'', PStr ''so1''),
           (''scan_metadata'', PDict [(''cursor'', PDict [(''current_offset'', PInt 100)])])]\<rparr>)))
     = PInt 101
   \<and> persisted_offset (snd (full_scan example_env (PDict [(''id'', PStr ''ds1'')])
      ((init 0 0)\<lparr>self_box_client := Some (example_client
           (PDict [(''total_count'', PInt 250),
                   (''entries'', PList [PDict [(''id'', PStr ''f1''), (''name'', PStr ''a.txt'')]])])),
         order := PDict [(''id'', PStr ''so1''),
           (''scan_metadata'', PDict [(''cursor'', PDict [(''current_offset'', PInt 100)])])]\<rparr>)))
     = Inr (PInt 101)
   \<and> self_current_offset (snd (incremental_scan example_env (PDict [(''id'', PStr ''ds1'')])
      ((init 0 0)\<lparr>self_box_client := Some (example_client
           (PDict [(''total_count'', PInt 101),
                   (''entries'', PList [PDict [(''id'', PStr ''f1''), (''name'', PStr ''a.txt'')]])])),
         order := PDict [(''id'', PStr ''so1''),
           (''scan_metadata'', PDict [(''cursor'', PDict [(''current_offset'', PInt 100)])])]\<rparr>)))
     = PInt 0
   \<and> persisted_offset (snd (incremental_scan example_env (PDict [(''id'', PStr ''ds1'')])
      ((init 0 0)\<lparr>self_box_client := Some (example_client
           (PDict [(''total_count'', PInt 101),
                   (''entries'', PList [PDict [(''id'', PStr ''f1''), (''name'', PStr ''a.txt'')]])])),
         order := PDict [(''id'', PStr ''so1''),
           (''scan_metadata'', PDict [(''cursor'', PDict [(''current_offset'', PInt 100)])])]\<rparr>)))
     = Inr (PInt 0)"
proof -
  let ?D = "PDict [(''id'', PStr ''ds1'')]"
  let ?O = "PDict [(''id'', PStr ''so1''),
           (''scan_metadata'', PDict [(''cursor'', PDict [(''current_offset'', PInt 100)])])]"
  let ?item = "PDict [(''id'', PStr ''f1''), (''name'', PStr ''a.txt'')]"
  let ?p1 = "PDict [(''total_count'', PInt 250), (''entries'', PList [?item])]"
  let ?p2 = "PDict [(''total_count'', PInt 101), (''entries'', PList [?item])]"
  let ?S1 = "(init 0 (0::nat))\<lparr>self_box_client := Some (example_client ?p1), order := ?O\<rparr>"
  let ?S2 = "(init 0 (0::nat))\<lparr>self_box_client := Some (example_client ?p2), order := ?O\<rparr>"
  let ?rec = "\<lparr>fm_id = PStr ''f1'', fm_name = PStr ''a.txt'', fm_source = ''box'',
          fm_last_modified = PNone, fm_created_time = PNone, fm_size = PInt 0,
          fm_mime_type = ''text/plain'', fm_web_view_link = PStr [],
          fm_parent_folder_id = PStr ''0'', fm_folder_path = ''/''\<rparr>"
  have r: "root_folder_id_of ?D = Inr (PStr ''0'')" by (simp add: root_folder_id_of_def)
  have c1: "cursor_offset_of (order ?S1) = Inr (PInt 100)"
    and c2: "cursor_offset_of (order ?S2) = Inr (PInt 100)"
    by (simp_all add: cursor_offset_of_def)
  have w1: "writable (order ?S1)" and w2: "writable (order ?S2)" by simp_all
  let ?W1 = "(snd (reset_counters ?S1))\<lparr>self_current_offset := PInt 100\<rparr>"
  have "fst (scan_folder example_env (PStr ''0'') (PInt 100) MAX_BATCH_SIZE ?W1) = Inr ([?rec], True)"
    by (rule scan_folder_first_try [where c = "example_client ?p1"
          and resp = "Response True (Inr ?p1)" and w' = 1])
      (simp_all add: reset_counters_def init_def example_client_def page_full_def
        file_metadata_full_plain py_lt_def MAX_BATCH_SIZE_def)
  then have walk1: "scan_folder example_env (PStr ''0'') (PInt 100) MAX_BATCH_SIZE ?W1 =
      (Inr ([?rec], True), snd (scan_folder example_env (PStr ''0'') (PInt 100) MAX_BATCH_SIZE ?W1))"
    by (metis prod.collapse)
  have sf: "scan_from_of example_env ?D (snd (reset_counters ?S2)) =
      (Inr (PStr ''1970-01-01T00:00:00Z''), snd (reset_counters ?S2))"
    by (simp add: scan_from_of_def bindS_def liftE_def call_ext_def example_env_def
        reset_counters_def init_def)
  have fmt: "format_to_rfc3339_box example_env (PStr ''1970-01-01T00:00:00Z'') = Inr []"
    by (simp add: example_env_def)
  let ?W2 = "(snd (reset_counters ?S2))\<lparr>self_current_offset := PInt 100\<rparr>"
  have "fst (scan_folder_incremental example_env (PStr ''0'') (replace_000Z []) (PInt 100)
          MAX_BATCH_SIZE ?W2) = Inr ([?rec], False)"
    by (rule scan_folder_incremental_first_try [where c = "example_client ?p2"
          and resp = "Response True (Inr ?p2)" and w' = 1])
      (simp_all add: reset_counters_def init_def example_client_def page_incremental_def
        bindS_def liftE_def file_metadata_incremental_plain py_lt_def MAX_BATCH_SIZE_def)
  then have walk2: "scan_folder_incremental example_env (PStr ''0'') (replace_000Z []) (PInt 100)
          MAX_BATCH_SIZE ?W2 =
      (Inr ([?rec], False), snd (scan_folder_incremental example_env (PStr ''0'') (replace_000Z [])
          (PInt 100) MAX_BATCH_SIZE ?W2))"
    by (metis prod.collapse)
  from advance_cursor [OF r c1, where env = example_env and recs = "[?rec]"
      and has_more = True] walk1 w1
  have a: "self_current_offset (snd (full_scan example_env ?D ?S1)) = PInt 101"
    "persisted_offset (snd (full_scan example_env ?D ?S1)) = Inr (PInt 101)"
    by simp_all
  from advance_cursor [OF r c2, where env = example_env
      and scan_from = "PStr ''1970-01-01T00:00:00Z''" and ?s1.0 = "snd (reset_counters ?S2)"
      and since = "[]" and recs = "[?rec]" and has_more = False] sf fmt walk2 w2
  have b: "self_current_offset (snd (incremental_scan example_env ?D ?S2)) = PInt 0"
    "persisted_offset (snd (incremental_scan example_env ?D ?S2)) = Inr (PInt 0)"
    by simp_all
  from a b show ?thesis by simp
qed

section \<open>The completion time of a result\<close>


lemma ensures_any: "ensures P m (\<lambda>_ _. True) (\<lambda>_. True)"
  by (simp add: ensures_def split: prod.splits sum.splits)

lemma after_walk_shape:
  "ensures (\<lambda>_. True) (after_walk env r) (\<lambda>res _. well_shaped res) (\<lambda>_. True)"
  unfolding after_walk_def
  by (intro inv_bindS ensures_any) (simp add: ensures_def batch_result_def well_shaped_def)

lemma scan_failed_shape:
  "ensures (\<lambda>_. True) (scan_failed env prefix e) (\<lambda>res _. well_shaped res) (\<lambda>_. True)"
  unfolding scan_failed_def
  by (intro inv_bindS ensures_any) (simp add: ensures_def create_error_result_def well_shaped_def)

lemma full_scan_shape:
  "ensures (\<lambda>_. True) (full_scan env data_source) (\<lambda>res _. well_shaped res) (\<lambda>_. True)"
  unfolding full_scan_def
  by (intro inv_bindS inv_try_except ensures_any after_walk_shape scan_failed_shape)

lemma incremental_scan_shape:
  "ensures (\<lambda>_. True) (incremental_scan env data_source) (\<lambda>res _. well_shaped res) (\<lambda>_. True)"
  unfolding incremental_scan_def
  by (intro inv_bindS inv_try_except ensures_any after_walk_shape scan_failed_shape)

lemma with_credentials_shape:
  "ensures (\<lambda>_. well_shaped res)
     (liftE (Inr (if truthy c then res\<lparr>updated_credentials := c\<rparr> else res)))
     (\<lambda>res _. well_shaped res) (\<lambda>_. True)"
  by (rule ensuresI) (auto simp: liftE_def well_shaped_def)

lemma run_scan_shape:
  "ensures (\<lambda>_. True)
     (bindS (if scan_type = PStr ''incremental'' then incremental_scan env data_source
             else full_scan env data_source)
        (\<lambda>result. liftE (Inr (if truthy c then result\<lparr>updated_credentials := c\<rparr> else result))))
     (\<lambda>res _. well_shaped res) (\<lambda>_. True)"
  by (rule ensures_bindS [where R = "\<lambda>res _. well_shaped res"])
    (intro ensures_if full_scan_shape incremental_scan_shape, rule with_credentials_shape)

lemma choose_scan_shape:
  "ensures (\<lambda>_. True) (choose_scan env data_source c) (\<lambda>res _. well_shaped res) (\<lambda>_. True)"
  unfolding choose_scan_def
  by (intro inv_bindS ensures_any run_scan_shape)

lemma error_result_shape:
  "ensures (\<lambda>_. True)
     (\<lambda>s. (Inr (create_error_result msg (self_scan_started_at s) s), s))
     (\<lambda>res _. well_shaped res) (\<lambda>_. True)"
  by (simp add: ensures_def create_error_result_def well_shaped_def)

lemma after_auth_shape:
  "ensures (\<lambda>_. True)
     (case auth_result of
        None \<Rightarrow>
          (\<lambda>s. (Inr (create_error_result [Lit ''Failed to authenticate with Box'']
                       (self_scan_started_at s) s), s))
      | Some (AuthResult service credentials) \<Rightarrow>
          bindS (\<lambda>s. (Inr (), s\<lparr>self_box_client := service\<rparr>)) (\<lambda>_.
            if service = None then
              (\<lambda>s. (Inr (create_error_result [Lit ''Failed to initialize Box client'']
                           (self_scan_started_at s) s), s))
            else choose_scan env data_source credentials))
     (\<lambda>res _. well_shaped res) (\<lambda>_. True)"
proof (cases auth_result)
  case None
  then show ?thesis by (simp add: error_result_shape)
next
  case (Some a)
  obtain service credentials where "a = AuthResult service credentials" by (cases a)
  with Some have a: "auth_result = Some (AuthResult service credentials)" by simp
  show ?thesis
    unfolding a option.case auth_result.case
    by (intro inv_bindS ensures_any ensures_if error_result_shape choose_scan_shape)
qed

lemma scan_shape:
  "ensures (\<lambda>_. True) (scan env data_source scan_order) (\<lambda>res _. well_shaped res) (\<lambda>_. True)"
proof -
  have "ensures (\<lambda>_. True)
     (bindS (liftE (py_get data_source ''id'' PNone)) (\<lambda>source_id.
      bindS reset_counters (\<lambda>_.
        try_except
          (bindS (authenticate env data_source) (\<lambda>auth_result.
             case auth_result of
               None \<Rightarrow>
                 (\<lambda>s. (Inr (create_error_result [Lit ''Failed to authenticate with Box'']
                              (self_scan_started_at s) s), s))
             | Some (AuthResult service credentials) \<Rightarrow>
                 bindS (\<lambda>s. (Inr (), s\<lparr>self_box_client := service\<rparr>)) (\<lambda>_.
                   if service = None then
                     (\<lambda>s. (Inr (create_error_result [Lit ''Failed to initialize Box client'']
                                  (self_scan_started_at s) s), s))
                   else choose_scan env data_source credentials)))
          (scan_failed env ''Error scanning Box: ''))))
     (\<lambda>res _. well_shaped res) (\<lambda>_. True)"
    by (intro inv_bindS inv_try_except ensures_any after_auth_shape scan_failed_shape)
  then show ?thesis
    by (simp add: ensures_def scan_def)
qed

text \<open>
  Claim C6, as amended. Every result \<open>scan\<close> returns has no completion time exactly
  when it has an error, and a result with an error is not completed. A batch that
  ran through (the statements after the walk returned) carries the time it ended,
  whether the sweep finished (\<open>has_more\<close> false) or not.
\<close>

theorem completion_time_shape:
  "(scan env data_source scan_order s = (Inr res, s')
      \<longrightarrow> ((scan_completed_at (stats res) = None) = (error res \<noteq> None))
          \<and> (error res \<noteq> None \<longrightarrow> \<not> is_completed res))
   \<and> (after_walk env (recs, has_more) s = (Inr res, s')
      \<longrightarrow> is_completed res = (\<not> has_more)
          \<and> scan_completed_at (stats res) = Some (clock s')
          \<and> error res = None)"
proof (intro conjI impI)
  assume run: "scan env data_source scan_order s = (Inr res, s')"
  have w: "well_shaped res"
    by (rule ensures_Inr [OF scan_shape _ run]) simp
  then show "(scan_completed_at (stats res) = None) = (error res \<noteq> None)"
    by (simp add: well_shaped_def)
  show "\<not> is_completed res" if "error res \<noteq> None"
    using w that by (auto simp: well_shaped_def)
next
  assume a: "after_walk env (recs, has_more) s = (Inr res, s')"
  then have "res = batch_result recs (\<not> has_more) s'"
    by (auto simp: after_walk_def bindS_def split: sum.splits prod.splits)
  then show "is_completed res = (\<not> has_more)" "scan_completed_at (stats res) = Some (clock s')"
    "error res = None"
    by (simp_all add: batch_result_def)
qed

text \<open>
  The claim C6 as stated fails: a full-scan batch at offset 100 whose page has one
  entry of 250 returns \<open>is_completed = False\<close> together with a completion time.
\<close>

theorem incomplete_batch_has_completion_time:
  "fst (scan (example_auth (example_client
           (PDict [(''total_count'', PInt 250),
                   (''entries'', PList [PDict [(''id'', PStr ''f1''), (''name'', PStr ''a.txt'')]])]))
          PNone)
        (PDict [(''id'', PStr ''ds1'')])
        (PDict [(''id'', PStr ''so1''), (''scan_type'', PStr ''full''),
                (''scan_metadata'', PDict [(''cursor'', PDict [(''current_offset'', PInt 100)])])])
        (init 0 0))
   = Inr \<lparr>files =
            [\<lparr>fm_id = PStr ''f1'', fm_name = PStr ''a.txt'', fm_source = ''box'',
              fm_last_modified = PNone, fm_created_time = PNone, fm_size = PInt 0,
              fm_mime_type = ''text/plain'', fm_web_view_link = PStr [],
              fm_parent_folder_id = PStr ''0'', fm_folder_path = ''/''\<rparr>],
          is_completed = False,
          stats =
            \<lparr>files_count = 1, last_scan_batch_at = 1 / 2,
             scan_started_at = Some 0, scan_completed_at = Some (1 / 2),
             api_calls_made = 1, api_errors_encountered = 0\<rparr>,
          updated_credentials = PNone,
          error = None\<rparr>"
  by (simp add: scan_unfold page_full_def file_metadata_full_plain py_lt_def)

theorem completion_time_shape_witness:
  "scan_completed_at (stats (projr (fst (scan (example_auth (example_failing_client 404) PNone)
        (PDict [(''id'', PStr ''ds1'')])
        (PDict [(''id'', PStr ''so1''), (''scan_type'', PStr ''full''),
                (''scan_metadata'', PDict [(''cursor'', PDict [(''current_offset'', PInt 100)])])])
        (init 0 0))))) = None
   \<and> \<not> is_completed (projr (fst (scan (example_auth (example_failing_client 404) PNone)
        (PDict [(''id'', PStr ''ds1'')])
        (PDict [(''id'', PStr ''so1''), (''scan_type'', PStr ''full''),
                (''scan_metadata'', PDict [(''cursor'', PDict [(''current_offset'', PInt 100)])])])
        (init 0 0))))
   \<and> \<not> is_completed (projr (fst (after_walk example_env ([], True)
          ((init 7 0)\<lparr>order := PDict [(''id'', PStr ''so1'')]\<rparr>))))
   \<and> scan_completed_at (stats (projr (fst (after_walk example_env ([], True)
          ((init 7 0)\<lparr>order := PDict [(''id'', PStr ''so1'')]\<rparr>))))) = Some 7"
proof -
  let ?E = "example_auth (example_failing_client 404) PNone"
  let ?D = "PDict [(''id'', PStr ''ds1'')]"
  let ?O = "PDict [(''id'', PStr ''so1''), (''scan_type'', PStr ''full''),
                (''scan_metadata'', PDict [(''cursor'', PDict [(''current_offset'', PInt 100)])])]"
  let ?S = "(init 7 (0::nat))\<lparr>order := PDict [(''id'', PStr ''so1'')]\<rparr>"
  obtain res s' where run: "scan ?E ?D ?O (init 0 0) = (Inr res, s')"
    and err: "error res \<noteq> None"
    by (simp add: not_found_run)
  obtain res2 s2 where aw: "after_walk example_env ([], True) ?S = (Inr res2, s2)"
    and clk: "clock s2 = 7"
    by (simp add: after_walk_def bindS_def liftE_def advance_offset_def save_scan_state_def
        Let_def call_ext_def example_env_def init_def)
  from completion_time_shape [where env = ?E and data_source = ?D and scan_order = ?O
      and s = "init 0 0" and res = res and s' = s'] run err
  have a: "scan_completed_at (stats res) = None" "\<not> is_completed res" by simp_all
  from completion_time_shape [where env = example_env and recs = "[]" and has_more = True
      and s = ?S and res = res2 and s' = s2] aw clk
  have b: "\<not> is_completed res2" "scan_completed_at (stats res2) = Some 7" by simp_all
  from a b run aw show ?thesis by simp
qed

section \<open>A page without a total count\<close>


lemma process_items_full_dicts:
  assumes "\<forall>item\<in>set items. \<exists>kvs. item = PDict kvs"
    and "int n + int (length items) \<le> mf"
  shows "\<exists>recs. process_items_full fid mf items n acc = Inr (recs, False)"
  using assms
proof (induction items arbitrary: n acc)
  case Nil
  then show ?case by simp
next
  case (Cons item items)
  from Cons.prems obtain kvs where item: "item = PDict kvs" by auto
  from Cons.prems have n: "\<not> int n \<ge> mf" by simp
  from Cons.prems have rest: "\<forall>item\<in>set items. \<exists>kvs. item = PDict kvs" by simp
  show ?case
  proof (cases "file_metadata_full fid item")
    case (Inl e)
    from Cons.prems have "int n + int (length items) \<le> mf" by simp
    from Cons.IH [OF rest this, of acc] Inl n item show ?thesis by simp
  next
    case (Inr fm)
    from Cons.prems have "int (n + 1) + int (length items) \<le> mf" by simp
    from Cons.IH [OF rest this, of "acc @ [fm]"] Inr n show ?thesis by simp
  qed
qed

lemma process_items_full_replicate:
  assumes "file_metadata_full fid item = Inr fm" and "int k \<le> mf"
  shows "process_items_full fid mf (replicate n item) k acc =
           Inr (acc @ replicate (min n (nat (mf - int k))) fm, int n > mf - int k)"
  using assms(2)
proof (induction n arbitrary: k acc)
  case 0
  then show ?case by simp
next
  case (Suc n)
  show ?case
  proof (cases "int k \<ge> mf")
    case True
    with Suc.prems have "mf = int k" by simp
    then show ?thesis by simp
  next
    case False
    then have le: "int (k + 1) \<le> mf" by simp
    have m: "min (Suc n) (nat (mf - int k)) = Suc (min n (nat (mf - int (k + 1))))"
      using False by (simp add: min_def nat_diff_distrib) linarith
    from Suc.IH [OF le, of "acc @ [fm]"] False assms(1) show ?thesis
      by (simp add: m replicate_append_same) linarith
  qed
qed

lemma py_lt_None: "py_lt (PInt a) PNone = Inl TypeError"
  by (simp add: py_lt_def)

lemma full_scan_walk_failed:
  assumes p: "persists env" and rd: "ready s"
    and r: "root_folder_id_of data_source = Inr fid"
    and c: "cursor_offset_of (order s) = Inr (PInt k)"
    and w: "scan_folder env fid (PInt k) MAX_BATCH_SIZE
              ((snd (reset_counters s))\<lparr>self_current_offset := PInt k\<rparr>) = (Inl e, s2)"
  shows "\<exists>res s'. full_scan env data_source s = (Inr res, s')
           \<and> error res = Some [Lit ''Error in full scan of Box: '', StrExc e]
           \<and> \<not> is_completed res \<and> files res = [] \<and> cursor_saved s'"
proof -
  from r obtain x where "py_get data_source ''id'' PNone = Inr x" by (auto dest: root_folder_dict)
  then have fs: "full_scan env data_source s =
      scan_failed env ''Error in full scan of Box: '' e s2"
    using r c w
    by (simp add: full_scan_def bindS_def liftE_def try_except_def read_cursor_offset_def
        reset_counters_def)
  have "kept s2 = kept ((snd (reset_counters s))\<lparr>self_current_offset := PInt k\<rparr>)"
    using preserves_scan_folder w by (rule preservesD2)
  with rd have rd2: "ready s2" by (simp add: kept_def ready_def reset_counters_def)
  obtain x s' where sf: "scan_failed env ''Error in full scan of Box: '' e s2 = (x, s')"
    by (cases "scan_failed env ''Error in full scan of Box: '' e s2")
  from ensures_Inl [OF scan_failed_ready [OF p] rd2] sf obtain res where x: "x = Inr res"
    by (cases x) auto
  from ensures_Inr [OF scan_failed_ready [OF p] rd2] sf x
  have "cursor_saved s'" "well_shaped res"
    "error res = Some [Lit ''Error in full scan of Box: '', StrExc e]" by simp_all
  with fs sf x show ?thesis by (auto simp: well_shaped_def)
qed

text \<open>
  Claim C10, as amended. For a page whose body has a non-empty list of entries and no
  \<^verbatim>\<open>total_count\<close>, and an integer offset: when the page has at most \<open>max_files\<close>
  entries and every entry is a dictionary, the full walk compares an integer with
  \<^verbatim>\<open>None\<close> and raises \<^verbatim>\<open>TypeError\<close>; when its loop stopped at the batch limit, the
  comparison is skipped and the walk returns the records with \<open>has_more = True\<close>;
  the incremental walk returns its records with
  \<open>has_more = (offset + number of records < number of entries)\<close>. In the full scan
  a walk that raises \<^verbatim>\<open>TypeError\<close> ends the batch in an error result, when the scan
  order is writable, a client is set and persistence does not raise.
\<close>

theorem missing_total_count:
  assumes "response = Some (Response True (Inr (PDict body)))"
    and "map_of body ''entries'' = Some (PList items)"
    and "items \<noteq> []"
    and "map_of body ''total_count'' = None"
  shows
    "(request_page env (full_search_params fid (PInt offset) mf) s = (Inr response, s')
        \<and> int (length items) \<le> mf
        \<and> (\<forall>item\<in>set items. \<exists>kvs. item = PDict kvs)
      \<longrightarrow> fst (scan_folder env fid (PInt offset) mf s) = Inl TypeError)
     \<and> (request_page env (full_search_params fid (PInt offset) mf) s = (Inr response, s')
        \<and> process_items_full fid mf items 0 [] = Inr (recs, True)
      \<longrightarrow> fst (scan_folder env fid (PInt offset) mf s) = Inr (recs, True))
     \<and> (request_page env (incremental_search_params fid since (PInt offset) mf) s = (Inr response, s')
      \<longrightarrow> fst (scan_folder_incremental env fid since (PInt offset) mf s) =
            Inr (fst (process_items_incremental fid mf items 0 [] 0),
                 offset + int (length (fst (process_items_incremental fid mf items 0 [] 0)))
                   < int (length items)))
     \<and> (persists env \<and> ready s
        \<and> root_folder_id_of data_source = Inr fid
        \<and> cursor_offset_of (order s) = Inr (PInt offset)
        \<and> fst (scan_folder env fid (PInt offset) MAX_BATCH_SIZE
                 ((snd (reset_counters s))\<lparr>self_current_offset := PInt offset\<rparr>)) = Inl TypeError
      \<longrightarrow> (\<exists>res. fst (full_scan env data_source s) = Inr res
              \<and> error res = Some [Lit ''Error in full scan of Box: '', StrExc TypeError]
              \<and> \<not> is_completed res \<and> files res = []))"
proof (intro conjI impI)
  assume h: "request_page env (full_search_params fid (PInt offset) mf) s = (Inr response, s')
        \<and> int (length items) \<le> mf
        \<and> (\<forall>item\<in>set items. \<exists>kvs. item = PDict kvs)"
  then have rq: "request_page env (full_search_params fid (PInt offset) mf) s = (Inr response, s')"
    by simp
  from h have "\<exists>recs. process_items_full fid mf items 0 [] = Inr (recs, False)"
    by (intro process_items_full_dicts) simp_all
  then obtain recs where "process_items_full fid mf items 0 [] = Inr (recs, False)" by blast
  then show "fst (scan_folder env fid (PInt offset) mf s) = Inl TypeError"
    by (simp add: scan_folder_of_page [OF rq] page_full_entries [OF assms(1,2,3)] assms(4)
        py_lt_None)
next
  assume h: "request_page env (full_search_params fid (PInt offset) mf) s = (Inr response, s')
        \<and> process_items_full fid mf items 0 [] = Inr (recs, True)"
  then have rq: "request_page env (full_search_params fid (PInt offset) mf) s = (Inr response, s')"
    by simp
  from h show "fst (scan_folder env fid (PInt offset) mf s) = Inr (recs, True)"
    by (simp add: scan_folder_of_page [OF rq] page_full_entries [OF assms(1,2,3)])
next
  assume rq: "request_page env (incremental_search_params fid since (PInt offset) mf) s = (Inr response, s')"
  show "fst (scan_folder_incremental env fid since (PInt offset) mf s) =
            Inr (fst (process_items_incremental fid mf items 0 [] 0),
                 offset + int (length (fst (process_items_incremental fid mf items 0 [] 0)))
                   < int (length items))"
    by (simp add: scan_folder_incremental_of_page [OF rq]
        page_incremental_entries [OF assms(1,2,3)] assms(4) py_lt_int)
next
  assume h: "persists env \<and> ready s
        \<and> root_folder_id_of data_source = Inr fid
        \<and> cursor_offset_of (order s) = Inr (PInt offset)
        \<and> fst (scan_folder env fid (PInt offset) MAX_BATCH_SIZE
                 ((snd (reset_counters s))\<lparr>self_current_offset := PInt offset\<rparr>)) = Inl TypeError"
  then have w: "scan_folder env fid (PInt offset) MAX_BATCH_SIZE
                 ((snd (reset_counters s))\<lparr>self_current_offset := PInt offset\<rparr>)
          = (Inl TypeError, snd (scan_folder env fid (PInt offset) MAX_BATCH_SIZE
                 ((snd (reset_counters s))\<lparr>self_current_offset := PInt offset\<rparr>)))"
    by (metis prod.collapse)
  from h full_scan_walk_failed [OF _ _ _ _ w, of data_source]
  show "\<exists>res. fst (full_scan env data_source s) = Inr res
              \<and> error res = Some [Lit ''Error in full scan of Box: '', StrExc TypeError]
              \<and> \<not> is_completed res \<and> files res = []"
    by fastforce
qed

text \<open>
  The claim C10 as stated fails: on a page of 301 entries and no \<^verbatim>\<open>total_count\<close> the
  full walk with the batch limit of 300 raises nothing; it returns 300 records and
  \<open>has_more = True\<close>.
\<close>

theorem long_page_skips_the_comparison:
  "fst (scan_folder example_env (PStr ''0'') (PInt 0) MAX_BATCH_SIZE
          ((init 0 0)\<lparr>self_box_client := Some (example_client
             (PDict [(''entries'',
                PList (replicate 301 (PDict [(''id'', PStr ''f''), (''name'', PStr ''a.txt'')])))]))\<rparr>))
   = Inr (replicate 300
            \<lparr>fm_id = PStr ''f'', fm_name = PStr ''a.txt'', fm_source = ''box'',
             fm_last_modified = PNone, fm_created_time = PNone, fm_size = PInt 0,
             fm_mime_type = ''text/plain'', fm_web_view_link = PStr [],
             fm_parent_folder_id = PStr ''0'', fm_folder_path = ''/''\<rparr>,
          True)"
proof -
  let ?item = "PDict [(''id'', PStr ''f''), (''name'', PStr ''a.txt'')]"
  let ?body = "[(''entries'', PList (replicate 301 ?item))]"
  have p: "process_items_full (PStr ''0'') MAX_BATCH_SIZE (replicate 301 ?item) 0 [] =
      Inr (replicate 300
            \<lparr>fm_id = PStr ''f'', fm_name = PStr ''a.txt'', fm_source = ''box'',
             fm_last_modified = PNone, fm_created_time = PNone, fm_size = PInt 0,
             fm_mime_type = ''text/plain'', fm_web_view_link = PStr [],
             fm_parent_folder_id = PStr ''0'', fm_folder_path = ''/''\<rparr>, True)"
    using process_items_full_replicate [OF file_metadata_full_plain [of "''f''"],
        where k = 0 and mf = MAX_BATCH_SIZE and n = 301 and acc = "[]"]
    by (simp add: MAX_BATCH_SIZE_def)
  have e: "map_of ?body ''entries'' = Some (PList (replicate 301 ?item))" by simp
  have n: "replicate 301 ?item \<noteq> []" by simp
  show ?thesis
    by (simp add: scan_folder_of_page [OF request_page_example]
        page_full_entries [OF refl e n] p)
qed

theorem missing_total_count_witness:
  "fst (scan_folder example_env (PStr ''0'') (PInt 0) MAX_BATCH_SIZE
          ((init 0 0)\<lparr>self_box_client := Some (example_client
             (PDict [(''entries'',
                PList [PDict [(''id'', PStr ''f1''), (''name'', PStr ''a.txt'')]])]))\<rparr>))
     = Inl TypeError
   \<and> map_sum id (\<lambda>r. (map fm_id (fst r), snd r))
       (fst (scan_folder example_env (PStr ''0'') (PInt 0) 1
          ((init 0 0)\<lparr>self_box_client := Some (example_client
             (PDict [(''entries'',
                PList [PDict [(''id'', PStr ''f1''), (''name'', PStr ''a.txt'')],
                       PDict [(''id'', PStr ''f2''), (''name'', PStr ''a.txt'')]])]))\<rparr>)))
     = Inr ([PStr ''f1''], True)
   \<and> map_sum id (\<lambda>r. (map fm_id (fst r), snd r))
       (fst (scan_folder_incremental example_env (PStr ''0'') [] (PInt 0) MAX_BATCH_SIZE
          ((init 0 0)\<lparr>self_box_client := Some (example_client
             (PDict [(''entries'',
                PList [PDict [(''id'', PStr ''f1''), (''name'', PStr ''a.txt'')]])]))\<rparr>)))
     = Inr ([PStr ''f1''], False)
   \<and> map_sum id error
       (fst (full_scan example_env (PDict [(''id'', PStr ''ds1'')])
          ((init 0 0)\<lparr>self_box_client := Some (example_client
             (PDict [(''entries'',
                PList [PDict [(''id'', PStr ''f1''), (''name'', PStr ''a.txt'')]])])),
             order := PDict [(''id'', PStr ''so1'')]\<rparr>)))
     = Inr (Some [Lit ''Error in full scan of Box: '', StrExc TypeError])"
proof -
  let ?i1 = "PDict [(''id'', PStr ''f1''), (''name'', PStr ''a.txt'')]"
  let ?i2 = "PDict [(''id'', PStr ''f2''), (''name'', PStr ''a.txt'')]"
  let ?b1 = "[(''entries'', PList [?i1])]"
  let ?b2 = "[(''entries'', PList [?i1, ?i2])]"
  let ?S1 = "(init 0 (0::nat))\<lparr>self_box_client := Some (example_client (PDict ?b1))\<rparr>"
  let ?S2 = "(init 0 (0::nat))\<lparr>self_box_client := Some (example_client (PDict ?b2))\<rparr>"
  let ?S3 = "(init 0 (0::nat))\<lparr>self_box_client := Some (example_client (PDict ?b1)),
               order := PDict [(''id'', PStr ''so1'')]\<rparr>"
  let ?D = "PDict [(''id'', PStr ''ds1'')]"
  have e1: "map_of ?b1 ''entries'' = Some (PList [?i1])" "[?i1] \<noteq> []"
    "map_of ?b1 ''total_count'' = None" by simp_all
  note T1 = missing_total_count [where response = "Some (Response True (Inr (PDict ?b1)))"
      and body = ?b1 and items = "[?i1]" and env = example_env and fid = "PStr ''0''"
      and offset = 0 and mf = MAX_BATCH_SIZE and since = "[]", OF refl e1]
  have a: "fst (scan_folder example_env (PStr ''0'') (PInt 0) MAX_BATCH_SIZE ?S1) = Inl TypeError"
    using T1 [where s = ?S1] by (simp add: request_page_example MAX_BATCH_SIZE_def)
  have c: "map_sum id (\<lambda>r. (map fm_id (fst r), snd r))
       (fst (scan_folder_incremental example_env (PStr ''0'') [] (PInt 0) MAX_BATCH_SIZE ?S1))
     = Inr ([PStr ''f1''], False)"
    using T1 [where s = ?S1]
    by (simp add: request_page_example MAX_BATCH_SIZE_def file_metadata_incremental_plain)
  have b: "map_sum id (\<lambda>r. (map fm_id (fst r), snd r))
       (fst (scan_folder example_env (PStr ''0'') (PInt 0) 1 ?S2)) = Inr ([PStr ''f1''], True)"
    using missing_total_count [where response = "Some (Response True (Inr (PDict ?b2)))"
      and body = ?b2 and items = "[?i1, ?i2]" and env = example_env and fid = "PStr ''0''"
      and offset = 0 and mf = 1 and s = ?S2
      and recs = "[\<lparr>fm_id = PStr ''f1'', fm_name = PStr ''a.txt'', fm_source = ''box'',
             fm_last_modified = PNone, fm_created_time = PNone, fm_size = PInt 0,
             fm_mime_type = ''text/plain'', fm_web_view_link = PStr [],
             fm_parent_folder_id = PStr ''0'', fm_folder_path = ''/''\<rparr>]", OF refl]
    by (simp add: request_page_example file_metadata_full_plain)
  let ?W = "(snd (reset_counters ?S3))\<lparr>self_current_offset := PInt 0\<rparr>"
  have W: "?W = (init 0 (0::nat))\<lparr>self_box_client := Some (example_client (PDict ?b1)),
      self_scan_started_at := Some 0, order := PDict [(''id'', PStr ''so1'')]\<rparr>"
    by (simp add: reset_counters_def init_def)
  have rq: "request_page example_env (full_search_params (PStr ''0'') (PInt 0) MAX_BATCH_SIZE) ?W =
      (Inr (Some (Response True (Inr (PDict ?b1)))),
       ?W\<lparr>self_api_calls_count := self_api_calls_count ?W + 1, clock := clock ?W + 1 / 2,
          sleeps := sleeps ?W @ [1 / 2], ext := 1\<rparr>)"
    by (rule request_page_first_try [where c = "example_client (PDict ?b1)"])
      (simp_all add: reset_counters_def init_def example_client_def)
  have wf: "fst (scan_folder example_env (PStr ''0'') (PInt 0) MAX_BATCH_SIZE ?W) = Inl TypeError"
    using T1 [where s = ?W] rq by (simp add: MAX_BATCH_SIZE_def)
  have pre: "persists example_env" "ready ?S3" "root_folder_id_of ?D = Inr (PStr ''0'')"
    "cursor_offset_of (order ?S3) = Inr (PInt 0)"
    by (simp_all add: persists_def example_env_def ready_def init_def root_folder_id_of_def
        cursor_offset_of_def)
  from T1 [where s = ?S3 and data_source = ?D, THEN conjunct2, THEN conjunct2, THEN conjunct2]
    pre wf
  obtain res where "fst (full_scan example_env ?D ?S3) = Inr res"
    "error res = Some [Lit ''Error in full scan of Box: '', StrExc TypeError]"
    by blast
  then have d: "map_sum id error (fst (full_scan example_env ?D ?S3))
     = Inr (Some [Lit ''Error in full scan of Box: '', StrExc TypeError])"
    by simp
  from a b c d show ?thesis by simp
qed

section \<open>A failed batch returns an error result and keeps the cursor\<close>

text \<open>The handlers of the three \<^verbatim>\<open>try\<close> blocks, run in a state where the scan order
  is writable and a client is set.\<close>

lemma scan_failed_run:
  assumes p: "persists env" and rd: "ready s"
  shows "\<exists>res s'. scan_failed env prefix e s = (Inr res, s')
           \<and> error res = Some [Lit prefix, StrExc e]
           \<and> \<not> is_completed res \<and> files res = [] \<and> cursor_saved s'
           \<and> self_current_offset s' = self_current_offset s"
proof -
  obtain x s' where sf: "scan_failed env prefix e s = (x, s')"
    by (cases "scan_failed env prefix e s")
  from ensures_Inl [OF scan_failed_ready [OF p] rd] sf obtain res where x: "x = Inr res"
    by (cases x) auto
  from ensures_Inr [OF scan_failed_ready [OF p] rd] sf x
  have q: "cursor_saved s'" "well_shaped res" "error res = Some [Lit prefix, StrExc e]"
    by simp_all
  from rd sf have "s' = snd (save_scan_state env s)"
    by (simp add: scan_failed_state ready_def [of s] del: not_None_eq)
      (metis snd_conv scan_failed_state)
  then have "self_current_offset s' = self_current_offset s"
    by (simp add: save_keeps_offset)
  with q sf x show ?thesis by (auto simp: well_shaped_def)
qed

lemma incremental_scan_walk_failed_eq:
  assumes r: "root_folder_id_of data_source = Inr fid"
    and f: "scan_from_of env data_source (snd (reset_counters s)) = (Inr scan_from, s1)"
    and t: "format_to_rfc3339_box env scan_from = Inr since"
    and c: "cursor_offset_of (order s1) = Inr (PInt k)"
    and w: "scan_folder_incremental env fid (replace_000Z since) (PInt k) MAX_BATCH_SIZE
              (s1\<lparr>self_current_offset := PInt k\<rparr>) = (Inl e, s2)"
  shows "incremental_scan env data_source s =
           scan_failed env ''Error in incremental scan of Box: '' e s2"
proof -
  from r obtain x where "py_get data_source ''id'' PNone = Inr x" by (auto dest: root_folder_dict)
  then show ?thesis
    using r f t c w
    by (simp add: incremental_scan_def bindS_def liftE_def try_except_def read_cursor_offset_def
        reset_counters_def)
qed

lemma full_scan_walk_failed_eq:
  assumes r: "root_folder_id_of data_source = Inr fid"
    and c: "cursor_offset_of (order s) = Inr (PInt k)"
    and w: "scan_folder env fid (PInt k) MAX_BATCH_SIZE
              ((snd (reset_counters s))\<lparr>self_current_offset := PInt k\<rparr>) = (Inl e, s2)"
  shows "full_scan env data_source s = scan_failed env ''Error in full scan of Box: '' e s2"
proof -
  from r obtain x where "py_get data_source ''id'' PNone = Inr x" by (auto dest: root_folder_dict)
  then show ?thesis
    using r c w
    by (simp add: full_scan_def bindS_def liftE_def try_except_def read_cursor_offset_def
        reset_counters_def)
qed

text \<open>
  Where the cursor can be written the failure path does what is expected of it. The
  persistence collaborator never raises. Then:

  \<^item> when the scan order is writable (a dictionary with an \<^verbatim>\<open>id\<close> whose
    \<^verbatim>\<open>scan_metadata\<close> is absent or a dictionary), the data source is a dictionary and
    authentication returned a client, \<open>scan\<close> returns a result, whatever is raised during
    the batch; the cursor in the scan order and the last persisted cursor hold the current
    offset; a result with an error is not completed and has no files; an exception \<open>e\<close>
    that leaves the chosen scan gives the error \<^verbatim>\<open>Error scanning Box: \<close> followed by
    \<open>e\<close>; and when the scan order's cursor held the integer \<open>k\<close> and the data source's
    metadata can be read, a result with an error leaves the offset, and so the persisted
    cursor, at \<open>k\<close>;

  \<^item> when the full walk raises \<open>e\<close> from offset \<open>k\<close>, \<open>full_scan\<close> returns a result
    whose error is \<^verbatim>\<open>Error in full scan of Box: \<close> followed by \<open>e\<close>, not completed,
    without files, and the cursor is saved at \<open>k\<close>;

  \<^item> when the incremental walk raises \<open>e\<close> from offset \<open>k\<close>, \<open>incremental_scan\<close>
    returns a result whose error is \<^verbatim>\<open>Error in incremental scan of Box: \<close> followed by
    \<open>e\<close>, not completed, without files, and the cursor is saved at \<open>k\<close>.
\<close>

theorem failure_keeps_cursor:
  assumes p: "persists env"
  shows
    "(writable scan_order \<and> data_source = PDict d
        \<and> authenticate env data_source (snd (reset_counters (s\<lparr>order := scan_order\<rparr>))) =
             (Inr (Some (AuthResult (Some client) credentials)), sa)
      \<longrightarrow> (\<exists>res s'. scan env data_source scan_order s = (Inr res, s')
             \<and> cursor_saved s'
             \<and> (error res \<noteq> None \<longrightarrow> \<not> is_completed res \<and> files res = [])
             \<and> (\<forall>e sx. choose_scan env data_source credentials (sa\<lparr>self_box_client := Some client\<rparr>)
                          = (Inl e, sx)
                    \<longrightarrow> error res = Some [Lit ''Error scanning Box: '', StrExc e])
             \<and> (error res \<noteq> None \<and> cursor_offset_of scan_order = Inr (PInt k)
                  \<and> root_folder_id_of data_source = Inr fid
                \<longrightarrow> self_current_offset s' = PInt k)))
     \<and> (ready s \<and> root_folder_id_of data_source = Inr fid
        \<and> cursor_offset_of (order s) = Inr (PInt k)
        \<and> scan_folder env fid (PInt k) MAX_BATCH_SIZE
             ((snd (reset_counters s))\<lparr>self_current_offset := PInt k\<rparr>) = (Inl e, sw)
      \<longrightarrow> (\<exists>res s'. full_scan env data_source s = (Inr res, s')
             \<and> error res = Some [Lit ''Error in full scan of Box: '', StrExc e]
             \<and> \<not> is_completed res \<and> files res = []
             \<and> cursor_saved s' \<and> self_current_offset s' = PInt k))
     \<and> (ready s \<and> root_folder_id_of data_source = Inr fid
        \<and> cursor_offset_of (order s) = Inr (PInt k)
        \<and> scan_from_of env data_source (snd (reset_counters s)) = (Inr scan_from, sf)
        \<and> format_to_rfc3339_box env scan_from = Inr since
        \<and> scan_folder_incremental env fid (replace_000Z since) (PInt k) MAX_BATCH_SIZE
             (sf\<lparr>self_current_offset := PInt k\<rparr>) = (Inl e, sw)
      \<longrightarrow> (\<exists>res s'. incremental_scan env data_source s = (Inr res, s')
             \<and> error res = Some [Lit ''Error in incremental scan of Box: '', StrExc e]
             \<and> \<not> is_completed res \<and> files res = []
             \<and> cursor_saved s' \<and> self_current_offset s' = PInt k))"
proof (intro conjI impI)
  assume h: "writable scan_order \<and> data_source = PDict d
        \<and> authenticate env data_source (snd (reset_counters (s\<lparr>order := scan_order\<rparr>))) =
             (Inr (Some (AuthResult (Some client) credentials)), sa)"
  then have w: "writable scan_order" and d: "data_source = PDict d"
    and auth: "authenticate env data_source (snd (reset_counters (s\<lparr>order := scan_order\<rparr>))) =
             (Inr (Some (AuthResult (Some client) credentials)), sa)" by blast+
  let ?st = "sa\<lparr>self_box_client := Some client\<rparr>"
  let ?h = "scan_failed env ''Error scanning Box: ''"
  let ?Q = "\<lambda>res s. ready s \<and> cursor_saved s \<and> well_shaped res"
  let ?Qk = "\<lambda>res s. ready s \<and> cursor_saved s \<and> well_shaped res
               \<and> (if error res \<noteq> None then self_current_offset s = PInt k else True)"
  have sc: "scan env data_source scan_order s = try_except (choose_scan env data_source credentials) ?h ?st"
    by (rule scan_after_auth [OF d auth])
  have "kept sa = kept (snd (reset_counters (s\<lparr>order := scan_order\<rparr>)))"
    using preserves_authenticate auth by (rule preservesD2)
  then have o: "order sa = scan_order"
    by (simp add: kept_def reset_counters_def)
  with w have rd: "ready ?st" by (simp add: ready_def)
  have e1: "ensures ready (try_except (choose_scan env data_source credentials) ?h) ?Q (\<lambda>_. False)"
    by (rule ensures_try_except [OF choose_scan_ready [OF p]])
      (rule ensures_weaken [OF scan_failed_ready [OF p]], simp_all)
  obtain x s' where run: "try_except (choose_scan env data_source credentials) ?h ?st = (x, s')"
    by (cases "try_except (choose_scan env data_source credentials) ?h ?st")
  from ensures_Inl [OF e1 rd] run obtain res where x: "x = Inr res" by (cases x) auto
  from ensures_Inr [OF e1 rd] run x have q: "cursor_saved s'" "well_shaped res" by simp_all
  have handler: "error res = Some [Lit ''Error scanning Box: '', StrExc e]"
    if cs: "choose_scan env data_source credentials ?st = (Inl e, sx)" for e sx
  proof -
    from ensures_Inl [OF choose_scan_ready [OF p] rd cs] have "ready sx" .
    from scan_failed_run [OF p this, of "''Error scanning Box: ''" e] run x cs
    show ?thesis by (auto simp: try_except_def)
  qed
  have k: "self_current_offset s' = PInt k"
    if err: "error res \<noteq> None" and c: "cursor_offset_of scan_order = Inr (PInt k)"
      and r: "root_folder_id_of data_source = Inr fid"
  proof -
    let ?rest = "bindS (\<lambda>s. (py_get (order s) ''scan_type'' PNone, s)) (\<lambda>scan_type.
           bindS (if scan_type = PStr ''incremental'' then incremental_scan env data_source
                  else full_scan env data_source) (\<lambda>result.
             liftE (Inr (if truthy credentials then result\<lparr>updated_credentials := credentials\<rparr>
                         else result))))"
    let ?s3 = "?st\<lparr>self_current_offset := PInt k\<rparr>"
    from c o have "cursor_offset_of (order ?st) = Inr (PInt k)" by simp
    from choose_scan_resumes [OF this r, of env credentials]
    have cs: "choose_scan env data_source credentials ?st = ?rest ?s3" .
    have run': "try_except ?rest ?h ?s3 = (Inr res, s')"
      using run x cs by (simp add: try_except_def)
    have "ensures (resumed k) ?rest ?Qk (resumed k)"
      by (intro inv_bindS read_order_inv run_scan_resumed [OF p])
    then have e2: "ensures (resumed k) (try_except ?rest ?h) ?Qk (\<lambda>_. False)"
      by (rule ensures_try_except)
        (rule ensures_weaken [OF scan_failed_resumed [OF p]], auto)
    have "resumed k ?s3"
      using rd c o by (simp add: resumed_def ready_def)
    from ensures_Inr [OF e2 this run'] err show ?thesis by simp
  qed
  from q(2) have "error res \<noteq> None \<longrightarrow> \<not> is_completed res \<and> files res = []"
    by (auto simp: well_shaped_def)
  with sc run x q(1) k handler
  show "\<exists>res s'. scan env data_source scan_order s = (Inr res, s')
             \<and> cursor_saved s'
             \<and> (error res \<noteq> None \<longrightarrow> \<not> is_completed res \<and> files res = [])
             \<and> (\<forall>e sx. choose_scan env data_source credentials (sa\<lparr>self_box_client := Some client\<rparr>)
                          = (Inl e, sx)
                    \<longrightarrow> error res = Some [Lit ''Error scanning Box: '', StrExc e])
             \<and> (error res \<noteq> None \<and> cursor_offset_of scan_order = Inr (PInt k)
                  \<and> root_folder_id_of data_source = Inr fid
                \<longrightarrow> self_current_offset s' = PInt k)"
    by (intro exI [of _ res] exI [of _ s']) simp
next
  assume h: "ready s \<and> root_folder_id_of data_source = Inr fid
        \<and> cursor_offset_of (order s) = Inr (PInt k)
        \<and> scan_folder env fid (PInt k) MAX_BATCH_SIZE
             ((snd (reset_counters s))\<lparr>self_current_offset := PInt k\<rparr>) = (Inl e, sw)"
  then have rd: "ready s" and r: "root_folder_id_of data_source = Inr fid"
    and c: "cursor_offset_of (order s) = Inr (PInt k)"
    and w: "scan_folder env fid (PInt k) MAX_BATCH_SIZE
             ((snd (reset_counters s))\<lparr>self_current_offset := PInt k\<rparr>) = (Inl e, sw)"
    by blast+
  have "kept sw = kept ((snd (reset_counters s))\<lparr>self_current_offset := PInt k\<rparr>)"
    using preserves_scan_folder w by (rule preservesD2)
  with rd have rdw: "ready sw" and kw: "self_current_offset sw = PInt k"
    by (simp_all add: kept_def ready_def reset_counters_def)
  from scan_failed_run [OF p rdw, of "''Error in full scan of Box: ''" e] kw
  show "\<exists>res s'. full_scan env data_source s = (Inr res, s')
             \<and> error res = Some [Lit ''Error in full scan of Box: '', StrExc e]
             \<and> \<not> is_completed res \<and> files res = []
             \<and> cursor_saved s' \<and> self_current_offset s' = PInt k"
    by (simp add: full_scan_walk_failed_eq [OF r c w])
next
  assume h: "ready s \<and> root_folder_id_of data_source = Inr fid
        \<and> cursor_offset_of (order s) = Inr (PInt k)
        \<and> scan_from_of env data_source (snd (reset_counters s)) = (Inr scan_from, sf)
        \<and> format_to_rfc3339_box env scan_from = Inr since
        \<and> scan_folder_incremental env fid (replace_000Z since) (PInt k) MAX_BATCH_SIZE
             (sf\<lparr>self_current_offset := PInt k\<rparr>) = (Inl e, sw)"
  then have rd: "ready s" and r: "root_folder_id_of data_source = Inr fid"
    and c: "cursor_offset_of (order s) = Inr (PInt k)"
    and f: "scan_from_of env data_source (snd (reset_counters s)) = (Inr scan_from, sf)"
    and t: "format_to_rfc3339_box env scan_from = Inr since"
    and w: "scan_folder_incremental env fid (replace_000Z since) (PInt k) MAX_BATCH_SIZE
             (sf\<lparr>self_current_offset := PInt k\<rparr>) = (Inl e, sw)"
    by blast+
  have "kept sf = kept (snd (reset_counters s))"
    using preserves_scan_from_of f by (rule preservesD2)
  then have k1: "order sf = order s" "(self_box_client sf \<noteq> None) = (self_box_client s \<noteq> None)"
    by (simp_all add: kept_def reset_counters_def)
  have "kept sw = kept (sf\<lparr>self_current_offset := PInt k\<rparr>)"
    using preserves_scan_folder_incremental w by (rule preservesD2)
  with rd k1 have rd2: "ready sw" and k2: "self_current_offset sw = PInt k"
    by (simp_all add: kept_def ready_def)
  from c k1 have c1: "cursor_offset_of (order sf) = Inr (PInt k)" by simp
  from scan_failed_run [OF p rd2, of "''Error in incremental scan of Box: ''" e] k2
  show "\<exists>res s'. incremental_scan env data_source s = (Inr res, s')
             \<and> error res = Some [Lit ''Error in incremental scan of Box: '', StrExc e]
             \<and> \<not> is_completed res \<and> files res = []
             \<and> cursor_saved s' \<and> self_current_offset s' = PInt k"
    by (simp add: incremental_scan_walk_failed_eq [OF r f t c1 w])
qed

text \<open>
  The theorem at work with a client whose every request raises a 404, the cursor at 100:
  through the entry point, in \<open>full_scan\<close> and in \<open>incremental_scan\<close>; and with a
  cursor that is an integer, where the read of the cursor raises \<^verbatim>\<open>AttributeError\<close>
  in \<open>scan\<close> itself.
\<close>

theorem failure_keeps_cursor_witness:
  "persists (example_auth (example_failing_client 404) PNone)
   \<and> writable (PDict [(''id'', PStr ''so1''), (''scan_type'', PStr ''full''),
                (''scan_metadata'', PDict [(''cursor'', PDict [(''current_offset'', PInt 100)])])])
   \<and> error (projr (fst (scan
        (example_auth (example_failing_client 404) PNone)
        (PDict [(''id'', PStr ''ds1'')])
        (PDict [(''id'', PStr ''so1''), (''scan_type'', PStr ''full''),
                (''scan_metadata'', PDict [(''cursor'', PDict [(''current_offset'', PInt 100)])])])
        (init 0 0))))
       = Some [Lit ''Error in full scan of Box: '', StrExc (BoxAPIException 404)]
   \<and> \<not> is_completed (projr (fst (scan
        (example_auth (example_failing_client 404) PNone)
        (PDict [(''id'', PStr ''ds1'')])
        (PDict [(''id'', PStr ''so1''), (''scan_type'', PStr ''full''),
                (''scan_metadata'', PDict [(''cursor'', PDict [(''current_offset'', PInt 100)])])])
        (init 0 0))))
   \<and> persisted_offset (snd (scan
        (example_auth (example_failing_client 404) PNone)
        (PDict [(''id'', PStr ''ds1'')])
        (PDict [(''id'', PStr ''so1''), (''scan_type'', PStr ''full''),
                (''scan_metadata'', PDict [(''cursor'', PDict [(''current_offset'', PInt 100)])])])
        (init 0 0)))
       = Inr (PInt 100)
   \<and> error (projr (fst (scan
        (example_auth (example_failing_client 404) PNone)
        (PDict [(''id'', PStr ''ds1'')])
        (PDict [(''id'', PStr ''so1''), (''scan_type'', PStr ''full''),
                (''scan_metadata'', PDict [(''cursor'', PInt 5)])])
        (init 0 0))))
       = Some [Lit ''Error scanning Box: '', StrExc AttributeError]
   \<and> error (projr (fst (full_scan
        (example_auth (example_failing_client 404) PNone)
        (PDict [(''id'', PStr ''ds1'')])
        ((init 0 0)\<lparr>order := PDict [(''id'', PStr ''so1''), (''scan_type'', PStr ''full''),
                (''scan_metadata'', PDict [(''cursor'', PDict [(''current_offset'', PInt 100)])])],
           self_box_client := Some (example_failing_client 404)\<rparr>))))
       = Some [Lit ''Error in full scan of Box: '', StrExc (BoxAPIException 404)]
   \<and> persisted_offset (snd (full_scan
        (example_auth (example_failing_client 404) PNone)
        (PDict [(''id'', PStr ''ds1'')])
        ((init 0 0)\<lparr>order := PDict [(''id'', PStr ''so1''), (''scan_type'', PStr ''full''),
                (''scan_metadata'', PDict [(''cursor'', PDict [(''current_offset'', PInt 100)])])],
           self_box_client := Some (example_failing_client 404)\<rparr>)))
       = Inr (PInt 100)
   \<and> error (projr (fst (incremental_scan
        (example_auth (example_failing_client 404) PNone)
        (PDict [(''id'', PStr ''ds1'')])
        ((init 0 0)\<lparr>order := PDict [(''id'', PStr ''so1''), (''scan_type'', PStr ''full''),
                (''scan_metadata'', PDict [(''cursor'', PDict [(''current_offset'', PInt 100)])])],
           self_box_client := Some (example_failing_client 404)\<rparr>))))
       = Some [Lit ''Error in incremental scan of Box: '', StrExc (BoxAPIException 404)]
   \<and> persisted_offset (snd (incremental_scan
        (example_auth (example_failing_client 404) PNone)
        (PDict [(''id'', PStr ''ds1'')])
        ((init 0 0)\<lparr>order := PDict [(''id'', PStr ''so1''), (''scan_type'', PStr ''full''),
                (''scan_metadata'', PDict [(''cursor'', PDict [(''current_offset'', PInt 100)])])],
           self_box_client := Some (example_failing_client 404)\<rparr>)))
       = Inr (PInt 100)"
proof -
  let ?c = "example_failing_client 404"
  let ?E = "example_auth ?c PNone"
  let ?D = "PDict [(''id'', PStr ''ds1'')]"
  let ?O = "PDict [(''id'', PStr ''so1''), (''scan_type'', PStr ''full''),
                (''scan_metadata'', PDict [(''cursor'', PDict [(''current_offset'', PInt 100)])])]"
  let ?O2 = "PDict [(''id'', PStr ''so1''), (''scan_type'', PStr ''full''),
                (''scan_metadata'', PDict [(''cursor'', PInt 5)])]"
  let ?S = "init 0 (0::nat) :: nat state"
  let ?R = "?S\<lparr>order := ?O, self_box_client := Some ?c\<rparr>"
  let ?e = "BoxAPIException 404"
  have p: "persists ?E"
    by (simp add: persists_def example_auth_def example_env_def)
  have w: "writable ?O" by simp
  have w2: "writable ?O2" by simp
  have a: "authenticate ?E ?D (snd (reset_counters (?S\<lparr>order := ?O\<rparr>))) =
             (Inr (Some (AuthResult (Some ?c) PNone)), snd (reset_counters (?S\<lparr>order := ?O\<rparr>)))"
    by (simp add: authenticate_def bindS_def liftE_def example_auth_def example_env_def
        call_ext_def reset_counters_def)
  have a2: "authenticate ?E ?D (snd (reset_counters (?S\<lparr>order := ?O2\<rparr>))) =
             (Inr (Some (AuthResult (Some ?c) PNone)), snd (reset_counters (?S\<lparr>order := ?O2\<rparr>)))"
    by (simp add: authenticate_def bindS_def liftE_def example_auth_def example_env_def
        call_ext_def reset_counters_def)
  have c: "cursor_offset_of ?O = Inr (PInt 100)" by (simp add: cursor_offset_of_def)
  have r: "root_folder_id_of ?D = Inr (PStr ''0'')" by (simp add: root_folder_id_of_def)
  \<comment> \<open>the entry point, the walk raising a 404\<close>
  from failure_keeps_cursor [OF p, where scan_order = ?O and data_source = ?D and s = ?S
      and client = ?c and credentials = PNone and k = 100 and fid = "PStr ''0''"] w a
  obtain res s' where run: "scan ?E ?D ?O ?S = (Inr res, s')"
    and saved: "cursor_saved s'"
    and keep: "error res \<noteq> None \<and> cursor_offset_of ?O = Inr (PInt 100)
                \<and> root_folder_id_of ?D = Inr (PStr ''0'') \<longrightarrow> self_current_offset s' = PInt 100"
    by blast
  from run have res: "error res = Some [Lit ''Error in full scan of Box: '', StrExc ?e]"
    "\<not> is_completed res"
    by (auto simp: not_found_run)
  with keep c r have "self_current_offset s' = PInt 100" by simp
  with saved have po: "persisted_offset s' = Inr (PInt 100)" by (simp add: cursor_saved_def)
  \<comment> \<open>the entry point, the read of the cursor raising\<close>
  have cs: "choose_scan ?E ?D PNone
              ((snd (reset_counters (?S\<lparr>order := ?O2\<rparr>)))\<lparr>self_box_client := Some ?c\<rparr>) =
            (Inl AttributeError,
             snd (choose_scan ?E ?D PNone
              ((snd (reset_counters (?S\<lparr>order := ?O2\<rparr>)))\<lparr>self_box_client := Some ?c\<rparr>)))"
    by (simp add: scan_unfold)
  from failure_keeps_cursor [OF p, where scan_order = ?O2 and data_source = ?D and s = ?S
      and client = ?c and credentials = PNone] w2 a2
  obtain res2 s2' where run2: "scan ?E ?D ?O2 ?S = (Inr res2, s2')"
    and h2: "\<forall>e s2. choose_scan ?E ?D PNone
                ((snd (reset_counters (?S\<lparr>order := ?O2\<rparr>)))\<lparr>self_box_client := Some ?c\<rparr>)
                  = (Inl e, s2)
              \<longrightarrow> error res2 = Some [Lit ''Error scanning Box: '', StrExc e]"
    by blast
  from h2 cs have e2: "error res2 = Some [Lit ''Error scanning Box: '', StrExc AttributeError]"
    by blast
  \<comment> \<open>the full scan\<close>
  have rd: "ready ?R" by (simp add: ready_def init_def)
  have c0: "cursor_offset_of (order ?R) = Inr (PInt 100)" by (simp add: cursor_offset_of_def)
  have sf: "scan_folder ?E (PStr ''0'') (PInt 100) MAX_BATCH_SIZE
              ((snd (reset_counters ?R))\<lparr>self_current_offset := PInt 100\<rparr>) =
            (Inl ?e, snd (scan_folder ?E (PStr ''0'') (PInt 100) MAX_BATCH_SIZE
              ((snd (reset_counters ?R))\<lparr>self_current_offset := PInt 100\<rparr>)))"
    by (simp add: scan_unfold)
  from failure_keeps_cursor [OF p, where data_source = ?D and s = ?R and k = 100
      and fid = "PStr ''0''" and e = ?e
      and sw = "snd (scan_folder ?E (PStr ''0'') (PInt 100) MAX_BATCH_SIZE
              ((snd (reset_counters ?R))\<lparr>self_current_offset := PInt 100\<rparr>))"] rd r c0 sf
  obtain res3 s3 where run3: "full_scan ?E ?D ?R = (Inr res3, s3)"
    and e3: "error res3 = Some [Lit ''Error in full scan of Box: '', StrExc ?e]"
    and q3: "cursor_saved s3" "self_current_offset s3 = PInt 100"
    by blast
  from q3 have po3: "persisted_offset s3 = Inr (PInt 100)" by (simp add: cursor_saved_def)
  \<comment> \<open>the incremental scan\<close>
  let ?sf = "snd (scan_from_of ?E ?D (snd (reset_counters ?R)))"
  have fr: "scan_from_of ?E ?D (snd (reset_counters ?R)) = (Inr (PStr ''1970-01-01T00:00:00Z''), ?sf)"
    by (simp add: scan_unfold)
  have fm: "format_to_rfc3339_box ?E (PStr ''1970-01-01T00:00:00Z'') = Inr []"
    by (simp add: example_auth_def example_env_def)
  have si: "scan_folder_incremental ?E (PStr ''0'') (replace_000Z []) (PInt 100) MAX_BATCH_SIZE
              (?sf\<lparr>self_current_offset := PInt 100\<rparr>) =
            (Inl ?e, snd (scan_folder_incremental ?E (PStr ''0'') (replace_000Z []) (PInt 100)
              MAX_BATCH_SIZE (?sf\<lparr>self_current_offset := PInt 100\<rparr>)))"
    by (simp add: scan_unfold)
  from failure_keeps_cursor [OF p, where data_source = ?D and s = ?R and k = 100
      and fid = "PStr ''0''" and e = ?e and sf = ?sf
      and scan_from = "PStr ''1970-01-01T00:00:00Z''" and since = "[]"
      and sw = "snd (scan_folder_incremental ?E (PStr ''0'') (replace_000Z []) (PInt 100)
              MAX_BATCH_SIZE (?sf\<lparr>self_current_offset := PInt 100\<rparr>))"] rd r c0 fr fm si
  obtain res4 s4 where run4: "incremental_scan ?E ?D ?R = (Inr res4, s4)"
    and e4: "error res4 = Some [Lit ''Error in incremental scan of Box: '', StrExc ?e]"
    and q4: "cursor_saved s4" "self_current_offset s4 = PInt 100"
    by blast
  from q4 have po4: "persisted_offset s4 = Inr (PInt 100)" by (simp add: cursor_saved_def)
  from p w run res po run2 e2 run3 e3 po3 run4 e4 po4 show ?thesis by simp
qed

end
